(* ===== verification/Omnia_Prelude.thy ===== *)
theory Omnia_Prelude
  imports Complex_Main "HOL-Library.Multiset" "HOL-Library.List_Lexorder" "HOL-Library.Char_ord"
begin

section \<open>Prelude: collections, Python strings and numbers\<close>

text \<open>
  What every component theory shares. The first part holds the simplification collections
  and generic lemmas on lists and maps. The second part models the pieces of the Python
  language and standard library the repository uses everywhere: \<open>str\<close> methods, integer
  and fixed-point formatting, and the exceptions that travel through the code.

  A Python \<open>str\<close> is a \<^typ>\<open>string\<close>: a list of code points below 256 (the type
  \<^typ>\<open>char\<close>), which covers every line the daemon parses in practice (sshd messages,
  key files, command output). A Python \<open>float\<close> is a \<^typ>\<open>rat\<close>: each finite float is
  one, arithmetic on it is exact (rounding of the last bit is not modelled), and comparison
  is the comparison of floats. A Python \<open>int\<close> is an \<^typ>\<open>int\<close>.
\<close>

named_theorems pystr "evaluation of Python string operations"
named_theorems table_simps "reading and writing database tables"

type_synonym timestamp = rat

subsection \<open>Exceptions as values\<close>

datatype exn =
    ValueError string
  | TypeError string
  | AttributeError string
  | KeyError string
  | PermissionError string
  | ConnectionError string
  | OSError string
  | UnicodeDecodeError
  | IndexError
  | OverflowError string
  | ConnectionResetError string
  | SMTPException string
  | JSONDecodeError string
  | TimeoutExpired string
  | RuntimeError string
  | TimeoutError

type_synonym 'a result = "exn + 'a"

text \<open>What \<open>except OSError\<close> catches.\<close>

fun is_os_error :: "exn \<Rightarrow> bool" where
  "is_os_error (OSError _) = True"
| "is_os_error (PermissionError _) = True"
| "is_os_error (ConnectionError _) = True"
| "is_os_error (ConnectionResetError _) = True"
| "is_os_error TimeoutError = True"
| "is_os_error _ = False"

subsection \<open>Lists\<close>

definition take_last :: "nat \<Rightarrow> 'a list \<Rightarrow> 'a list" where
  "take_last n xs = drop (length xs - n) xs"

lemma length_take_last [simp]: "length (take_last n xs) = min n (length xs)"
  by (simp add: take_last_def)

lemma take_last_snoc: "0 < n \<Longrightarrow> take_last n (xs @ [x]) = take_last (n - 1) xs @ [x]"
  by (cases n) (auto simp: take_last_def Suc_diff_le)

lemma set_take_last: "set (take_last n xs) \<subseteq> set xs"
  by (simp add: take_last_def set_drop_subset)

lemma take_last_append_right: "n \<le> length ys \<Longrightarrow> take_last n (xs @ ys) = take_last n ys"
  by (simp add: take_last_def)

lemma sorted_wrt_take: "sorted_wrt R xs \<Longrightarrow> sorted_wrt R (take n xs)"
  by (induction xs arbitrary: n) (auto simp: take_Cons' dest: in_set_takeD)

lemma sorted_wrt_take_drop:
  "sorted_wrt R xs \<Longrightarrow> x \<in> set (take n xs) \<Longrightarrow> y \<in> set (drop n xs) \<Longrightarrow> R x y"
  using sorted_wrt_append [of R "take n xs" "drop n xs"] by simp

lemma takeWhile_split:
  "\<forall>c\<in>set u. p c \<Longrightarrow> r = [] \<or> \<not> p (hd r) \<Longrightarrow> takeWhile p (u @ r) = u"
  by (cases r) (auto simp: takeWhile_append2)

lemma dropWhile_split:
  "\<forall>c\<in>set u. p c \<Longrightarrow> r = [] \<or> \<not> p (hd r) \<Longrightarrow> dropWhile p (u @ r) = r"
  by (cases r) (auto simp: dropWhile_append2)

lemma takeWhile_none: "r = [] \<or> \<not> p (hd r) \<Longrightarrow> takeWhile p r = []"
  by (cases r) auto

lemma filter_sum_mono: "length (filter p xs) \<le> length xs"
  by (rule length_filter_le)

end
