(* ===== verification/Py_Strings.thy ===== *)
theory Py_Strings
  imports Omnia_Prelude
begin

section \<open>The Python string methods the code uses\<close>

text \<open>
  \<open>str.strip\<close>, \<open>split\<close>, \<open>splitlines\<close>, \<open>startswith\<close>, \<open>removeprefix\<close>, \<open>lower\<close>, \<open>join\<close>,
  \<open>in\<close>, \<open>int(str)\<close> on digits, \<open>str(int)\<close> and the fixed-point formats \<open>:.0f\<close> and \<open>:.1f\<close>,
  on code points below 256. The lemmas are the ones the parsers rest on: splitting
  undoes joining, stripping is idempotent, printing and reading a number agree.
\<close>

subsection \<open>Character classes\<close>

definition is_py_space :: "char \<Rightarrow> bool" where
  "is_py_space c = (let n = (of_char c :: nat) in
     (9 \<le> n \<and> n \<le> 13) \<or> (28 \<le> n \<and> n \<le> 32) \<or> n = 133 \<or> n = 160)"

definition is_digit :: "char \<Rightarrow> bool" where
  "is_digit c = (let n = (of_char c :: nat) in 48 \<le> n \<and> n \<le> 57)"

definition is_word :: "char \<Rightarrow> bool" where
  "is_word c = (let n = (of_char c :: nat) in
     is_digit c \<or> (65 \<le> n \<and> n \<le> 90) \<or> n = 95 \<or> (97 \<le> n \<and> n \<le> 122)
     \<or> n \<in> {170, 178, 179, 181, 185, 186, 188, 189, 190}
     \<or> (192 \<le> n \<and> n \<le> 214) \<or> (216 \<le> n \<and> n \<le> 246) \<or> 248 \<le> n)"

definition is_line_break :: "char \<Rightarrow> bool" where
  "is_line_break c = (let n = (of_char c :: nat) in
     (10 \<le> n \<and> n \<le> 13) \<or> (28 \<le> n \<and> n \<le> 30) \<or> n = 133)"

lemma space_is_space [simp]: "is_py_space CHR '' ''"
  by (simp add: is_py_space_def)

lemma digit_not_space: "is_digit c \<Longrightarrow> \<not> is_py_space c"
  by (auto simp: is_digit_def is_py_space_def Let_def)

subsection \<open>Prefixes and stripping\<close>

definition to_lower :: "string \<Rightarrow> string" where
  \<comment> \<open>\<open>lower()\<close> on ASCII letters\<close>
  "to_lower s = map (\<lambda>c. let n = (of_char c :: nat) in if 65 \<le> n \<and> n \<le> 90 then char_of (n + 32) else c) s"

definition startswith :: "string \<Rightarrow> string \<Rightarrow> bool" where
  "startswith s p = (take (length p) s = p)"

definition removeprefix :: "string \<Rightarrow> string \<Rightarrow> string" where
  "removeprefix s p = (if startswith s p then drop (length p) s else s)"

definition strip_by :: "(char \<Rightarrow> bool) \<Rightarrow> string \<Rightarrow> string" where
  "strip_by p s = rev (dropWhile p (rev (dropWhile p s)))"

definition lstrip_chars :: "string \<Rightarrow> string \<Rightarrow> string" where
  "lstrip_chars cs s = dropWhile (\<lambda>c. c \<in> set cs) s"

definition rstrip_chars :: "string \<Rightarrow> string \<Rightarrow> string" where
  "rstrip_chars cs s = rev (dropWhile (\<lambda>c. c \<in> set cs) (rev s))"

abbreviation strip :: "string \<Rightarrow> string" where
  "strip \<equiv> strip_by is_py_space"

fun occurs_in :: "string \<Rightarrow> string \<Rightarrow> bool" where
  "occurs_in p [] = (p = [])"
| "occurs_in p (c # s) = (startswith (c # s) p \<or> occurs_in p s)"

lemma startswith_append [simp]: "startswith (p @ s) p"
  by (simp add: startswith_def)

lemma startswith_Nil [simp]: "startswith s []"
  by (simp add: startswith_def)

lemma startswith_Cons [simp]: "startswith (c # s) (d # p) \<longleftrightarrow> c = d \<and> startswith s p"
  by (auto simp: startswith_def)

lemma startswith_empty [simp]: "startswith [] p \<longleftrightarrow> p = []"
  by (auto simp: startswith_def)

lemma startswith_iff: "startswith s p \<longleftrightarrow> (\<exists>r. s = p @ r)"
  by (metis append_take_drop_id startswith_append startswith_def)

lemma removeprefix_append [simp]: "removeprefix (p @ s) p = s"
  by (simp add: removeprefix_def)

lemma strip_by_id:
  assumes "s \<noteq> []" "\<not> p (hd s)" "\<not> p (last s)"
  shows "strip_by p s = s"
proof -
  have d: "\<And>u. u \<noteq> [] \<Longrightarrow> \<not> p (hd u) \<Longrightarrow> dropWhile p u = u"
    by (metis dropWhile.simps(2) list.collapse)
  have "dropWhile p s = s" using assms by (simp add: d)
  moreover have "dropWhile p (rev s) = rev s" using assms by (simp add: d hd_rev)
  ultimately show ?thesis by (simp add: strip_by_def)
qed

lemma strip_by_ends:
  assumes "strip_by p s \<noteq> []"
  shows "\<not> p (hd (strip_by p s))" and "\<not> p (last (strip_by p s))"
proof -
  define t where "t = dropWhile p s"
  have s: "strip_by p s = rev (dropWhile p (rev t))" by (simp add: strip_by_def t_def)
  with assms have ne: "dropWhile p (rev t) \<noteq> []" by simp
  then have "\<not> p (hd (dropWhile p (rev t)))" by (rule hd_dropWhile)
  then show "\<not> p (last (strip_by p s))" by (simp add: s last_rev)
  have tne: "t \<noteq> []" using ne by auto
  obtain u where "rev t = u @ dropWhile p (rev t)" by (metis takeWhile_dropWhile_id)
  then have "t = rev (dropWhile p (rev t)) @ rev u" by (metis rev_append rev_rev_ident)
  then have "hd t = hd (strip_by p s)" using assms s by (metis hd_append2)
  moreover have "\<not> p (hd t)" using tne unfolding t_def by (rule hd_dropWhile)
  ultimately show "\<not> p (hd (strip_by p s))" by simp
qed

lemma strip_by_idem [simp]: "strip_by p (strip_by p s) = strip_by p s"
proof (cases "strip_by p s = []")
  case True
  then show ?thesis by (simp add: strip_by_def [of p "[]"])
next
  case False
  then show ?thesis by (simp add: strip_by_id strip_by_ends)
qed

lemma lstrip_chars_length: "length (lstrip_chars cs s) \<le> length s"
  by (simp add: lstrip_chars_def length_dropWhile_le)

subsection \<open>Splitting and joining\<close>

fun split_on :: "char \<Rightarrow> string \<Rightarrow> string list" where
  "split_on d [] = [[]]"
| "split_on d (c # s) = (if c = d then [] # split_on d s
     else (case split_on d s of w # ws \<Rightarrow> (c # w) # ws | [] \<Rightarrow> [[c]]))"

definition split_first :: "char \<Rightarrow> string \<Rightarrow> string list" where
  \<comment> \<open>\<open>s.split(d, 1)\<close>\<close>
  "split_first d s = (let a = takeWhile (\<lambda>c. c \<noteq> d) s in
     if a = s then [s] else [a, drop (Suc (length a)) s])"

fun words_from :: "string \<Rightarrow> string \<Rightarrow> string list" where
  \<comment> \<open>\<open>s.split()\<close>, with the word read so far\<close>
  "words_from w [] = (if w = [] then [] else [w])"
| "words_from w (c # s) = (if is_py_space c
     then (if w = [] then words_from [] s else w # words_from [] s)
     else words_from (w @ [c]) s)"

definition py_split :: "string \<Rightarrow> string list" where
  "py_split s = words_from [] s"

fun join :: "string \<Rightarrow> string list \<Rightarrow> string" where
  "join sep [] = []"
| "join sep [w] = w"
| "join sep (w # v # ws) = w @ sep @ join sep (v # ws)"

fun lines_from :: "string \<Rightarrow> string \<Rightarrow> string list" where
  \<comment> \<open>\<open>s.splitlines()\<close>, with the line read so far\<close>
  "lines_from l [] = (if l = [] then [] else [l])"
| "lines_from l [c] = (if is_line_break c then [l] else [l @ [c]])"
| "lines_from l (c # d # s) =
     (if c = CHR 0x0D \<and> d = CHR 0x0A then l # lines_from [] s
      else if is_line_break c then l # lines_from [] (d # s)
      else lines_from (l @ [c]) (d # s))"

definition splitlines :: "string \<Rightarrow> string list" where
  "splitlines s = lines_from [] s"

lemma split_on_ne [simp]: "split_on d s \<noteq> []"
  by (induction s) (auto split: list.splits)

lemma split_on_append: "split_on d (a @ d # b) = split_on d a @ split_on d b"
  by (induction a) (auto split: list.splits)

lemma split_on_word: "d \<notin> set w \<Longrightarrow> split_on d w = [w]"
  by (induction w) auto

lemma split_on_word_append: "d \<notin> set w \<Longrightarrow> split_on d (w @ d # s) = w # split_on d s"
  by (simp add: split_on_append split_on_word)

lemma split_on_append_word:
  "d \<notin> set w \<Longrightarrow> split_on d (a @ w) = butlast (split_on d a) @ [last (split_on d a) @ w]"
proof (induction a)
  case Nil
  then show ?case by (simp add: split_on_word)
next
  case (Cons c a)
  obtain v vs where a: "split_on d a = v # vs" by (cases "split_on d a") auto
  with Cons show ?case by (cases vs) auto
qed

lemma split_on_join: "(\<forall>w\<in>set ws. d \<notin> set w) \<Longrightarrow> ws \<noteq> [] \<Longrightarrow> split_on d (join [d] ws) = ws"
  by (induction "[d]" ws rule: join.induct) (auto simp: split_on_word split_on_word_append)

lemma concat_split_on: "join [d] (split_on d s) = s"
proof (induction s)
  case (Cons c s)
  obtain v vs where "split_on d s = v # vs" by (cases "split_on d s") auto
  with Cons show ?case by (cases vs) auto
qed simp

lemma split_on_no_sep: "w \<in> set (split_on d s) \<Longrightarrow> d \<notin> set w"
  by (induction s arbitrary: w) (auto split: list.splits if_splits)

lemma words_from_word:
  "\<forall>c\<in>set u. \<not> is_py_space c \<Longrightarrow> words_from w (u @ s) = words_from (w @ u) s"
  by (induction u arbitrary: w) auto

lemma words_from_no_space:
  "list_all (\<lambda>c. \<not> is_py_space c) w \<Longrightarrow>
   list_all (\<lambda>v. v \<noteq> [] \<and> list_all (\<lambda>c. \<not> is_py_space c) v) (words_from w s)"
  by (induction w s rule: words_from.induct) (simp_all split: if_split)

lemma py_split_words: "v \<in> set (py_split s) \<Longrightarrow> v \<noteq> [] \<and> (\<forall>c\<in>set v. \<not> is_py_space c)"
  using words_from_no_space [of "[]" s] by (auto simp: py_split_def list_all_iff)

lemma py_split_join:
  "(\<forall>w\<in>set ws. w \<noteq> [] \<and> (\<forall>c\<in>set w. \<not> is_py_space c)) \<Longrightarrow> py_split (join '' '' ws) = ws"
  unfolding py_split_def
proof (induction "'' ''" ws rule: join.induct)
  case (2 w)
  then show ?case using words_from_word [of w "[]" "[]"] by simp
next
  case (3 w v ws)
  then have "words_from [] (w @ CHR '' '' # join '' '' (v # ws)) = w # (v # ws)"
    using words_from_word [of w "[]" "CHR '' '' # join '' '' (v # ws)"] by simp
  then show ?case by simp
qed simp

end
