(* ===== verification/Config.thy ===== *)
theory Config
  imports Py_Strings
begin

section \<open>config.py: the sections, their defaults and the loader\<close>

text \<open>
  \<open>daemon/src/omnia_daemon/config.py\<close>. A \<open>@dataclass\<close> is its name and its fields with their
  defaults; an instance is the list of its fields' values, which Python leaves unchecked, so a
  value is any TOML value. The parsed file is a parameter (\<open>fs\<close>: a path to nothing, to the
  error \<open>tomllib.load\<close> raises, or to a table). The records at the end are the typed views of
  the sections that the other components read.
\<close>

datatype toml =
    TStr string | TInt int | TFloat rat | TBool bool | TDateTime string
  | TArr "toml list" | TTable "(string \<times> toml) list"

type_synonym section_values = "(string \<times> toml) list"
type_synonym config_values = "(string \<times> section_values) list"

record dataclass =
  dc_name :: string
  dc_fields :: section_values

subsection \<open>The dataclasses\<close>

definition PathsConfig :: dataclass where
  "PathsConfig = \<lparr>dc_name = ''PathsConfig'', dc_fields =
     [(''socket_path'', TStr ''/run/omnia/omnia.sock''), (''db_path'', TStr ''/var/lib/omnia/omnia.db''),
      (''authorized_keys_path'', TStr ''~/.ssh/authorized_keys''),
      (''auth_log_path'', TStr ''/var/log/auth.log'')]\<rparr>"

definition SshConfig :: dataclass where
  "SshConfig = \<lparr>dc_name = ''SshConfig'', dc_fields =
     [(''systemd_unit_candidates'', TArr [TStr ''ssh.service'', TStr ''sshd.service'']),
      (''use_journald'', TBool True)]\<rparr>"

definition AlertsConfig :: dataclass where
  "AlertsConfig = \<lparr>dc_name = ''AlertsConfig'', dc_fields =
     [(''enabled'', TBool True), (''failed_login_threshold'', TInt 5),
      (''failed_login_window_minutes'', TInt 10), (''disk_usage_percent_threshold'', TInt 90),
      (''alert_on_new_key'', TBool True), (''cooldown_minutes'', TInt 30)]\<rparr>"

definition SmtpConfig :: dataclass where
  "SmtpConfig = \<lparr>dc_name = ''SmtpConfig'', dc_fields =
     [(''enabled'', TBool False), (''host'', TStr []), (''port'', TInt 587), (''use_tls'', TBool True),
      (''username'', TStr []), (''password'', TStr []), (''from_addr'', TStr []), (''to_addrs'', TArr [])]\<rparr>"

definition SpeedtestConfig :: dataclass where
  "SpeedtestConfig = \<lparr>dc_name = ''SpeedtestConfig'', dc_fields =
     [(''enabled'', TBool True), (''interval_hours'', TFloat 6)]\<rparr>"

definition RetentionConfig :: dataclass where
  "RetentionConfig = \<lparr>dc_name = ''RetentionConfig'', dc_fields =
     [(''resource_snapshot_days'', TInt 30), (''login_event_days'', TInt 90),
      (''resource_snapshot_interval_minutes'', TInt 5)]\<rparr>"

definition MetricsConfig :: dataclass where
  "MetricsConfig = \<lparr>dc_name = ''MetricsConfig'', dc_fields = [(''poll_interval_seconds'', TFloat 2)]\<rparr>"

definition GpuConfig :: dataclass where
  "GpuConfig = \<lparr>dc_name = ''GpuConfig'', dc_fields = [(''enabled'', TBool True), (''retry_minutes'', TInt 10)]\<rparr>"

definition FeaturesConfig :: dataclass where
  "FeaturesConfig = \<lparr>dc_name = ''FeaturesConfig'', dc_fields =
     [(''docker'', TBool True), (''fail2ban'', TBool True), (''smart_health'', TBool True),
      (''pending_updates'', TBool True), (''allow_service_restart'', TBool False),
      (''allow_reboot'', TBool False)]\<rparr>"

definition SECTION_TYPES :: "(string \<times> dataclass) list" where
  "SECTION_TYPES = [(''paths'', PathsConfig), (''ssh'', SshConfig), (''alerts'', AlertsConfig),
     (''smtp'', SmtpConfig), (''speedtest'', SpeedtestConfig), (''retention'', RetentionConfig),
     (''metrics'', MetricsConfig), (''gpu'', GpuConfig), (''features'', FeaturesConfig)]"

definition OmniaConfig :: config_values where
  \<comment> \<open>the instance with every default\<close>
  "OmniaConfig = map (\<lambda>(s, c). (s, dc_fields c)) SECTION_TYPES"

subsection \<open>Building a section\<close>

fun hashable :: "toml \<Rightarrow> bool" where
  "hashable (TArr _) = False" | "hashable (TTable _) = False" | "hashable _ = True"

fun set_of_raw :: "toml \<Rightarrow> toml list result" where
  \<comment> \<open>\<open>set(raw)\<close>\<close>
  "set_of_raw (TTable kvs) = Inr (map (TStr \<circ> fst) kvs)"
| "set_of_raw (TStr s) = Inr (map (\<lambda>c. TStr [c]) s)"
| "set_of_raw (TArr xs) = (if list_all hashable xs then Inr xs else Inl (TypeError ''unhashable type''))"
| "set_of_raw _ = Inl (TypeError ''object is not iterable'')"

fun is_text :: "toml \<Rightarrow> bool" where
  "is_text (TStr _) = True" | "is_text _ = False"

fun is_number :: "toml \<Rightarrow> bool" where
  "is_number (TInt _) = True" | "is_number (TFloat _) = True" | "is_number (TBool _) = True"
| "is_number _ = False"

definition sortable :: "toml list \<Rightarrow> bool" where
  "sortable xs \<longleftrightarrow> length (remdups xs) \<le> 1 \<or> list_all is_text xs \<or> list_all is_number xs"

definition build_section :: "dataclass \<Rightarrow> toml \<Rightarrow> section_values result" where
  "build_section cls raw = (case set_of_raw raw of Inl e \<Rightarrow> Inl e
     | Inr keys \<Rightarrow>
        (let unknown = filter (\<lambda>k. k \<notin> TStr ` set (map fst (dc_fields cls))) keys
         in if unknown \<noteq> [] then
              Inl (if sortable unknown then ValueError (''Unknown keys for ['' @ dc_name cls @ '']'')
                   else TypeError ''not supported between instances'')
            else (case raw of
              TTable kvs \<Rightarrow> Inr (map (\<lambda>(f, d). (f, case map_of kvs f of Some v \<Rightarrow> v | None \<Rightarrow> d)) (dc_fields cls))
            | _ \<Rightarrow> Inl (TypeError ''argument after ** must be a mapping''))))"

fun build_sections ::
  "(string \<times> dataclass) list \<Rightarrow> section_values \<Rightarrow> config_values result" where
  "build_sections [] raw = Inr []"
| "build_sections ((s, c) # rest) raw =
     (case build_section c (case map_of raw s of Some v \<Rightarrow> v | None \<Rightarrow> TTable []) of
        Inl e \<Rightarrow> Inl e
      | Inr vs \<Rightarrow> (case build_sections rest raw of Inl e \<Rightarrow> Inl e
          | Inr cfg \<Rightarrow> Inr ((s, vs) # cfg)))"

definition DEFAULT_CONFIG_PATHS :: "string \<Rightarrow> string list" where
  "DEFAULT_CONFIG_PATHS home = [''/etc/omnia/config.toml'', home @ ''/.config/omnia/config.toml'']"

fun first_file :: "(string \<Rightarrow> section_values result option) \<Rightarrow> string list \<Rightarrow> section_values result" where
  "first_file fs [] = Inr []"
| "first_file fs (c # cs) = (case fs c of None \<Rightarrow> first_file fs cs | Some r \<Rightarrow> r)"

definition load_config ::
  "(string \<Rightarrow> section_values result option) \<Rightarrow> string \<Rightarrow> string option \<Rightarrow> config_values result" where
  "load_config fs home path =
     (case first_file fs (case path of Some p \<Rightarrow> [p] | None \<Rightarrow> DEFAULT_CONFIG_PATHS home) of
        Inl e \<Rightarrow> Inl e
      | Inr raw \<Rightarrow> build_sections SECTION_TYPES raw)"

definition expand_path :: "string \<Rightarrow> (string \<Rightarrow> string option) \<Rightarrow> string \<Rightarrow> string result" where
  \<comment> \<open>\<open>Path(p).expanduser()\<close>\<close>
  "expand_path home user_home p = (if \<not> startswith p ''~'' then Inr p
     else let u = takeWhile (\<lambda>c. c \<noteq> CHR ''/'') (drop 1 p); rest = dropWhile (\<lambda>c. c \<noteq> CHR ''/'') p
     in if u = [] then Inr (home @ rest)
        else (case user_home u of None \<Rightarrow> Inl (RuntimeError ''Could not determine home directory.'')
          | Some h \<Rightarrow> Inr (h @ rest)))"

subsection \<open>Reading a field\<close>

definition cfg_get :: "config_values \<Rightarrow> string \<Rightarrow> string \<Rightarrow> toml option" where
  "cfg_get cfg s f = Option.bind (map_of cfg s) (\<lambda>vs. map_of vs f)"

definition default_of :: "string \<Rightarrow> string \<Rightarrow> toml option" where
  "default_of s f = cfg_get OmniaConfig s f"

fun table_get :: "toml option \<Rightarrow> string \<Rightarrow> toml option" where
  "table_get (Some (TTable kvs)) f = map_of kvs f"
| "table_get _ f = None"

lemma map_of_default:
  "map_of (map (\<lambda>(f, d). (f, case map_of kvs f of Some v \<Rightarrow> v | None \<Rightarrow> d)) fs) f
    = (case map_of fs f of None \<Rightarrow> None
       | Some d \<Rightarrow> (case map_of kvs f of None \<Rightarrow> Some d | Some v \<Rightarrow> Some v))"
  by (induction fs) (auto split: option.splits)

lemma build_section_table:
  "build_section c (TTable kvs) = (if fst ` set kvs \<subseteq> fst ` set (dc_fields c)
     then Inr (map (\<lambda>(f, d). (f, case map_of kvs f of Some v \<Rightarrow> v | None \<Rightarrow> d)) (dc_fields c))
     else Inl (ValueError (''Unknown keys for ['' @ dc_name c @ '']'')))"
proof -
  let ?u = "filter (\<lambda>k. k \<notin> TStr ` set (map fst (dc_fields c))) (map (TStr \<circ> fst) kvs)"
  have "?u = [] \<longleftrightarrow> fst ` set kvs \<subseteq> fst ` set (dc_fields c)"
    by (force simp: filter_empty_conv)
  moreover have "sortable ?u" by (auto simp: sortable_def list_all_iff)
  ultimately show ?thesis by (simp add: build_section_def Let_def)
qed

lemma build_section_Inr:
  assumes "build_section c raw = Inr vs"
  shows "\<exists>kvs. raw = TTable kvs \<and> fst ` set kvs \<subseteq> fst ` set (dc_fields c)
    \<and> vs = map (\<lambda>(f, d). (f, case map_of kvs f of Some v \<Rightarrow> v | None \<Rightarrow> d)) (dc_fields c)"
proof (cases raw)
  case (TTable kvs)
  with assms show ?thesis by (auto simp: build_section_table split: if_splits)
qed (use assms in \<open>auto simp: build_section_def Let_def split: sum.splits if_splits\<close>)

lemma build_sections_get:
  "build_sections secs raw = Inr cfg \<Longrightarrow> map_of cfg s = (case map_of secs s of None \<Rightarrow> None
     | Some c \<Rightarrow> (case build_section c (case map_of raw s of Some v \<Rightarrow> v | None \<Rightarrow> TTable []) of
         Inl _ \<Rightarrow> None | Inr vs \<Rightarrow> Some vs))"
  by (induction secs arbitrary: cfg) (auto split: sum.splits)

lemma build_sections_ok:
  "(\<exists>cfg. build_sections secs raw = Inr cfg) \<longleftrightarrow>
   (\<forall>(s, c)\<in>set secs. \<exists>vs. build_section c (case map_of raw s of Some v \<Rightarrow> v | None \<Rightarrow> TTable []) = Inr vs)"
proof (induction secs)
  case (Cons x secs)
  then show ?case by (cases x) (auto split: sum.splits)
qed simp

lemma map_of_map_pair: "map_of (map (\<lambda>(s, c). (s, g c)) xs) s = map_option g (map_of xs s)"
  by (induction xs) auto

lemma default_of_dataclass:
  "default_of s f = Option.bind (map_of SECTION_TYPES s) (\<lambda>c. map_of (dc_fields c) f)"
  by (cases "map_of SECTION_TYPES s") (simp_all add: default_of_def cfg_get_def OmniaConfig_def map_of_map_pair)

lemma load_config_get:
  assumes "load_config fs home (Some p) = Inr cfg" "fs p = Some (Inr raw)"
  shows "cfg_get cfg s f = (case default_of s f of None \<Rightarrow> None
    | Some d \<Rightarrow> (case table_get (map_of raw s) f of None \<Rightarrow> Some d | Some v \<Rightarrow> Some v))"
proof -
  have cfg: "build_sections SECTION_TYPES raw = Inr cfg"
    using assms by (simp add: load_config_def)
  note dflt = default_of_dataclass [of s f]
  show ?thesis
  proof (cases "map_of SECTION_TYPES s")
    case None
    then show ?thesis by (simp add: cfg_get_def dflt build_sections_get [OF cfg])
  next
    case (Some c)
    then have "(s, c) \<in> set SECTION_TYPES" by (rule map_of_SomeD)
    then obtain vs where vs: "build_section c (case map_of raw s of Some v \<Rightarrow> v | None \<Rightarrow> TTable []) = Inr vs"
      using build_sections_ok [of SECTION_TYPES raw] cfg by auto
    then obtain kvs where k: "(case map_of raw s of Some v \<Rightarrow> v | None \<Rightarrow> TTable []) = TTable kvs"
      "vs = map (\<lambda>(f, d). (f, case map_of kvs f of Some v \<Rightarrow> v | None \<Rightarrow> d)) (dc_fields c)"
      using build_section_Inr by blast
    have t: "table_get (map_of raw s) f = map_of kvs f"
      using k(1) by (cases "map_of raw s") auto
    have "map_of cfg s = Some vs" using build_sections_get [OF cfg, of s] Some vs by simp
    then show ?thesis
      by (simp add: cfg_get_def dflt Some t k(2) map_of_default split: option.split)
  qed
qed

subsection \<open>Typed views\<close>

text \<open>
  The annotations of the dataclasses are not checked at run time. A view is the section as its
  readers use it; it is \<open>None\<close> when a field does not have the annotated type.
\<close>

record alerts_config =
  ac_enabled :: bool
  failed_login_threshold :: int
  failed_login_window_minutes :: int
  disk_usage_percent_threshold :: int
  alert_on_new_key :: bool
  cooldown_minutes :: int

record smtp_config =
  sc_enabled :: bool
  sc_host :: string
  sc_port :: int
  sc_use_tls :: bool
  sc_username :: string
  sc_password :: string
  sc_from_addr :: string
  sc_to_addrs :: "string list"

record features_config =
  ft_docker :: bool
  ft_fail2ban :: bool
  ft_smart_health :: bool
  ft_pending_updates :: bool
  ft_allow_service_restart :: bool
  ft_allow_reboot :: bool

fun as_bool :: "toml option \<Rightarrow> bool option" where
  "as_bool (Some (TBool b)) = Some b" | "as_bool _ = None"

fun as_int :: "toml option \<Rightarrow> int option" where
  "as_int (Some (TInt n)) = Some n" | "as_int _ = None"

fun as_str :: "toml option \<Rightarrow> string option" where
  "as_str (Some (TStr s)) = Some s" | "as_str _ = None"

fun as_strs :: "toml option \<Rightarrow> string list option" where
  "as_strs (Some (TArr xs)) = those (map (\<lambda>x. as_str (Some x)) xs)" | "as_strs _ = None"

definition view_alerts :: "config_values \<Rightarrow> alerts_config option" where
  "view_alerts cfg = (let g = cfg_get cfg ''alerts'' in
     case (as_bool (g ''enabled''), as_int (g ''failed_login_threshold''),
           as_int (g ''failed_login_window_minutes''), as_int (g ''disk_usage_percent_threshold''),
           as_bool (g ''alert_on_new_key''), as_int (g ''cooldown_minutes'')) of
       (Some e, Some t, Some w, Some d, Some k, Some c) \<Rightarrow>
         Some \<lparr>ac_enabled = e, failed_login_threshold = t, failed_login_window_minutes = w,
           disk_usage_percent_threshold = d, alert_on_new_key = k, cooldown_minutes = c\<rparr>
     | _ \<Rightarrow> None)"

definition view_features :: "config_values \<Rightarrow> features_config option" where
  "view_features cfg = (let g = cfg_get cfg ''features'' in
     case (as_bool (g ''docker''), as_bool (g ''fail2ban''), as_bool (g ''smart_health''),
           as_bool (g ''pending_updates''), as_bool (g ''allow_service_restart''),
           as_bool (g ''allow_reboot'')) of
       (Some d, Some f, Some s, Some u, Some r, Some b) \<Rightarrow>
         Some \<lparr>ft_docker = d, ft_fail2ban = f, ft_smart_health = s, ft_pending_updates = u,
           ft_allow_service_restart = r, ft_allow_reboot = b\<rparr>
     | _ \<Rightarrow> None)"

definition view_smtp :: "config_values \<Rightarrow> smtp_config option" where
  "view_smtp cfg = (let g = cfg_get cfg ''smtp'' in
     case (as_bool (g ''enabled''), as_str (g ''host''), as_int (g ''port''), as_bool (g ''use_tls''),
           as_str (g ''username''), as_str (g ''password''), as_str (g ''from_addr''),
           as_strs (g ''to_addrs'')) of
       (Some e, Some h, Some p, Some t, Some u, Some w, Some f, Some a) \<Rightarrow>
         Some \<lparr>sc_enabled = e, sc_host = h, sc_port = p, sc_use_tls = t, sc_username = u,
           sc_password = w, sc_from_addr = f, sc_to_addrs = a\<rparr>
     | _ \<Rightarrow> None)"

end
