(* ===== verification/Py_Numbers.thy ===== *)
theory Py_Numbers
  imports Py_Strings
begin

section \<open>Numbers and their text\<close>

text \<open>
  \<open>int(s)\<close> on a digit string, \<open>str(n)\<close>, the formats \<open>:.0f\<close> and \<open>:.1f\<close> (round half to
  even on the exact value, as CPython prints a float), and \<open>statistics.fmean\<close>.
\<close>

definition digit_val :: "char \<Rightarrow> nat" where
  "digit_val c = of_char c - 48"

definition digit_chr :: "nat \<Rightarrow> char" where
  "digit_chr d = char_of (48 + d)"

definition digits_val :: "string \<Rightarrow> nat" where
  "digits_val s = foldl (\<lambda>n c. 10 * n + digit_val c) 0 s"

fun str_nat :: "nat \<Rightarrow> string" where
  "str_nat n = (if n < 10 then [digit_chr n] else str_nat (n div 10) @ [digit_chr (n mod 10)])"

declare str_nat.simps [simp del]

definition str_int :: "int \<Rightarrow> string" where
  "str_int i = (if i < 0 then ''-'' @ str_nat (nat (- i)) else str_nat (nat i))"

definition max_str_digits :: nat where
  \<comment> \<open>\<open>sys.get_int_max_str_digits()\<close>: longer digit strings raise\<close>
  "max_str_digits = 4300"

definition py_int_digits :: "string \<Rightarrow> int result" where
  "py_int_digits s = (if length s > max_str_digits
     then Inl (ValueError ''Exceeds the limit for integer string conversion'')
     else Inr (int (digits_val s)))"

lemma digit_val_chr: "d < 10 \<Longrightarrow> digit_val (digit_chr d) = d"
  by (simp add: digit_val_def digit_chr_def)

lemma is_digit_chr: "d < 10 \<Longrightarrow> is_digit (digit_chr d)"
  by (simp add: is_digit_def digit_chr_def Let_def)

lemma digits_val_snoc: "digits_val (s @ [c]) = 10 * digits_val s + digit_val c"
  by (simp add: digits_val_def)

lemma digits_val_str_nat [simp]: "digits_val (str_nat n) = n"
proof (induction n rule: str_nat.induct)
  case (1 n)
  show ?case
  proof (cases "n < 10")
    case True
    then show ?thesis
      by (subst str_nat.simps) (simp add: digits_val_def digit_val_chr)
  next
    case False
    then show ?thesis
      using "1.IH" by (subst str_nat.simps) (simp add: digits_val_snoc digit_val_chr)
  qed
qed

lemma str_nat_digits: "list_all is_digit (str_nat n)"
proof (induction n rule: str_nat.induct)
  case (1 n)
  then show ?case by (subst str_nat.simps) (simp add: is_digit_chr)
qed

lemma str_nat_ne [simp]: "str_nat n \<noteq> []"
  by (subst str_nat.simps) simp

lemma length_str_nat: "n < 10 ^ k \<Longrightarrow> 0 < k \<Longrightarrow> length (str_nat n) \<le> k"
proof (induction n arbitrary: k rule: str_nat.induct)
  case (1 n)
  show ?case
  proof (cases "n < 10")
    case True
    then show ?thesis using "1.prems" by (subst str_nat.simps) simp
  next
    case False
    with "1.prems" obtain j where k: "k = Suc j" "0 < j" by (cases k; cases "k - 1") auto
    with "1.prems" have "n div 10 < 10 ^ j" by (simp add: less_mult_imp_div_less mult.commute)
    with False k "1.IH" show ?thesis by (subst str_nat.simps) simp
  qed
qed

lemma py_int_str_nat: "length (str_nat n) \<le> max_str_digits \<Longrightarrow> py_int_digits (str_nat n) = Inr (int n)"
  by (simp add: py_int_digits_def)

subsection \<open>Fixed-point formatting\<close>

definition round_half_even :: "rat \<Rightarrow> int" where
  "round_half_even x = (let f = \<lfloor>x\<rfloor>; r = x - of_int f in
     if r < 1 / 2 then f else if r > 1 / 2 then f + 1 else if even f then f else f + 1)"

definition pad_left :: "nat \<Rightarrow> string \<Rightarrow> string" where
  "pad_left n s = replicate (n - length s) CHR ''0'' @ s"

definition fmt_fixed :: "nat \<Rightarrow> rat \<Rightarrow> string" where
  "fmt_fixed d x = (let m = nat (round_half_even (\<bar>x\<bar> * 10 ^ d));
       ds = pad_left (Suc d) (str_nat m);
       body = (if d = 0 then ds
               else take (length ds - d) ds @ ''.'' @ drop (length ds - d) ds)
     in (if x < 0 then ''-'' else []) @ body)"

lemma round_half_even_of_int [simp]: "round_half_even (of_int i) = i"
  by (simp add: round_half_even_def)

lemma round_half_even_error: "\<bar>of_int (round_half_even x) - x\<bar> \<le> 1 / 2"
proof -
  have "of_int \<lfloor>x\<rfloor> \<le> x" "x < of_int \<lfloor>x\<rfloor> + 1" by linarith+
  then show ?thesis unfolding round_half_even_def Let_def by auto
qed

definition fmean :: "rat list \<Rightarrow> rat" where
  "fmean xs = sum_list xs / of_nat (length xs)"

lemma sum_list_bounds:
  fixes xs :: "rat list"
  shows "(\<forall>x\<in>set xs. a \<le> x) \<Longrightarrow> of_nat (length xs) * a \<le> sum_list xs"
    and "(\<forall>x\<in>set xs. x \<le> b) \<Longrightarrow> sum_list xs \<le> of_nat (length xs) * b"
  by (induction xs) (auto simp: algebra_simps)

lemma fmean_bounds:
  assumes "xs \<noteq> []" "\<forall>x\<in>set xs. a \<le> x \<and> x \<le> b"
  shows "a \<le> fmean xs \<and> fmean xs \<le> b"
proof -
  have n: "0 < (of_nat (length xs) :: rat)" using assms(1) by simp
  have "of_nat (length xs) * a \<le> sum_list xs" "sum_list xs \<le> of_nat (length xs) * b"
    using assms(2) by (auto intro: sum_list_bounds)
  with n show ?thesis
    by (simp add: fmean_def pos_le_divide_eq pos_divide_le_eq mult.commute)
qed

end
