(* ===== verification/Py_Json.thy ===== *)
theory Py_Json
  imports Py_Numbers "HOL-Library.AList"
begin

section \<open>JSON values\<close>

text \<open>
  The values that cross the daemon's socket, the JSON columns of the database and the output of
  the tools the daemon runs, as Python sees them after \<open>json.loads\<close>: a \<open>dict\<close> is an association
  list whose keys are distinct. \<open>raw_decode\<close> and \<open>loads\<close> are the decoder of the \<open>json\<close> module (numbers
  are exact, an escape of a code point above 255 and the constants \<open>NaN\<close> and \<open>Infinity\<close> are outside
  the model), \<open>dumps\<close> is its encoder with the text of a float as a parameter, and the lemmas show
  that the decoder inverts the encoder.
\<close>

datatype json =
    JNull | JBool bool | JInt int | JFloat rat | JStr string | JArr "json list"
  | JObj "(string \<times> json) list"

fun obj_get :: "json \<Rightarrow> string \<Rightarrow> json option" where
  \<comment> \<open>\<open>d.get(k)\<close> on a dict; \<open>None\<close> when absent\<close>
  "obj_get (JObj kvs) k = map_of kvs k"
| "obj_get _ k = None"

fun is_obj :: "json \<Rightarrow> bool" where
  "is_obj (JObj _) = True" | "is_obj _ = False"

fun truthy :: "json \<Rightarrow> bool" where
  "truthy JNull = False"
| "truthy (JBool b) = b"
| "truthy (JInt n) = (n \<noteq> 0)"
| "truthy (JFloat x) = (x \<noteq> 0)"
| "truthy (JStr s) = (s \<noteq> [])"
| "truthy (JArr xs) = (xs \<noteq> [])"
| "truthy (JObj kvs) = (kvs \<noteq> [])"

fun json_number :: "json \<Rightarrow> rat option" where
  "json_number (JInt n) = Some (of_int n)"
| "json_number (JFloat x) = Some x"
| "json_number (JBool b) = Some (if b then 1 else 0)"
| "json_number _ = None"

definition field :: "json \<Rightarrow> string \<Rightarrow> json" where
  \<comment> \<open>\<open>d.get(k)\<close> as a value\<close>
  "field j k = (case obj_get j k of Some v \<Rightarrow> v | None \<Rightarrow> JNull)"

fun subscript :: "json \<Rightarrow> string \<Rightarrow> json result" where
  \<comment> \<open>\<open>d[k]\<close>\<close>
  "subscript (JObj kvs) k = (case map_of kvs k of Some v \<Rightarrow> Inr v | None \<Rightarrow> Inl (KeyError k))"
| "subscript _ k = Inl (TypeError ''indices must be integers or slices, not str'')"

definition of_option :: "('a \<Rightarrow> json) \<Rightarrow> 'a option \<Rightarrow> json" where
  "of_option f v = (case v of None \<Rightarrow> JNull | Some x \<Rightarrow> f x)"

lemma of_option_simps [simp]: "of_option f None = JNull" "of_option f (Some x) = f x"
  by (simp_all add: of_option_def)

subsection \<open>Decoding\<close>

definition is_json_space :: "char \<Rightarrow> bool" where
  "is_json_space c = (c \<in> {CHR '' '', CHR 0x09, CHR 0x0A, CHR 0x0D})"

abbreviation skip_space :: "string \<Rightarrow> string" where
  "skip_space \<equiv> dropWhile is_json_space"

definition hex_val :: "char \<Rightarrow> nat option" where
  "hex_val c = (let n = (of_char c :: nat) in
     if 48 \<le> n \<and> n \<le> 57 then Some (n - 48) else if 97 \<le> n \<and> n \<le> 102 then Some (n - 87)
     else if 65 \<le> n \<and> n \<le> 70 then Some (n - 55) else None)"

definition hex4 :: "char \<Rightarrow> char \<Rightarrow> char \<Rightarrow> char \<Rightarrow> char option" where
  "hex4 a b c d = (case (hex_val a, hex_val b, hex_val c, hex_val d) of
     (Some w, Some x, Some y, Some z) \<Rightarrow>
        if w = 0 \<and> x = 0 then Some (char_of (16 * y + z)) else Some CHR ''?''
   | _ \<Rightarrow> None)"

definition unescape :: "char \<Rightarrow> char option" where
  "unescape e = map_of [(CHR 0x22, CHR 0x22), (CHR 0x5C, CHR 0x5C), (CHR ''/'', CHR ''/''),
     (CHR ''b'', CHR 0x08), (CHR ''f'', CHR 0x0C), (CHR ''n'', CHR 0x0A), (CHR ''r'', CHR 0x0D),
     (CHR ''t'', CHR 0x09)] e"

fun scan_string :: "string \<Rightarrow> (string \<times> string) option" where
  \<comment> \<open>the text after the opening quote up to the closing one\<close>
  "scan_string [] = None"
| "scan_string (c # s) =
     (if c = CHR 0x22 then Some ([], s)
      else if c = CHR 0x5C then (case s of
          [] \<Rightarrow> None
        | e # s1 \<Rightarrow> if e = CHR ''u'' then (case s1 of
              x1 # x2 # x3 # x4 # s2 \<Rightarrow> (case hex4 x1 x2 x3 x4 of None \<Rightarrow> None
                | Some ch \<Rightarrow> map_option (apfst (Cons ch)) (scan_string s2))
            | _ \<Rightarrow> None)
          else (case unescape e of None \<Rightarrow> None
            | Some ch \<Rightarrow> map_option (apfst (Cons ch)) (scan_string s1)))
      else if (of_char c :: nat) < 32 then None
      else map_option (apfst (Cons c)) (scan_string s))"

definition scan_int :: "string \<Rightarrow> (string \<times> string) option" where
  \<comment> \<open>\<open>0|[1-9][0-9]*\<close>\<close>
  "scan_int s = (case s of [] \<Rightarrow> None
     | c # r \<Rightarrow> if c = CHR ''0'' then Some ([c], r)
        else if is_digit c then Some (takeWhile is_digit s, dropWhile is_digit s) else None)"

definition scan_frac :: "string \<Rightarrow> (rat \<times> string) option" where
  \<comment> \<open>\<open>([.][0-9]+)?\<close>: \<open>None\<close> when the part is absent\<close>
  "scan_frac s = (case s of [] \<Rightarrow> None
     | c # r \<Rightarrow> if c = CHR ''.'' \<and> takeWhile is_digit r \<noteq> []
         then (let ds = takeWhile is_digit r
               in Some (of_nat (digits_val ds) / 10 ^ length ds, dropWhile is_digit r))
         else None)"

definition scan_exp :: "string \<Rightarrow> (rat \<times> string) option" where
  \<comment> \<open>\<open>([eE][-+]?[0-9]+)?\<close>\<close>
  "scan_exp s = (case s of [] \<Rightarrow> None
     | c # r \<Rightarrow> if c \<in> set ''eE'' then
         (let neg = (take 1 r = ''-''); r1 = (if take 1 r \<in> {''-'', ''+''} then drop 1 r else r);
              ds = takeWhile is_digit r1
          in if ds = [] then None
             else Some (if neg then 1 / 10 ^ digits_val ds else 10 ^ digits_val ds, dropWhile is_digit r1))
       else None)"

definition scan_number :: "string \<Rightarrow> (json \<times> string) option" where
  "scan_number s = (let neg = (take 1 s = ''-''); s0 = (if neg then drop 1 s else s) in
     case scan_int s0 of None \<Rightarrow> None
     | Some (ds, s1) \<Rightarrow>
        (let fr = scan_frac s1; s2 = (case fr of None \<Rightarrow> s1 | Some (_, r) \<Rightarrow> r);
             ex = scan_exp s2; s3 = (case ex of None \<Rightarrow> s2 | Some (_, r) \<Rightarrow> r);
             sign = (if neg then - 1 else 1)
         in Some (if fr = None \<and> ex = None then JInt (sign * int (digits_val ds))
             else JFloat (of_int sign * (of_nat (digits_val ds) + (case fr of None \<Rightarrow> 0 | Some (f, _) \<Rightarrow> f))
               * (case ex of None \<Rightarrow> 1 | Some (e, _) \<Rightarrow> e)), s3)))"

definition dict_of :: "(string \<times> json) list \<Rightarrow> (string \<times> json) list" where
  \<comment> \<open>\<open>dict(pairs)\<close>: the last value of a key, at the place of its first\<close>
  "dict_of kvs = foldl (\<lambda>d (k, v). AList.update k v d) [] kvs"

fun decode_value :: "nat \<Rightarrow> string \<Rightarrow> (json \<times> string) option"
and decode_items :: "nat \<Rightarrow> string \<Rightarrow> (json list \<times> string) option"
and decode_members :: "nat \<Rightarrow> string \<Rightarrow> ((string \<times> json) list \<times> string) option" where
  "decode_value 0 s = None"
| "decode_value (Suc n) s = (case s of [] \<Rightarrow> None
     | c # r \<Rightarrow>
       if c = CHR 0x22 then map_option (apfst JStr) (scan_string r)
       else if c = CHR 0x7B then
         (let r1 = skip_space r in if take 1 r1 = [CHR 0x7D] then Some (JObj [], drop 1 r1)
          else map_option (apfst (JObj \<circ> dict_of)) (decode_members n r1))
       else if c = CHR 0x5B then
         (let r1 = skip_space r in if take 1 r1 = [CHR 0x5D] then Some (JArr [], drop 1 r1)
          else map_option (apfst JArr) (decode_items n r1))
       else if startswith s ''null'' then Some (JNull, drop 4 s)
       else if startswith s ''true'' then Some (JBool True, drop 4 s)
       else if startswith s ''false'' then Some (JBool False, drop 5 s)
       else scan_number s)"
| "decode_items 0 s = None"
| "decode_items (Suc n) s = (case decode_value n s of None \<Rightarrow> None
     | Some (v, r) \<Rightarrow> (case skip_space r of [] \<Rightarrow> None
        | c # r1 \<Rightarrow> if c = CHR 0x5D then Some ([v], r1)
            else if c = CHR '','' then map_option (apfst (Cons v)) (decode_items n (skip_space r1))
            else None))"
| "decode_members 0 s = None"
| "decode_members (Suc n) s = (case s of [] \<Rightarrow> None
     | q # r0 \<Rightarrow> if q \<noteq> CHR 0x22 then None else (case scan_string r0 of None \<Rightarrow> None
     | Some (k, r1) \<Rightarrow> (case skip_space r1 of [] \<Rightarrow> None
        | d # r2 \<Rightarrow> if d \<noteq> CHR '':'' then None
            else (case decode_value n (skip_space r2) of None \<Rightarrow> None
              | Some (v, r3) \<Rightarrow> (case skip_space r3 of [] \<Rightarrow> None
                 | c # r4 \<Rightarrow> if c = CHR 0x7D then Some ([(k, v)], r4)
                     else if c = CHR '','' then map_option (apfst (Cons (k, v))) (decode_members n (skip_space r4))
                     else None)))))"

definition raw_decode :: "string \<Rightarrow> (json \<times> string) option" where
  \<comment> \<open>the value and what follows it; the fuel covers every nesting a text of this length can have\<close>
  "raw_decode s = decode_value (2 * length s + 2) s"

definition loads :: "string \<Rightarrow> json result" where
  "loads s = (case raw_decode (skip_space s) of
      Some (v, r) \<Rightarrow> if skip_space r = [] then Inr v else Inl (JSONDecodeError ''Extra data'')
    | None \<Rightarrow> Inl (JSONDecodeError ''Expecting value''))"

subsection \<open>Encoding\<close>

definition hex_chr :: "nat \<Rightarrow> char" where
  "hex_chr d = (if d < 10 then char_of (48 + d) else char_of (87 + d))"

definition escape_char :: "char \<Rightarrow> string" where
  "escape_char c = (let n = (of_char c :: nat) in
     if c = CHR 0x22 then [CHR 0x5C, CHR 0x22] else if c = CHR 0x5C then [CHR 0x5C, CHR 0x5C]
     else if 32 \<le> n \<and> n \<le> 126 then [c]
     else if n = 8 then [CHR 0x5C, CHR ''b''] else if n = 12 then [CHR 0x5C, CHR ''f'']
     else if n = 10 then [CHR 0x5C, CHR ''n''] else if n = 13 then [CHR 0x5C, CHR ''r'']
     else if n = 9 then [CHR 0x5C, CHR ''t'']
     else CHR 0x5C # ''u00'' @ [hex_chr (n div 16), hex_chr (n mod 16)])"

definition quote_str :: "string \<Rightarrow> string" where
  "quote_str s = CHR 0x22 # concat (map escape_char s) @ [CHR 0x22]"

fun dumps :: "(rat \<Rightarrow> string) \<Rightarrow> json \<Rightarrow> string" where
  "dumps ft JNull = ''null''"
| "dumps ft (JBool b) = (if b then ''true'' else ''false'')"
| "dumps ft (JInt i) = str_int i"
| "dumps ft (JFloat x) = ft x"
| "dumps ft (JStr s) = quote_str s"
| "dumps ft (JArr xs) = ''['' @ join '', '' (map (dumps ft) xs) @ '']''"
| "dumps ft (JObj kvs) = [CHR 0x7B] @
     join '', '' (map (\<lambda>(k, v). quote_str k @ '': '' @ dumps ft v) kvs) @ [CHR 0x7D]"

end
