(* ===== verification/Db.thy ===== *)
theory Db
  imports Py_Json
begin

section \<open>db.py: the SQLite store\<close>

text \<open>
  \<open>daemon/src/omnia_daemon/db.py\<close>. A table is its rows with their ids in insertion order and
  the \<open>sqlite_sequence\<close> counter of \<open>AUTOINCREMENT\<close>; \<open>ingest_state\<close>, whose key is primary, is
  a map. \<open>Database\<close> is the record of the five tables, and every method of the class is a
  definition: a query is a function of the record, a statement that writes returns it updated.
  A Python \<open>int\<close> bound to a parameter must fit SQLite's 64-bit integer, otherwise the
  \<open>sqlite3\<close> module raises \<open>OverflowError\<close> (\<open>sql_int\<close>).

  Rows with equal timestamps: a query whose \<open>ORDER BY\<close> follows an index reads it backwards
  (\<open>order_desc\<close>: the newest id first), one that has none uses the stable sorter
  (\<open>sorter_desc\<close>). \<open>SELECT *\<close> answers a row with its id; where the caller only reads other columns
  (\<open>latest_accepted_key\<close>, the counters) the id is left out. The disk and GPU columns hold the JSON value itself in place of the text that
  \<open>json.dumps\<close> writes and \<open>json.loads\<close> reads back.
\<close>

subsection \<open>Tables\<close>

record 'a table =
  tb_rows :: "(int \<times> 'a) list"
  tb_seq :: int

definition empty_table :: "'a table" where
  "empty_table = \<lparr>tb_rows = [], tb_seq = 0\<rparr>"

definition insert_row :: "'a \<Rightarrow> 'a table \<Rightarrow> 'a table" where
  "insert_row r t = \<lparr>tb_rows = tb_rows t @ [(tb_seq t + 1, r)], tb_seq = tb_seq t + 1\<rparr>"

definition delete_rows :: "('a \<Rightarrow> bool) \<Rightarrow> 'a table \<Rightarrow> 'a table" where
  "delete_rows p t = t\<lparr>tb_rows := filter (\<lambda>(i, r). \<not> p r) (tb_rows t)\<rparr>"

definition select_rows :: "('a \<Rightarrow> bool) \<Rightarrow> 'a table \<Rightarrow> 'a list" where
  "select_rows p t = filter p (map snd (tb_rows t))"

definition order_desc :: "('a \<Rightarrow> timestamp) \<Rightarrow> 'a list \<Rightarrow> 'a list" where
  "order_desc k xs = rev (sort_key k xs)"

definition sorter_desc :: "('a \<Rightarrow> timestamp) \<Rightarrow> 'a list \<Rightarrow> 'a list" where
  "sorter_desc k xs = sort_key (\<lambda>r. - k r) xs"

definition limit_rows :: "int \<Rightarrow> 'a list \<Rightarrow> 'a list" where
  \<comment> \<open>\<open>LIMIT ?\<close>: a negative limit is no limit\<close>
  "limit_rows n xs = (if n < 0 then xs else take (nat n) xs)"

definition sql_int :: "int \<Rightarrow> bool" where
  "sql_int n \<longleftrightarrow> - (2 ^ 63) \<le> n \<and> n < 2 ^ 63"

definition overflow :: "'a result" where
  "overflow = Inl (OverflowError ''Python int too large to convert to SQLite INTEGER'')"

fun fetchone :: "'a list \<Rightarrow> 'a option" where
  "fetchone [] = None"
| "fetchone (x # xs) = Some x"

text \<open>Row ids are positive, increasing and never given out twice, also after deletions.\<close>

definition table_inv :: "'a table \<Rightarrow> bool" where
  "table_inv t \<longleftrightarrow> sorted_wrt (<) (map fst (tb_rows t))
     \<and> (\<forall>i\<in>fst ` set (tb_rows t). 0 < i \<and> i \<le> tb_seq t) \<and> 0 \<le> tb_seq t"

lemma table_inv_empty [simp, intro]: "table_inv empty_table"
  by (simp add: table_inv_def empty_table_def)

lemma table_inv_insert [intro]: "table_inv t \<Longrightarrow> table_inv (insert_row r t)"
  by (fastforce simp: table_inv_def insert_row_def sorted_wrt_append)

lemma sorted_wrt_map_filter: "sorted_wrt R (map f xs) \<Longrightarrow> sorted_wrt R (map f (filter p xs))"
  by (induction xs) auto

lemma table_inv_delete [intro]: "table_inv t \<Longrightarrow> table_inv (delete_rows p t)"
  by (auto simp: table_inv_def delete_rows_def intro: sorted_wrt_map_filter)

lemma select_insert [table_simps]:
  "select_rows p (insert_row r t) = select_rows p t @ (if p r then [r] else [])"
  by (simp add: select_rows_def insert_row_def)

lemma select_delete [table_simps]:
  "select_rows p (delete_rows q t) = filter (\<lambda>r. \<not> q r) (select_rows p t)"
proof -
  have "map snd (filter (\<lambda>(i, r). \<not> q r) xs) = filter (\<lambda>r. \<not> q r) (map snd xs)"
    for xs :: "(int \<times> 'a) list"
    by (induction xs) auto
  then show ?thesis by (simp add: select_rows_def delete_rows_def conj_commute)
qed

lemma select_empty [table_simps]: "select_rows p empty_table = []"
  by (simp add: select_rows_def empty_table_def)

subsection \<open>Ordered queries\<close>

text \<open>The contract of a query that orders by a key, newest first.\<close>

locale newest_first =
  fixes order :: "('a \<Rightarrow> timestamp) \<Rightarrow> 'a list \<Rightarrow> 'a list"
  assumes order_mset: "mset (order k xs) = mset xs"
    and order_sorted: "sorted_wrt (\<lambda>a b. k b \<le> k a) (order k xs)"
begin

lemma set_order: "set (order k xs) = set xs"
  by (metis order_mset set_mset_mset)

lemma length_order: "length (order k xs) = length xs"
  by (metis order_mset size_mset)

lemma limited_size: "length (limit_rows n (order k xs)) =
    (if n < 0 then length xs else min (nat n) (length xs))"
  by (auto simp: limit_rows_def length_order)

lemma limited_sorted: "sorted_wrt (\<lambda>a b. k b \<le> k a) (limit_rows n (order k xs))"
  by (simp add: limit_rows_def order_sorted sorted_wrt_take)

lemma limited_subset: "mset (limit_rows n (order k xs)) \<subseteq># mset xs"
proof -
  have "mset (take m (order k xs)) \<subseteq># mset (order k xs)" for m
    by (metis append_take_drop_id mset_append mset_subset_eq_add_left)
  then show ?thesis by (simp add: limit_rows_def order_mset)
qed

lemma left_out_older:
  assumes "x \<in># mset xs - mset (limit_rows n (order k xs))" "y \<in> set (limit_rows n (order k xs))"
  shows "k x \<le> k y"
proof (cases "n < 0")
  case True
  with assms(1) show ?thesis by (simp add: limit_rows_def order_mset)
next
  case False
  let ?t = "take (nat n) (order k xs)" and ?d = "drop (nat n) (order k xs)"
  have "mset xs = mset ?t + mset ?d"
    by (metis append_take_drop_id mset_append order_mset)
  then have "x \<in> set ?d" using assms(1) False by (simp add: limit_rows_def)
  moreover have "y \<in> set ?t" using assms(2) False by (simp add: limit_rows_def)
  ultimately show ?thesis
    using sorted_wrt_take_drop [OF order_sorted] by blast
qed

lemma fetchone_newest:
  "fetchone (order k xs) = Some r \<Longrightarrow> r \<in> set xs \<and> (\<forall>x\<in>set xs. k x \<le> k r)"
proof (cases "order k xs")
  case (Cons a as)
  moreover assume "fetchone (order k xs) = Some r"
  ultimately have r: "order k xs = r # as" by simp
  then have "\<forall>x\<in>set as. k x \<le> k r" using order_sorted [of k xs] by simp
  then show ?thesis using r set_order [of k xs] by auto
qed simp

lemma fetchone_None: "fetchone (order k xs) = None \<longleftrightarrow> xs = []"
  by (cases "order k xs") (use length_order [of k xs] in auto)

end

interpretation indexed: newest_first order_desc
proof unfold_locales
  fix k and xs :: "'a list"
  show "mset (order_desc k xs) = mset xs" by (simp add: order_desc_def)
  have "sorted (map k (sort_key k xs))" by simp
  then show "sorted_wrt (\<lambda>a b. k b \<le> k a) (order_desc k xs)"
    by (simp add: order_desc_def sorted_wrt_rev sorted_map)
qed

interpretation sorter: newest_first sorter_desc
proof unfold_locales
  fix k and xs :: "'a list"
  show "mset (sorter_desc k xs) = mset xs" by (simp add: sorter_desc_def)
  have "sorted (map (\<lambda>r. - k r) (sort_key (\<lambda>r. - k r) xs))" by (rule sorted_sort_key)
  then show "sorted_wrt (\<lambda>a b. k b \<le> k a) (sorter_desc k xs)"
    by (simp add: sorter_desc_def sorted_map)
qed

subsection \<open>Rows and the database\<close>

record login_event =
  le_ts :: timestamp
  le_event_type :: string
  le_username :: "string option"
  le_source_ip :: "string option"
  le_source_port :: "int option"
  le_key_type :: "string option"
  le_key_fingerprint :: "string option"
  le_key_label :: "string option"
  le_detail :: "string option"

record speedtest_row =
  st_ts :: timestamp
  st_success :: bool
  st_download_mbps :: "rat option"
  st_upload_mbps :: "rat option"
  st_ping_ms :: "rat option"
  st_server_name :: "string option"
  st_server_id :: "string option"
  st_error :: "string option"

record snapshot_row =
  rs_ts :: timestamp
  rs_cpu_percent :: rat
  rs_ram_percent :: rat
  rs_ram_used_bytes :: int
  rs_ram_total_bytes :: int
  rs_swap_percent :: rat
  rs_net_rx_bytes_per_sec :: rat
  rs_net_tx_bytes_per_sec :: rat
  rs_disk_json :: json
  rs_gpu_json :: json

record alert_row =
  ar_ts :: timestamp
  ar_alert_type :: string
  ar_detail :: string

record database =
  ingest_state :: "string \<rightharpoonup> string"
  login_events :: "login_event table"
  speedtest_results :: "speedtest_row table"
  resource_snapshots :: "snapshot_row table"
  alert_log :: "alert_row table"

definition new_database :: database where
  "new_database = \<lparr>ingest_state = Map.empty, login_events = empty_table,
     speedtest_results = empty_table, resource_snapshots = empty_table, alert_log = empty_table\<rparr>"

definition db_inv :: "database \<Rightarrow> bool" where
  "db_inv db \<longleftrightarrow> table_inv (login_events db) \<and> table_inv (speedtest_results db)
     \<and> table_inv (resource_snapshots db) \<and> table_inv (alert_log db)"

subsection \<open>Ingest state\<close>

definition get_state :: "string \<Rightarrow> database \<Rightarrow> string option" where
  "get_state key db = ingest_state db key"

definition set_state :: "string \<Rightarrow> string \<Rightarrow> database \<Rightarrow> database" where
  "set_state key v db = db\<lparr>ingest_state := (ingest_state db)(key \<mapsto> v)\<rparr>"

subsection \<open>Login events\<close>

definition insert_login_event :: "login_event \<Rightarrow> database \<Rightarrow> database result" where
  "insert_login_event e db = (case le_source_port e of
      Some p \<Rightarrow> if sql_int p then Inr (db\<lparr>login_events := insert_row e (login_events db)\<rparr>) else overflow
    | None \<Rightarrow> Inr (db\<lparr>login_events := insert_row e (login_events db)\<rparr>))"

definition recent_login_events :: "int \<Rightarrow> database \<Rightarrow> (int \<times> login_event) list result" where
  "recent_login_events limit db = (if sql_int limit
     then Inr (limit_rows limit (order_desc (le_ts \<circ> snd) (tb_rows (login_events db))))
     else overflow)"

definition is_failed_row :: "string \<Rightarrow> timestamp \<Rightarrow> login_event \<Rightarrow> bool" where
  "is_failed_row source_ip since_ts r \<longleftrightarrow> le_source_ip r = Some source_ip \<and> since_ts \<le> le_ts r
     \<and> le_event_type r \<in> {''failed_publickey'', ''invalid_user''}"

definition count_failed_logins_since :: "string \<Rightarrow> timestamp \<Rightarrow> database \<Rightarrow> nat" where
  "count_failed_logins_since source_ip since_ts db =
     length (select_rows (is_failed_row source_ip since_ts) (login_events db))"

definition latest_accepted_key :: "string \<Rightarrow> string \<Rightarrow> timestamp \<Rightarrow> database \<Rightarrow> login_event option" where
  "latest_accepted_key username source_ip before_ts db = fetchone (limit_rows 1 (order_desc le_ts
     (select_rows (\<lambda>r. le_username r = Some username \<and> le_source_ip r = Some source_ip
        \<and> le_event_type r = ''accepted_publickey'' \<and> le_ts r \<le> before_ts) (login_events db))))"

definition count_accepted_with_key_before :: "string \<Rightarrow> timestamp \<Rightarrow> database \<Rightarrow> nat" where
  "count_accepted_with_key_before fp before_ts db =
     length (select_rows (\<lambda>r. le_key_fingerprint r = Some fp
        \<and> le_event_type r = ''accepted_publickey'' \<and> le_ts r < before_ts) (login_events db))"

subsection \<open>Speed tests and resource snapshots\<close>

definition insert_speedtest_result :: "speedtest_row \<Rightarrow> database \<Rightarrow> database" where
  "insert_speedtest_result r db = db\<lparr>speedtest_results := insert_row r (speedtest_results db)\<rparr>"

definition recent_speedtest_results :: "int \<Rightarrow> database \<Rightarrow> (int \<times> speedtest_row) list result" where
  "recent_speedtest_results limit db = (if sql_int limit
     then Inr (limit_rows limit (order_desc (st_ts \<circ> snd) (tb_rows (speedtest_results db))))
     else overflow)"

definition insert_resource_snapshot :: "snapshot_row \<Rightarrow> database \<Rightarrow> database result" where
  "insert_resource_snapshot r db =
     (if sql_int (rs_ram_used_bytes r) \<and> sql_int (rs_ram_total_bytes r)
      then Inr (db\<lparr>resource_snapshots := insert_row r (resource_snapshots db)\<rparr>) else overflow)"

definition resource_snapshots_since :: "timestamp \<Rightarrow> database \<Rightarrow> (int \<times> snapshot_row) list" where
  "resource_snapshots_since since_ts db =
     sort_key (rs_ts \<circ> snd) (filter (\<lambda>(i, r). since_ts \<le> rs_ts r) (tb_rows (resource_snapshots db)))"

subsection \<open>Alerts and retention\<close>

definition last_alert_ts :: "string \<Rightarrow> database \<Rightarrow> timestamp option" where
  "last_alert_ts alert_type db = fetchone (limit_rows 1 (map ar_ts (order_desc ar_ts
     (select_rows (\<lambda>r. ar_alert_type r = alert_type) (alert_log db)))))"

definition insert_alert :: "timestamp \<Rightarrow> string \<Rightarrow> string \<Rightarrow> database \<Rightarrow> database" where
  "insert_alert ts alert_type detail db = db\<lparr>alert_log := insert_row
     \<lparr>ar_ts = ts, ar_alert_type = alert_type, ar_detail = detail\<rparr> (alert_log db)\<rparr>"

definition recent_alerts :: "int \<Rightarrow> database \<Rightarrow> (int \<times> alert_row) list result" where
  "recent_alerts limit db = (if sql_int limit
     then Inr (limit_rows limit (sorter_desc (ar_ts \<circ> snd) (tb_rows (alert_log db))))
     else overflow)"

definition cleanup_retention :: "timestamp \<Rightarrow> int \<Rightarrow> int \<Rightarrow> database \<Rightarrow> database" where
  "cleanup_retention now login_event_days resource_snapshot_days db = db\<lparr>
     login_events := delete_rows (\<lambda>r. le_ts r < now - of_int (login_event_days * 86400)) (login_events db),
     resource_snapshots := delete_rows
       (\<lambda>r. rs_ts r < now - of_int (resource_snapshot_days * 86400)) (resource_snapshots db)\<rparr>"

end
