(* ===== verification/Db_Facts.thy ===== *)
theory Db_Facts
  imports Db
begin

section \<open>What the store promises\<close>

text \<open>
  The laws of the database that the rest of the daemon relies on: the key/value contract of
  \<open>ingest_state\<close> (a locale, interpreted on \<open>get_state\<close> and \<open>set_state\<close>), what the newest-first
  queries return, what the counters count, how retention interacts with them, and the invariant
  of the tables over every sequence of statements.
\<close>

subsection \<open>The key/value contract\<close>

locale kv_store =
  fixes get :: "string \<Rightarrow> 's \<Rightarrow> string option" and set1 :: "string \<Rightarrow> string \<Rightarrow> 's \<Rightarrow> 's"
  assumes get_same: "get k (set1 k v s) = Some v"
    and get_other: "k \<noteq> k' \<Longrightarrow> get k (set1 k' v s) = get k s"
begin

definition write_all :: "(string \<times> string) list \<Rightarrow> 's \<Rightarrow> 's" where
  "write_all ws s = foldl (\<lambda>s (k, v). set1 k v s) s ws"

lemma write_all_snoc: "write_all (ws @ [(k, v)]) s = set1 k v (write_all ws s)"
  by (simp add: write_all_def)

lemma get_write_all:
  "get k (write_all ws s) = (case map_of (rev ws) k of Some v \<Rightarrow> Some v | None \<Rightarrow> get k s)"
proof (induction ws rule: rev_induct)
  case Nil
  then show ?case by (simp add: write_all_def)
next
  case (snoc w ws)
  then show ?case by (cases w) (auto simp: write_all_snoc get_same get_other)
qed

lemma set_commute: "k \<noteq> k' \<Longrightarrow> get j (set1 k v (set1 k' v' s)) = get j (set1 k' v' (set1 k v s))"
  by (cases "j = k"; cases "j = k'") (simp_all add: get_same get_other)

lemma get_set: "get k (set1 k' v s) = (if k = k' then Some v else get k s)"
  by (simp add: get_same get_other)

end

interpretation ingest: kv_store get_state set_state
  by unfold_locales (simp_all add: get_state_def set_state_def)

lemma set_state_frame [table_simps]:
  "login_events (set_state k v db) = login_events db"
  "speedtest_results (set_state k v db) = speedtest_results db"
  "resource_snapshots (set_state k v db) = resource_snapshots db"
  "alert_log (set_state k v db) = alert_log db"
  by (simp_all add: set_state_def)

lemma insert_login_event_Inr:
  "insert_login_event e db = Inr db' \<longleftrightarrow>
     (\<forall>p. le_source_port e = Some p \<longrightarrow> sql_int p) \<and>
     db' = db\<lparr>login_events := insert_row e (login_events db)\<rparr>"
  by (auto simp: insert_login_event_def overflow_def split: option.splits)

lemma insert_login_event_state [table_simps]:
  "insert_login_event e db = Inr db' \<Longrightarrow> get_state k db' = get_state k db"
  by (auto simp: insert_login_event_Inr get_state_def)

lemma insert_alert_frame [table_simps]:
  "login_events (insert_alert t k d db) = login_events db"
  "get_state key (insert_alert t k d db) = get_state key db"
  "count_failed_logins_since ip since (insert_alert t k d db) = count_failed_logins_since ip since db"
  "count_accepted_with_key_before fp ts (insert_alert t k d db) = count_accepted_with_key_before fp ts db"
  by (simp_all add: insert_alert_def get_state_def count_failed_logins_since_def
        count_accepted_with_key_before_def)

subsection \<open>The last alert\<close>

lemma fetchone_limit: "fetchone (limit_rows 1 xs) = fetchone xs"
  by (cases xs) (simp_all add: limit_rows_def)

lemma fetchone_map: "fetchone (map f xs) = map_option f (fetchone xs)"
  by (cases xs) simp_all

lemma last_alert_ts_fetch: "last_alert_ts k db = map_option ar_ts
   (fetchone (order_desc ar_ts (select_rows (\<lambda>r. ar_alert_type r = k) (alert_log db))))"
  by (simp only: last_alert_ts_def fetchone_limit fetchone_map)

lemma last_alert_ts_None:
  "last_alert_ts k db = None \<longleftrightarrow> select_rows (\<lambda>r. ar_alert_type r = k) (alert_log db) = []"
  by (simp add: last_alert_ts_fetch indexed.fetchone_None)

lemma last_alert_ts_Max:
  assumes "select_rows (\<lambda>r. ar_alert_type r = k) (alert_log db) \<noteq> []"
  shows "last_alert_ts k db = Some (Max (ar_ts ` set (select_rows (\<lambda>r. ar_alert_type r = k) (alert_log db))))"
proof -
  let ?xs = "select_rows (\<lambda>r. ar_alert_type r = k) (alert_log db)"
  obtain r where r: "fetchone (order_desc ar_ts ?xs) = Some r"
    using assms indexed.fetchone_None [of ar_ts ?xs] by auto
  from indexed.fetchone_newest [OF r] have "r \<in> set ?xs" "\<forall>x\<in>set ?xs. ar_ts x \<le> ar_ts r" by auto
  then have "Max (ar_ts ` set ?xs) = ar_ts r" by (intro Max_eqI) auto
  then show ?thesis using r by (simp add: last_alert_ts_fetch)
qed

lemma last_alert_insert_same:
  "last_alert_ts k (insert_alert t k d db) =
     Some (case last_alert_ts k db of None \<Rightarrow> t | Some l \<Rightarrow> max t l)"
proof -
  let ?xs = "select_rows (\<lambda>r. ar_alert_type r = k) (alert_log db)"
  have ins: "select_rows (\<lambda>r. ar_alert_type r = k) (alert_log (insert_alert t k d db))
      = ?xs @ [\<lparr>ar_ts = t, ar_alert_type = k, ar_detail = d\<rparr>]"
    by (simp add: insert_alert_def select_insert)
  show ?thesis
  proof (cases "?xs = []")
    case True
    then show ?thesis using last_alert_ts_Max [of k "insert_alert t k d db"] last_alert_ts_None [of k db]
      by (simp add: ins)
  next
    case False
    then show ?thesis using last_alert_ts_Max [of k "insert_alert t k d db"] last_alert_ts_Max [of k db]
      by (simp add: ins Max_insert)
  qed
qed

lemma last_alert_insert_other:
  "k \<noteq> k' \<Longrightarrow> last_alert_ts k (insert_alert t k' d db) = last_alert_ts k db"
  by (simp add: last_alert_ts_fetch insert_alert_def select_insert)

subsection \<open>Statements and the invariant\<close>

inductive db_step :: "database \<Rightarrow> database \<Rightarrow> bool" where
  set_state: "db_step db (set_state k v db)"
| login: "insert_login_event e db = Inr db' \<Longrightarrow> db_step db db'"
| speedtest: "db_step db (insert_speedtest_result r db)"
| snapshot: "insert_resource_snapshot s db = Inr db' \<Longrightarrow> db_step db db'"
| alert: "db_step db (insert_alert t k d db)"
| cleanup: "db_step db (cleanup_retention now ld sd db)"

lemma insert_resource_snapshot_Inr:
  "insert_resource_snapshot r db = Inr db' \<longleftrightarrow> sql_int (rs_ram_used_bytes r) \<and> sql_int (rs_ram_total_bytes r)
     \<and> db' = db\<lparr>resource_snapshots := insert_row r (resource_snapshots db)\<rparr>"
  by (auto simp: insert_resource_snapshot_def overflow_def)

lemma db_inv_new: "db_inv new_database"
  by (simp add: db_inv_def new_database_def table_inv_empty)

lemma db_inv_step: "db_step db db' \<Longrightarrow> db_inv db \<Longrightarrow> db_inv db'"
  by (induction rule: db_step.induct)
    (auto simp: db_inv_def set_state_def insert_login_event_Inr insert_speedtest_result_def
      insert_resource_snapshot_Inr insert_alert_def cleanup_retention_def
      intro: table_inv_insert table_inv_delete)

lemma db_inv_steps: "db_step\<^sup>*\<^sup>* db db' \<Longrightarrow> db_inv db \<Longrightarrow> db_inv db'"
  by (induction rule: rtranclp_induct) (auto intro: db_inv_step)

definition ids_extend :: "'a table \<Rightarrow> 'a table \<Rightarrow> bool" where
  \<comment> \<open>a row of the later table is a row of the earlier one or has an id above all given out before\<close>
  "ids_extend t t' \<longleftrightarrow> tb_seq t \<le> tb_seq t' \<and>
     (\<forall>(i, r)\<in>set (tb_rows t'). (i, r) \<in> set (tb_rows t) \<or> tb_seq t < i)"

lemma ids_extend_refl: "ids_extend t t" by (auto simp: ids_extend_def)

lemma ids_extend_trans: "ids_extend t u \<Longrightarrow> ids_extend u v \<Longrightarrow> ids_extend t v"
  by (fastforce simp: ids_extend_def)

lemma ids_extend_insert: "ids_extend t (insert_row r t)"
  by (auto simp: ids_extend_def insert_row_def)

lemma ids_extend_delete: "ids_extend t (delete_rows p t)"
  by (auto simp: ids_extend_def delete_rows_def)

lemmas ids_extend_intros = ids_extend_refl ids_extend_insert ids_extend_delete

lemma ids_extend_step:
  "db_step db db' \<Longrightarrow> ids_extend (login_events db) (login_events db')
    \<and> ids_extend (alert_log db) (alert_log db')"
  by (induction rule: db_step.induct)
    (auto simp: set_state_def insert_login_event_Inr insert_speedtest_result_def
      insert_resource_snapshot_Inr insert_alert_def cleanup_retention_def intro: ids_extend_intros)

lemma ids_extend_steps:
  "db_step\<^sup>*\<^sup>* db db' \<Longrightarrow> ids_extend (login_events db) (login_events db')
    \<and> ids_extend (alert_log db) (alert_log db')"
proof (induction rule: rtranclp_induct)
  case base
  show ?case by (simp add: ids_extend_refl)
next
  case (step y z)
  with ids_extend_step [OF step.hyps(2)] show ?case by (meson ids_extend_trans)
qed

lemma alert_log_append_only:
  "db_step db db' \<Longrightarrow> set (tb_rows (alert_log db)) \<subseteq> set (tb_rows (alert_log db'))"
  by (induction rule: db_step.induct)
    (auto simp: set_state_def insert_login_event_Inr insert_speedtest_result_def
      insert_resource_snapshot_Inr insert_alert_def cleanup_retention_def insert_row_def)

lemma alert_log_kept:
  "db_step\<^sup>*\<^sup>* db db' \<Longrightarrow> set (tb_rows (alert_log db)) \<subseteq> set (tb_rows (alert_log db'))"
  by (induction rule: rtranclp_induct) (use alert_log_append_only in blast)+

end
