(* ===== verification/Metrics.thy ===== *)
theory Metrics
  imports Db_Facts
begin

section \<open>metrics_collector.py: polling the system\<close>

text \<open>
  \<open>daemon/src/omnia_daemon/metrics_collector.py\<close>. What \<open>psutil\<close> and the clocks answer during one
  poll is the record \<open>psutil_poll\<close>, a parameter; a process handle is an opaque value of type
  \<open>'h\<close>, and \<open>None\<close> is its \<open>NoSuchProcess\<close> or \<open>AccessDenied\<close>. The collector's own state is the
  record \<open>collector\<close>: the last network counters with their time and the cache of process
  handles.
\<close>

subsection \<open>Sessions\<close>

record utmp_user =
  uu_name :: string
  uu_host :: "string option"
  uu_terminal :: "string option"
  uu_started :: timestamp

record ssh_session =
  ss_username :: string
  ss_source_ip :: string
  ss_terminal :: "string option"
  ss_started_ts :: timestamp
  ss_duration_seconds :: rat
  ss_key_type :: "string option"
  ss_key_fingerprint :: "string option"
  ss_key_label :: "string option"

definition session_of :: "database \<Rightarrow> timestamp \<Rightarrow> utmp_user \<Rightarrow> string \<Rightarrow> ssh_session" where
  "session_of db now u host = (let row = latest_accepted_key (uu_name u) host (uu_started u + 5) db in
     \<lparr>ss_username = uu_name u, ss_source_ip = host, ss_terminal = uu_terminal u,
      ss_started_ts = uu_started u, ss_duration_seconds = now - uu_started u,
      ss_key_type = Option.bind row le_key_type, ss_key_fingerprint = Option.bind row le_key_fingerprint,
      ss_key_label = Option.bind row le_key_label\<rparr>)"

definition active_ssh_sessions :: "utmp_user list \<Rightarrow> timestamp \<Rightarrow> database \<Rightarrow> ssh_session list" where
  "active_ssh_sessions users now db = concat (map (\<lambda>u. case uu_host u of
       Some h \<Rightarrow> if h = [] then [] else [session_of db now u h] | None \<Rightarrow> []) users)"

subsection \<open>One poll of psutil\<close>

record net_counters =
  bytes_recv :: int
  bytes_sent :: int

record partition_info =
  pt_mountpoint :: string
  pt_device :: string
  pt_fstype :: string

record usage_info =
  us_total :: int
  us_used :: int
  us_percent :: rat

record disk_info =
  dk_mountpoint :: string
  dk_device :: string
  dk_fstype :: string
  dk_total_bytes :: int
  dk_used_bytes :: int
  dk_percent :: rat

record process_info =
  pi_pid :: int
  pi_name :: string
  pi_cpu_percent :: rat
  pi_mem_percent :: rat

record 'h psutil_poll =
  pp_monotonic :: rat
  pp_time :: timestamp
  pp_uptime_time :: timestamp
  pp_boot_time :: timestamp
  pp_vm :: usage_info
  pp_swap_percent :: rat
  pp_net :: net_counters
  pp_cpu_percent :: rat
  pp_cpu_per_core :: "rat list"
  pp_partitions :: "partition_info list"
  pp_usage :: "string \<Rightarrow> usage_info result"
  pp_processes :: "(int \<times> 'h) list"
  pp_prime :: "'h \<Rightarrow> bool"
  pp_sample :: "'h \<Rightarrow> (rat \<times> rat \<times> string) option"
  pp_temps :: "(string \<times> (string \<times> rat) list) list result option"

record 'h collector =
  last_net :: net_counters
  last_net_ts :: rat
  process_cache :: "int \<rightharpoonup> 'h"

record metrics_snapshot =
  sn_ts :: timestamp
  sn_cpu_percent :: rat
  sn_cpu_per_core :: "rat list"
  sn_ram_percent :: rat
  sn_ram_used_bytes :: int
  sn_ram_total_bytes :: int
  sn_swap_percent :: rat
  sn_net_rx :: rat
  sn_net_tx :: rat
  sn_disks :: "disk_info list"
  sn_top_processes :: "process_info list"
  sn_uptime_seconds :: rat
  sn_temperatures :: "(string \<times> (string \<times> rat) list) list"

subsection \<open>Processes\<close>

definition prime_processes :: "'h psutil_poll \<Rightarrow> (int \<rightharpoonup> 'h) \<Rightarrow> (int \<rightharpoonup> 'h)" where
  "prime_processes pp cache =
     foldl (\<lambda>c (pid, h). if pp_prime pp h then c(pid \<mapsto> h) else c) cache (pp_processes pp)"

fun scan_processes ::
  "'h psutil_poll \<Rightarrow> (int \<times> 'h) list \<Rightarrow> (int \<rightharpoonup> 'h) \<Rightarrow> (int \<rightharpoonup> 'h) \<times> process_info list" where
  "scan_processes pp [] cache = (cache, [])"
| "scan_processes pp ((pid, h) # ps) cache = (case cache pid of
      None \<Rightarrow> (if pp_prime pp h then scan_processes pp ps (cache(pid \<mapsto> h))
               else scan_processes pp ps cache)
    | Some cached \<Rightarrow> (case pp_sample pp cached of
        None \<Rightarrow> scan_processes pp ps (cache(pid := None))
      | Some (cpu, mem, name) \<Rightarrow> (case scan_processes pp ps cache of (cache', rs) \<Rightarrow>
          (cache', \<lparr>pi_pid = pid, pi_name = name, pi_cpu_percent = cpu, pi_mem_percent = mem\<rparr> # rs))))"

definition top_processes ::
  "nat \<Rightarrow> 'h psutil_poll \<Rightarrow> (int \<rightharpoonup> 'h) \<Rightarrow> (int \<rightharpoonup> 'h) \<times> process_info list" where
  "top_processes limit pp cache = (case scan_processes pp (pp_processes pp) cache of (cache', rs) \<Rightarrow>
     (cache' |` (fst ` set (pp_processes pp)), take limit (sort_key (\<lambda>r. - pi_cpu_percent r) rs)))"

subsection \<open>Disks, temperatures, the snapshot\<close>

definition IGNORED_FSTYPES :: "string set" where
  "IGNORED_FSTYPES = {''tmpfs'', ''devtmpfs'', ''overlay'', ''squashfs'', ''proc'', ''sysfs'',
     ''cgroup'', ''cgroup2''}"

fun disks_of :: "(string \<Rightarrow> usage_info result) \<Rightarrow> partition_info list \<Rightarrow> disk_info list result" where
  "disks_of usage [] = Inr []"
| "disks_of usage (p # ps) = (if pt_fstype p \<in> IGNORED_FSTYPES then disks_of usage ps
     else (case usage (pt_mountpoint p) of
       Inl e \<Rightarrow> if is_os_error e then disks_of usage ps else Inl e
     | Inr u \<Rightarrow> (case disks_of usage ps of Inl e \<Rightarrow> Inl e
         | Inr ds \<Rightarrow> Inr (\<lparr>dk_mountpoint = pt_mountpoint p, dk_device = pt_device p,
             dk_fstype = pt_fstype p, dk_total_bytes = us_total u, dk_used_bytes = us_used u,
             dk_percent = us_percent u\<rparr> # ds))))"

definition temperatures_of ::
  "(string \<times> (string \<times> rat) list) list result option \<Rightarrow> (string \<times> (string \<times> rat) list) list result" where
  "temperatures_of temps = (case temps of
      None \<Rightarrow> Inr []
    | Some (Inl e) \<Rightarrow> if is_os_error e then Inr [] else Inl e
    | Some (Inr sensors) \<Rightarrow>
        Inr (map (\<lambda>(name, es). (name, map (\<lambda>(l, c). (if l \<noteq> [] then l else name, c)) es)) sensors))"

definition net_rate :: "rat \<Rightarrow> int \<Rightarrow> int \<Rightarrow> rat" where
  "net_rate elapsed current previous = max (of_int (current - previous) / elapsed) 0"

definition snapshot :: "'h psutil_poll \<Rightarrow> 'h collector \<Rightarrow> 'h collector \<times> metrics_snapshot result" where
  "snapshot pp st = (let
       elapsed = max (pp_monotonic pp - last_net_ts st) (1 / 1000000);
       rx = net_rate elapsed (bytes_recv (pp_net pp)) (bytes_recv (last_net st));
       tx = net_rate elapsed (bytes_sent (pp_net pp)) (bytes_sent (last_net st));
       st1 = st\<lparr>last_net := pp_net pp, last_net_ts := pp_monotonic pp\<rparr>
     in case disks_of (pp_usage pp) (pp_partitions pp) of
          Inl e \<Rightarrow> (st1, Inl e)
        | Inr ds \<Rightarrow> (case top_processes 8 pp (process_cache st1) of (cache, tops) \<Rightarrow>
            (let st2 = st1\<lparr>process_cache := cache\<rparr> in
             case temperatures_of (pp_temps pp) of
               Inl e \<Rightarrow> (st2, Inl e)
             | Inr ts \<Rightarrow> (st2, Inr \<lparr>sn_ts = pp_time pp, sn_cpu_percent = pp_cpu_percent pp,
                 sn_cpu_per_core = pp_cpu_per_core pp, sn_ram_percent = us_percent (pp_vm pp),
                 sn_ram_used_bytes = us_used (pp_vm pp), sn_ram_total_bytes = us_total (pp_vm pp),
                 sn_swap_percent = pp_swap_percent pp, sn_net_rx = rx, sn_net_tx = tx,
                 sn_disks = ds, sn_top_processes = tops,
                 sn_uptime_seconds = pp_uptime_time pp - pp_boot_time pp, sn_temperatures = ts\<rparr>))))"

definition new_collector :: "'h psutil_poll \<Rightarrow> 'h collector" where
  "new_collector pp = \<lparr>last_net = pp_net pp, last_net_ts = pp_monotonic pp,
     process_cache = prime_processes pp Map.empty\<rparr>"

subsection \<open>Facts\<close>

lemma scan_frame: "pid \<notin> fst ` set ps \<Longrightarrow> fst (scan_processes pp ps cache) pid = cache pid"
  by (induction ps arbitrary: cache)
    (auto split: option.splits prod.splits simp: fun_upd_def, (metis fst_conv)+)

lemma scan_reported:
  assumes "distinct (map fst ps)" "r \<in> set (snd (scan_processes pp ps cache))"
  shows "\<exists>h cpu mem name. cache (pi_pid r) = Some h \<and> pi_pid r \<in> fst ` set ps
    \<and> pp_sample pp h = Some (cpu, mem, name)
    \<and> r = \<lparr>pi_pid = pi_pid r, pi_name = name, pi_cpu_percent = cpu, pi_mem_percent = mem\<rparr>"
  using assms
proof (induction ps arbitrary: cache)
  case (Cons p ps)
  obtain pid h where p: "p = (pid, h)" by (cases p)
  have d: "distinct (map fst ps)" "pid \<notin> fst ` set ps" using Cons.prems(1) p by auto
  note IH = Cons.IH [OF d(1)]
  show ?case
  proof (cases "cache pid")
    case None
    then have "r \<in> set (snd (scan_processes pp ps (if pp_prime pp h then cache(pid \<mapsto> h) else cache)))"
      using Cons.prems(2) p by (simp split: if_splits)
    from IH [OF this] d(2) p show ?thesis by (auto split: if_splits)
  next
    case (Some c)
    show ?thesis
    proof (cases "pp_sample pp c")
      case None
      then have "r \<in> set (snd (scan_processes pp ps (cache(pid := None))))"
        using Cons.prems(2) p Some by simp
      from IH [OF this] p show ?thesis by (auto split: if_splits)
    next
      case s: (Some x)
      obtain cpu mem name where x: "x = (cpu, mem, name)" by (cases x)
      let ?r = "\<lparr>pi_pid = pid, pi_name = name, pi_cpu_percent = cpu, pi_mem_percent = mem\<rparr>"
      have "r = ?r \<or> r \<in> set (snd (scan_processes pp ps cache))"
        using Cons.prems(2) p Some s x by (auto split: prod.splits)
      then show ?thesis
      proof
        assume "r = ?r"
        then show ?thesis using p Some s x by auto
      next
        assume "r \<in> set (snd (scan_processes pp ps cache))"
        from IH [OF this] p show ?thesis by auto
      qed
    qed
  qed
qed simp

lemma net_rate_nonneg: "0 \<le> net_rate e a b"
  by (simp add: net_rate_def)

lemma net_rate_exact: "0 < e \<Longrightarrow> b \<le> a \<Longrightarrow> net_rate e a b * e = of_int (a - b)"
  by (simp add: net_rate_def max_def field_simps)

lemma disks_of_sound:
  "disks_of usage ps = Inr ds \<Longrightarrow> d \<in> set ds \<Longrightarrow>
     dk_fstype d \<notin> IGNORED_FSTYPES \<and> (\<exists>p u. p \<in> set ps \<and> pt_mountpoint p = dk_mountpoint d
       \<and> usage (pt_mountpoint p) = Inr u \<and> us_percent u = dk_percent d)"
  by (induction ps arbitrary: ds) (auto split: if_splits sum.splits, (metis+)?)

lemma disks_of_total:
  "(\<forall>p\<in>set ps. \<forall>e. usage (pt_mountpoint p) = Inl e \<longrightarrow> is_os_error e) \<Longrightarrow>
     \<exists>ds. disks_of usage ps = Inr ds \<and> map dk_mountpoint ds = map pt_mountpoint
       (filter (\<lambda>p. pt_fstype p \<notin> IGNORED_FSTYPES \<and> (\<exists>u. usage (pt_mountpoint p) = Inr u)) ps)"
  by (induction ps) (auto split: sum.splits)

lemma session_of_fields [simp]:
  "ss_source_ip (session_of db now u h) = h" "ss_username (session_of db now u h) = uu_name u"
  by (simp_all add: session_of_def Let_def)

end
