(* ===== verification/Alerts.thy ===== *)
theory Alerts
  imports Config Metrics Py_Numbers
begin

section \<open>alerts.py: alert rules and email delivery\<close>

text \<open>
  \<open>daemon/src/omnia_daemon/alerts.py\<close>. The manager's effects are on the record \<open>world\<close>: the
  database, the number of readings of \<open>time.time()\<close> made so far (\<open>ae_clock\<close> gives the reading of
  each) and the SMTP conversations held. A conversation is the sequence of commands given to
  \<open>smtplib\<close>; \<open>ae_smtp\<close> says which of them the server or the network fails. A method returns the
  world it leaves behind, also when it raises.
\<close>

subsection \<open>Email\<close>

record email =
  em_subject :: string
  em_from :: string
  em_to :: string
  em_body :: string

datatype smtp_action = Connect string int | StartTls | Login string string | SendMessage email | Quit

fun run_actions ::
  "(smtp_action \<Rightarrow> exn option) \<Rightarrow> smtp_action list \<Rightarrow> smtp_action list \<times> exn option" where
  "run_actions srv [] = ([], None)"
| "run_actions srv (a # as) = (case srv a of
      Some e \<Rightarrow> ([a], Some e)
    | None \<Rightarrow> (case run_actions srv as of (tr, r) \<Rightarrow> (a # tr, r)))"

definition smtp_session ::
  "(smtp_action \<Rightarrow> exn option) \<Rightarrow> string \<Rightarrow> int \<Rightarrow> smtp_action list \<Rightarrow> smtp_action list \<times> exn option" where
  \<comment> \<open>\<open>with smtplib.SMTP(host, port) as server\<close>: leaving the block sends QUIT, also after an error\<close>
  "smtp_session srv host port body = (case srv (Connect host port) of
      Some e \<Rightarrow> ([Connect host port], Some e)
    | None \<Rightarrow> (case run_actions srv body of (tr, r) \<Rightarrow>
        (Connect host port # tr @ [Quit], case srv Quit of Some e \<Rightarrow> Some e | None \<Rightarrow> r)))"

fun is_smtp_error :: "exn \<Rightarrow> bool" where
  "is_smtp_error (SMTPException _) = True"
| "is_smtp_error e = is_os_error e"

definition bad_header :: "string \<Rightarrow> bool" where
  \<comment> \<open>the header values \<open>EmailMessage\<close> refuses\<close>
  "bad_header v = (1 < length (splitlines v))"

definition smtp_body :: "smtp_config \<Rightarrow> email \<Rightarrow> smtp_action list" where
  "smtp_body cfg msg = (if sc_use_tls cfg then [StartTls] else [])
     @ (if sc_username cfg \<noteq> [] then [Login (sc_username cfg) (sc_password cfg)] else [])
     @ [SendMessage msg]"

definition send_email ::
  "(smtp_action \<Rightarrow> exn option) \<Rightarrow> smtp_config \<Rightarrow> string \<Rightarrow> string \<Rightarrow> smtp_action list \<times> unit result" where
  "send_email srv cfg subject body = (if \<not> sc_enabled cfg then ([], Inr ())
     else let msg = \<lparr>em_subject = subject, em_from = sc_from_addr cfg,
                     em_to = join '', '' (sc_to_addrs cfg), em_body = body\<rparr>
     in if bad_header (em_subject msg) \<or> bad_header (em_from msg) \<or> bad_header (em_to msg)
        then ([], Inl (ValueError ''Header values may not contain linefeed or carriage return characters''))
        else (case smtp_session srv (sc_host cfg) (sc_port cfg) (smtp_body cfg msg) of
            (tr, None) \<Rightarrow> (tr, Inr ())
          | (tr, Some e) \<Rightarrow> (tr, if is_smtp_error e then Inr () else Inl e)))"

subsection \<open>The manager\<close>

record alert_env =
  ae_clock :: "nat \<Rightarrow> timestamp"
  ae_smtp :: "smtp_action \<Rightarrow> exn option"
  ae_alerts :: alerts_config
  ae_smtp_cfg :: smtp_config

record world =
  w_db :: database
  w_ticks :: nat
  w_mail :: "smtp_action list list"

definition read_clock :: "alert_env \<Rightarrow> world \<Rightarrow> timestamp \<times> world" where
  "read_clock env w = (ae_clock env (w_ticks w), w\<lparr>w_ticks := Suc (w_ticks w)\<rparr>)"

definition cooldown_seconds :: "alert_env \<Rightarrow> rat" where
  "cooldown_seconds env = of_int (cooldown_minutes (ae_alerts env) * 60)"

definition should_fire :: "alert_env \<Rightarrow> string \<Rightarrow> world \<Rightarrow> bool \<times> world" where
  "should_fire env alert_key w = (case last_alert_ts alert_key (w_db w) of
      None \<Rightarrow> (True, w)
    | Some l \<Rightarrow> (case read_clock env w of (t, w') \<Rightarrow> (t - l \<ge> cooldown_seconds env, w')))"

definition fire :: "alert_env \<Rightarrow> string \<Rightarrow> string \<Rightarrow> string \<Rightarrow> world \<Rightarrow> world \<times> unit result" where
  "fire env alert_key subject body w = (case read_clock env w of (t, w1) \<Rightarrow>
     (let w2 = w1\<lparr>w_db := insert_alert t alert_key body (w_db w1)\<rparr> in
      case send_email (ae_smtp env) (ae_smtp_cfg env) subject body of
        (tr, r) \<Rightarrow> (w2\<lparr>w_mail := w_mail w2 @ (if tr = [] then [] else [tr])\<rparr>, r)))"

definition maybe_fire ::
  "alert_env \<Rightarrow> string \<Rightarrow> string \<Rightarrow> string \<Rightarrow> world \<Rightarrow> world \<times> unit result" where
  \<comment> \<open>\<open>if self._should_fire(key): self._fire(key, ...)\<close>, the tail of all three rules\<close>
  "maybe_fire env alert_key subject body w = (case should_fire env alert_key w of
      (True, w') \<Rightarrow> fire env alert_key subject body w'
    | (False, w') \<Rightarrow> (w', Inr ()))"

definition FAILED_EVENT_TYPES :: "string set" where
  "FAILED_EVENT_TYPES = {''failed_publickey'', ''invalid_user'', ''failed_other''}"

definition str_opt :: "string option \<Rightarrow> string" where
  \<comment> \<open>an optional string in an f-string\<close>
  "str_opt v = (case v of None \<Rightarrow> ''None'' | Some s \<Rightarrow> s)"

definition check_failed_login :: "alert_env \<Rightarrow> login_event \<Rightarrow> world \<Rightarrow> world \<times> unit result" where
  "check_failed_login env ev w = (case le_source_ip ev of
      None \<Rightarrow> (w, Inr ())
    | Some ip \<Rightarrow> if ip = [] then (w, Inr ()) else
       (let win = failed_login_window_minutes (ae_alerts env);
            count = count_failed_logins_since ip (le_ts ev - of_int (win * 60)) (w_db w)
        in if int count < failed_login_threshold (ae_alerts env) then (w, Inr ())
           else maybe_fire env (''failed_login:'' @ ip)
             (''[Omnia] '' @ str_nat count @ '' tentativas de login SSH falhas de '' @ ip)
             (str_nat count @ '' tentativas de login falhas do IP '' @ ip @ '' nos ultimos ''
               @ str_int win @ '' minutos.'') w))"

definition key_display :: "login_event \<Rightarrow> string \<Rightarrow> string" where
  "key_display ev fp = (case le_key_label ev of Some l \<Rightarrow> if l \<noteq> [] then l else fp | None \<Rightarrow> fp)"

definition check_new_key :: "alert_env \<Rightarrow> login_event \<Rightarrow> world \<Rightarrow> world \<times> unit result" where
  "check_new_key env ev w = (case le_key_fingerprint ev of
      None \<Rightarrow> (w, Inr ())
    | Some fp \<Rightarrow> if fp = [] then (w, Inr ())
       else if 0 < count_accepted_with_key_before fp (le_ts ev) (w_db w) then (w, Inr ())
       else (let lbl = key_display ev fp in maybe_fire env (''new_key:'' @ fp)
         (''[Omnia] Novo login SSH com chave nunca usada antes ('' @ lbl @ '')'')
         (''A chave '' @ [CHR 0x27] @ lbl @ [CHR 0x27] @ '' ('' @ str_opt (le_key_type ev) @ '', '' @ fp
           @ '') foi usada para logar como '' @ str_opt (le_username ev) @ '' a partir de ''
           @ str_opt (le_source_ip ev) @ '' pela primeira vez.'') w))"

definition on_ssh_event :: "alert_env \<Rightarrow> login_event \<Rightarrow> world \<Rightarrow> world \<times> unit result" where
  "on_ssh_event env ev w = (if \<not> ac_enabled (ae_alerts env) then (w, Inr ())
     else if le_event_type ev \<in> FAILED_EVENT_TYPES then check_failed_login env ev w
     else if le_event_type ev = ''accepted_publickey'' \<and> alert_on_new_key (ae_alerts env)
       then check_new_key env ev w
     else (w, Inr ()))"

fun check_disks :: "alert_env \<Rightarrow> disk_info list \<Rightarrow> world \<Rightarrow> world \<times> unit result" where
  "check_disks env [] w = (w, Inr ())"
| "check_disks env (d # ds) w =
     (if dk_percent d < of_int (disk_usage_percent_threshold (ae_alerts env)) then check_disks env ds w
      else (case maybe_fire env (''disk_usage:'' @ dk_mountpoint d)
          (''[Omnia] Disco '' @ dk_mountpoint d @ '' em '' @ fmt_fixed 0 (dk_percent d) @ ''% de uso'')
          (''O disco montado em '' @ dk_mountpoint d @ '' ('' @ dk_device d @ '') esta em ''
            @ fmt_fixed 1 (dk_percent d) @ ''% de uso.'') w of
        (w', Inl e) \<Rightarrow> (w', Inl e)
      | (w', Inr _) \<Rightarrow> check_disks env ds w'))"

definition on_metrics_snapshot :: "alert_env \<Rightarrow> disk_info list \<Rightarrow> world \<Rightarrow> world \<times> unit result" where
  "on_metrics_snapshot env disks w =
     (if \<not> ac_enabled (ae_alerts env) then (w, Inr ()) else check_disks env disks w)"

end
