(* ===== verification/Sha256.thy ===== *)
theory Sha256
  imports Py_Strings "HOL-Library.Word"
begin

section \<open>SHA-256 and base64\<close>

text \<open>
  \<open>hashlib.sha256\<close> and \<open>base64\<close> as \<open>key_fingerprint.py\<close> uses them: the digest of FIPS 180-4 on
  32-bit words, the encoder, and the decoder with \<open>validate=True\<close> (CPython's strict mode: no
  character outside the alphabet, no data after or between the padding, and the padding the last
  group asks for). Bytes are 8-bit words.
\<close>

unbundle bit_operations_syntax

type_synonym bytes = "8 word list"

subsection \<open>SHA-256\<close>

fun root_bits :: "nat \<Rightarrow> nat \<Rightarrow> nat \<Rightarrow> nat \<Rightarrow> nat" where
  \<comment> \<open>the \<open>k\<close>-th root of \<open>n\<close>, rounded down, bit by bit from bit \<open>b - 1\<close>\<close>
  "root_bits k n 0 r = r"
| "root_bits k n (Suc b) r = root_bits k n b (if (r + 2 ^ b) ^ k \<le> n then r + 2 ^ b else r)"

definition root_fraction :: "nat \<Rightarrow> nat \<Rightarrow> 32 word" where
  \<comment> \<open>the first 32 bits of the fraction of the \<open>k\<close>-th root of a small number\<close>
  "root_fraction k p = of_nat (root_bits k (p * 2 ^ (32 * k)) 40 0)"

definition is_prime :: "nat \<Rightarrow> bool" where
  "is_prime p \<longleftrightarrow> list_all (\<lambda>d. p mod d \<noteq> 0) [2..<p]"

definition K256 :: "32 word list" where
  "K256 = map (root_fraction 3) (filter is_prime [2..<312])"

definition H256 :: "32 word list" where
  "H256 = map (root_fraction 2) [2, 3, 5, 7, 11, 13, 17, 19]"

definition rotr :: "nat \<Rightarrow> 32 word \<Rightarrow> 32 word" where
  "rotr n x = drop_bit n x OR push_bit (32 - n) x"

definition word_be :: "bytes \<Rightarrow> 32 word" where
  "word_be bs = foldl (\<lambda>w b. push_bit 8 w OR ucast b) 0 bs"

definition bytes_be :: "nat \<Rightarrow> 'l::len word \<Rightarrow> bytes" where
  \<comment> \<open>the \<open>k\<close> low bytes, most significant first\<close>
  "bytes_be k w = map (\<lambda>i. ucast (drop_bit (8 * i) w)) (rev [0..<k])"

fun chunks :: "nat \<Rightarrow> nat \<Rightarrow> 'a list \<Rightarrow> 'a list list" where
  "chunks 0 k xs = []"
| "chunks (Suc n) k xs = take k xs # chunks n k (drop k xs)"

definition pad_message :: "bytes \<Rightarrow> bytes" where
  "pad_message bs = (let l = length bs in
     bs @ 0x80 # replicate ((119 - l mod 64) mod 64) 0 @ bytes_be 8 (of_nat (8 * l) :: 64 word))"

fun schedule :: "nat \<Rightarrow> 32 word list \<Rightarrow> 32 word list" where
  \<comment> \<open>the message schedule, extended by \<open>n\<close> words\<close>
  "schedule 0 w = w"
| "schedule (Suc n) w = (let t = length w; x = w ! (t - 15); y = w ! (t - 2);
       s0 = rotr 7 x XOR rotr 18 x XOR drop_bit 3 x;
       s1 = rotr 17 y XOR rotr 19 y XOR drop_bit 10 y
     in schedule n (w @ [w ! (t - 16) + s0 + w ! (t - 7) + s1]))"

type_synonym sha_state = "32 word \<times> 32 word \<times> 32 word \<times> 32 word \<times> 32 word \<times> 32 word \<times> 32 word \<times> 32 word"

definition sha_round :: "sha_state \<Rightarrow> 32 word \<times> 32 word \<Rightarrow> sha_state" where
  "sha_round st kw = (case st of (a, b, c, d, e, f, g, h) \<Rightarrow>
     (let s1 = rotr 6 e XOR rotr 11 e XOR rotr 25 e;
          ch = (e AND f) XOR (NOT e AND g);
          t1 = h + s1 + ch + fst kw + snd kw;
          s0 = rotr 2 a XOR rotr 13 a XOR rotr 22 a;
          maj = (a AND b) XOR (a AND c) XOR (b AND c)
      in (t1 + (s0 + maj), a, b, c, d + t1, e, f, g)))"

fun state_of :: "32 word list \<Rightarrow> sha_state" where
  "state_of [a, b, c, d, e, f, g, h] = (a, b, c, d, e, f, g, h)"
| "state_of _ = (0, 0, 0, 0, 0, 0, 0, 0)"

fun list_of_state :: "sha_state \<Rightarrow> 32 word list" where
  "list_of_state (a, b, c, d, e, f, g, h) = [a, b, c, d, e, f, g, h]"

definition compress :: "32 word list \<Rightarrow> bytes \<Rightarrow> 32 word list" where
  "compress hs block = map2 (+) hs (list_of_state
     (foldl sha_round (state_of hs) (zip K256 (schedule 48 (map word_be (chunks 16 4 block))))))"

definition sha256 :: "bytes \<Rightarrow> bytes" where
  "sha256 bs = (let m = pad_message bs in
     concat (map (\<lambda>w. bytes_be 4 w) (foldl compress H256 (chunks (length m div 64) 64 m))))"

lemma length_list_of_state [simp]: "length (list_of_state st) = 8"
  by (cases st rule: list_of_state.cases) simp

lemma length_compress: "length hs = 8 \<Longrightarrow> length (compress hs b) = 8"
  by (simp add: compress_def)

lemma length_sha256: "length (sha256 bs) = 32"
proof -
  have "length (foldl compress hs bs) = 8" if "length hs = 8" for hs and bs :: "bytes list"
    using that by (induction bs arbitrary: hs) (simp_all add: length_compress)
  then have "length (foldl compress H256 bs) = 8" for bs :: "bytes list" by (simp add: H256_def)
  moreover have "length (concat (map (\<lambda>w. bytes_be 4 w) ws)) = 4 * length ws" for ws :: "32 word list"
    by (induction ws) (simp_all add: bytes_be_def)
  ultimately show ?thesis by (simp add: sha256_def Let_def)
qed

lemma length_pad_message: "length (pad_message bs) mod 64 = 0"
proof -
  let ?l = "length bs" and ?k = "length bs mod 64"
  have "(119 - ?k) mod 64 = (if ?k \<le> 55 then 55 - ?k else 119 - ?k)"
  proof (cases "?k \<le> 55")
    case True
    then have "119 - ?k = (55 - ?k) + 64" by simp
    then show ?thesis using True by (simp only: mod_add_self2) simp
  next
    case False
    then show ?thesis by simp
  qed
  then have "(?k + 9 + (119 - ?k) mod 64) mod 64 = 0"
    using mod_less_divisor [of 64 ?l] by auto
  then have "(?l + 9 + (119 - ?k) mod 64) mod 64 = 0" by (metis mod_add_left_eq)
  then show ?thesis by (simp add: pad_message_def Let_def bytes_be_def ac_simps)
qed

subsection \<open>base64\<close>

definition b64_alphabet :: string where
  "b64_alphabet = ''ABCDEFGHIJKLMNOPQRSTUVWXYZabcdefghijklmnopqrstuvwxyz0123456789+/''"

definition b64_chr :: "nat \<Rightarrow> char" where
  "b64_chr n = b64_alphabet ! n"

definition b64_val :: "char \<Rightarrow> nat option" where
  "b64_val c = map_of (zip b64_alphabet [0..<64]) c"

fun b64_enc :: "nat list \<Rightarrow> string" where
  "b64_enc (a # b # c # r) = [b64_chr (a div 4), b64_chr (a mod 4 * 16 + b div 16),
     b64_chr (b mod 16 * 4 + c div 64), b64_chr (c mod 64)] @ b64_enc r"
| "b64_enc [a, b] = [b64_chr (a div 4), b64_chr (a mod 4 * 16 + b div 16), b64_chr (b mod 16 * 4)] @ ''=''"
| "b64_enc [a] = [b64_chr (a div 4), b64_chr (a mod 4 * 16)] @ ''==''"
| "b64_enc [] = []"

definition b64encode :: "bytes \<Rightarrow> string" where
  "b64encode bs = b64_enc (map unat bs)"

fun b64_dec :: "nat list \<Rightarrow> nat list" where
  \<comment> \<open>the bytes of a run of six-bit values; the spare bits of the last group are dropped\<close>
  "b64_dec (w # x # y # z # r) = [w * 4 + x div 16, x mod 16 * 16 + y div 4, y mod 4 * 64 + z] @ b64_dec r"
| "b64_dec [w, x, y] = [w * 4 + x div 16, x mod 16 * 16 + y div 4]"
| "b64_dec [w, x] = [w * 4 + x div 16]"
| "b64_dec _ = []"

definition b64_padding_ok :: "nat \<Rightarrow> string \<Rightarrow> bool" where
  "b64_padding_ok n pad = (if n mod 4 = 0 then list_all (\<lambda>c. c = CHR ''='') pad \<and> (n = 0 \<longrightarrow> pad = [])
     else if n mod 4 = 1 then False else pad = replicate (4 - n mod 4) CHR ''='')"

definition b64decode :: "string \<Rightarrow> bytes option" where
  \<comment> \<open>\<open>b64decode(s, validate=True)\<close>; \<open>None\<close> is \<open>binascii.Error\<close>\<close>
  "b64decode s = (let d = takeWhile (\<lambda>c. b64_val c \<noteq> None) s in
     if b64_padding_ok (length d) (drop (length d) s)
     then Some (map of_nat (b64_dec (map (\<lambda>c. the (b64_val c)) d))) else None)"

lemma b64_val_chr: "n < 64 \<Longrightarrow> b64_val (b64_chr n) = Some n"
proof -
  have d: "distinct b64_alphabet" and l: "length b64_alphabet = 64" by (simp_all add: b64_alphabet_def)
  assume "n < 64"
  then show ?thesis unfolding b64_val_def b64_chr_def
    using map_of_zip_nth [OF _ d, of "[0..<64]" n] l by simp
qed

lemma b64_val_pad: "b64_val CHR ''='' = None"
  by (simp add: b64_val_def b64_alphabet_def map_of_zip_is_None flip: not_None_eq)

text \<open>The encoder in two parts: the six-bit values and the padding.\<close>

fun sextets :: "nat list \<Rightarrow> nat list" where
  "sextets (a # b # c # r) = [a div 4, a mod 4 * 16 + b div 16, b mod 16 * 4 + c div 64, c mod 64] @ sextets r"
| "sextets [a, b] = [a div 4, a mod 4 * 16 + b div 16, b mod 16 * 4]"
| "sextets [a] = [a div 4, a mod 4 * 16]"
| "sextets [] = []"

definition pad_text :: "nat \<Rightarrow> string" where
  "pad_text n = replicate ((3 - n mod 3) mod 3) CHR ''=''"

lemma b64_enc_parts: "b64_enc ns = map b64_chr (sextets ns) @ pad_text (length ns)"
  by (induction ns rule: b64_enc.induct) (simp_all add: pad_text_def numeral_2_eq_2 mod_Suc)

lemma sextets_less: "\<forall>n\<in>set ns. n < 256 \<Longrightarrow> v \<in> set (sextets ns) \<Longrightarrow> v < 64"
proof (induction ns rule: sextets.induct)
  case (1 a b c r)
  have "a div 4 < 64" "b div 16 < 16" "c div 64 < 4" using "1.prems" by (auto simp: less_mult_imp_div_less)
  moreover have "a mod 4 < 4" "b mod 16 < 16" "c mod 64 < 64" by simp_all
  moreover have "v = a div 4 \<or> v = a mod 4 * 16 + b div 16 \<or> v = b mod 16 * 4 + c div 64 \<or> v = c mod 64
      \<or> v \<in> set (sextets r)"
    using "1.prems"(2) by simp
  moreover have "v \<in> set (sextets r) \<Longrightarrow> v < 64" using 1 by simp
  ultimately show ?case by linarith
next
  case (2 a b)
  have "a div 4 < 64" "b div 16 < 16" using "2.prems" by (auto simp: less_mult_imp_div_less)
  moreover have "a mod 4 < 4" "b mod 16 < 16" by simp_all
  moreover have "v = a div 4 \<or> v = a mod 4 * 16 + b div 16 \<or> v = b mod 16 * 4"
    using "2.prems"(2) by simp
  ultimately show ?case by linarith
next
  case (3 a)
  have "a div 4 < 64" "a mod 4 < 4" using "3.prems" by (auto simp: less_mult_imp_div_less)
  moreover have "v = a div 4 \<or> v = a mod 4 * 16" using "3.prems"(2) by simp
  ultimately show ?case by linarith
qed simp

lemma sextets_dec: "\<forall>n\<in>set ns. n < 256 \<Longrightarrow> b64_dec (sextets ns) = ns"
proof (induction ns rule: sextets.induct)
  case (1 a b c r)
  then have "b div 16 < 16" "c div 64 < 4" by (auto simp: less_mult_imp_div_less)
  with 1 show ?case by (simp add: mult.commute)
next
  case (2 a b)
  then have "b div 16 < 16" by (auto simp: less_mult_imp_div_less)
  with 2 show ?case by (simp add: mult.commute)
qed simp_all

lemma pad_text_ok: "b64_padding_ok (length (sextets ns)) (pad_text (length ns))"
proof (induction ns rule: sextets.induct)
  case (1 a b c r)
  have "(length r + 3) mod 3 = length r mod 3" by simp
  with 1 show ?case by (auto simp: b64_padding_ok_def pad_text_def split: if_splits)
qed (simp_all add: b64_padding_ok_def pad_text_def)

lemma takeWhile_b64:
  assumes "\<forall>v\<in>set vs. v < 64"
  shows "takeWhile (\<lambda>c. b64_val c \<noteq> None) (map b64_chr vs @ pad_text n) = map b64_chr vs"
proof (rule takeWhile_split)
  show "\<forall>c\<in>set (map b64_chr vs). b64_val c \<noteq> None" using assms b64_val_chr by auto
  show "pad_text n = [] \<or> \<not> b64_val (hd (pad_text n)) \<noteq> None"
    using b64_val_pad by (cases "(3 - n mod 3) mod 3") (simp_all add: pad_text_def)
qed

lemma b64_roundtrip: "b64decode (b64encode bs) = Some bs"
proof -
  let ?ns = "map unat bs"
  have less: "\<forall>n\<in>set ?ns. n < 256" using unsigned_less [where 'b = 8] by fastforce
  then have v: "\<forall>v\<in>set (sextets ?ns). v < 64" using sextets_less by blast
  have "map (\<lambda>c. the (b64_val c)) (map b64_chr (sextets ?ns)) = sextets ?ns"
    using v b64_val_chr by (auto intro: map_idI)
  then show ?thesis
    using takeWhile_b64 [OF v, of "length ?ns"] sextets_dec [OF less] pad_text_ok [of ?ns]
    by (simp add: b64decode_def b64encode_def b64_enc_parts Let_def comp_def)
qed

lemma b64_chr_no_pad: "v < 64 \<Longrightarrow> b64_chr v \<noteq> CHR ''=''"
  using b64_val_chr [of v] b64_val_pad by force

end
