(* ===== verification/Key_Fingerprint.thy ===== *)
theory Key_Fingerprint
  imports Sha256 "HOL-Library.AList"
begin

section \<open>key_fingerprint.py: authorized_keys and labels\<close>

text \<open>
  \<open>daemon/src/omnia_daemon/key_fingerprint.py\<close>. The file as \<open>stat\<close> and \<open>read_text\<close> see it is a
  \<open>file_view\<close>; \<open>KeyStore\<close> is the record of its modification time and of the dict from
  fingerprints to entries, and its methods thread it. The lemmas give the shape of a
  fingerprint, which lines of the file become entries, and that the cache answers what a store
  that reads the file on every call would answer.
\<close>

subsection \<open>The code\<close>

definition KNOWN_KEY_TYPES :: "string set" where
  "KNOWN_KEY_TYPES = {''ssh-rsa'', ''ssh-dss'', ''ssh-ed25519'', ''ecdsa-sha2-nistp256'',
     ''ecdsa-sha2-nistp384'', ''ecdsa-sha2-nistp521'', ''sk-ssh-ed25519@openssh.com'',
     ''sk-ecdsa-sha2-nistp256@openssh.com''}"

record key_entry =
  ke_type :: string
  ke_fingerprint :: string
  ke_comment :: string

definition sha256_fingerprint :: "string \<Rightarrow> string option" where
  "sha256_fingerprint key_b64 = (case b64decode key_b64 of None \<Rightarrow> None
     | Some raw \<Rightarrow> Some (''SHA256:'' @ rstrip_chars ''='' (b64encode (sha256 raw))))"

fun index_of :: "('a \<Rightarrow> bool) \<Rightarrow> 'a list \<Rightarrow> nat option" where
  \<comment> \<open>\<open>next((i for i, x in enumerate(xs) if p(x)), None)\<close>\<close>
  "index_of p [] = None"
| "index_of p (x # xs) = (if p x then Some 0 else map_option Suc (index_of p xs))"

definition parse_key_line :: "string \<Rightarrow> key_entry option" where
  "parse_key_line raw = (let line = strip raw in
     if line = [] \<or> startswith line ''#'' then None
     else let tokens = py_split line in
       case index_of (\<lambda>t. t \<in> KNOWN_KEY_TYPES) tokens of
         None \<Rightarrow> None
       | Some i \<Rightarrow> if length tokens \<le> i + 1 then None
           else (case sha256_fingerprint (tokens ! (i + 1)) of None \<Rightarrow> None
             | Some fp \<Rightarrow> Some \<lparr>ke_type = tokens ! i, ke_fingerprint = fp,
                 ke_comment = join '' '' (drop (i + 2) tokens)\<rparr>))"

definition parse_authorized_keys :: "string option \<Rightarrow> key_entry list" where
  \<comment> \<open>\<open>None\<close> is a file that is not there\<close>
  "parse_authorized_keys text = (case text of None \<Rightarrow> []
     | Some t \<Rightarrow> List.map_filter parse_key_line (splitlines t))"

definition short_id :: "string \<Rightarrow> string" where
  "short_id fp = take_last 12 (removeprefix fp ''SHA256:'')"

datatype file_view =
    NoFile
  | StatFails exn
  | File rat "string option result" \<comment> \<open>the modification time; the text, \<open>None\<close> if it vanished meanwhile\<close>

record key_store =
  ks_mtime :: "rat option"
  ks_by_fingerprint :: "(string \<times> key_entry) list"

definition new_key_store :: key_store where
  "new_key_store = \<lparr>ks_mtime = None, ks_by_fingerprint = []\<rparr>"

definition index_entries :: "key_entry list \<Rightarrow> (string \<times> key_entry) list" where
  \<comment> \<open>\<open>{entry.fingerprint: entry for entry in entries}\<close>\<close>
  "index_entries es = foldl (\<lambda>d e. AList.update (ke_fingerprint e) e d) [] es"

definition reload_if_needed :: "file_view \<Rightarrow> key_store \<Rightarrow> key_store \<times> unit result" where
  "reload_if_needed fv ks = (case fv of
      NoFile \<Rightarrow> (\<lparr>ks_mtime = None, ks_by_fingerprint = []\<rparr>, Inr ())
    | StatFails e \<Rightarrow> (ks, Inl e)
    | File mtime text \<Rightarrow> if ks_mtime ks = Some mtime then (ks, Inr ())
        else (case text of Inl e \<Rightarrow> (ks, Inl e)
          | Inr t \<Rightarrow> (\<lparr>ks_mtime = Some mtime, ks_by_fingerprint = index_entries (parse_authorized_keys t)\<rparr>,
              Inr ())))"

definition label_in :: "(string \<times> key_entry) list \<Rightarrow> string \<Rightarrow> string" where
  "label_in by fp = (case map_of by fp of
      Some e \<Rightarrow> if ke_comment e \<noteq> [] then ke_comment e else ''unlabeled-'' @ short_id fp
    | None \<Rightarrow> ''unknown-'' @ short_id fp)"

definition label_for_fingerprint :: "file_view \<Rightarrow> string \<Rightarrow> key_store \<Rightarrow> key_store \<times> string result" where
  "label_for_fingerprint fv fp ks = (case reload_if_needed fv ks of
      (ks', Inl e) \<Rightarrow> (ks', Inl e)
    | (ks', Inr _) \<Rightarrow> (ks', Inr (label_in (ks_by_fingerprint ks') fp)))"

definition all_keys :: "file_view \<Rightarrow> key_store \<Rightarrow> key_store \<times> key_entry list result" where
  "all_keys fv ks = (case reload_if_needed fv ks of
      (ks', Inl e) \<Rightarrow> (ks', Inl e)
    | (ks', Inr _) \<Rightarrow> (ks', Inr (map snd (ks_by_fingerprint ks'))))"

subsection \<open>Fingerprints\<close>

lemma fingerprint_shape:
  "\<exists>body. rstrip_chars ''='' (b64encode bs) = body \<and> b64encode bs = body @ pad_text (length bs)
     \<and> body = map b64_chr (sextets (map unat bs)) \<and> CHR ''='' \<notin> set body"
proof -
  let ?ns = "map unat bs"
  have less: "\<forall>n\<in>set ?ns. n < 256" using unsigned_less [where 'b = 8] by fastforce
  let ?b = "map b64_chr (sextets ?ns)"
  have np: "CHR ''='' \<notin> set ?b"
  proof
    assume "CHR ''='' \<in> set ?b"
    then obtain v where "v \<in> set (sextets ?ns)" "CHR ''='' = b64_chr v" by auto
    with sextets_less [OF less, of v] b64_chr_no_pad [of v] show False by simp
  qed
  have e: "b64encode bs = ?b @ pad_text (length bs)" by (simp add: b64encode_def b64_enc_parts)
  have "dropWhile (\<lambda>c. c \<in> set ''='') (rev (pad_text (length bs)) @ rev ?b) = rev ?b"
  proof (rule dropWhile_split)
    show "\<forall>c\<in>set (rev (pad_text (length bs))). c \<in> set ''=''" by (simp add: pad_text_def)
    have "x \<noteq> CHR ''=''" if "x \<in> set (rev ?b)" for x using that np by (metis set_rev)
    then show "rev ?b = [] \<or> hd (rev ?b) \<notin> set ''=''" using hd_in_set [of "rev ?b"] by fastforce
  qed
  then have "rstrip_chars ''='' (b64encode bs) = ?b" by (simp add: rstrip_chars_def e)
  with e np show ?thesis by blast
qed

lemma fingerprint_inj:
  assumes "rstrip_chars ''='' (b64encode a) = rstrip_chars ''='' (b64encode b)" "length a = length b"
  shows "a = b"
proof -
  have "b64encode a = b64encode b" using fingerprint_shape [of a] fingerprint_shape [of b] assms by auto
  then show ?thesis using b64_roundtrip by (metis option.inject)
qed

lemma length_sextets_3: "length ns = 3 * k + 2 \<Longrightarrow> length (sextets ns) = 4 * k + 3"
proof (induction ns arbitrary: k rule: sextets.induct)
  case (1 a b c r)
  then obtain j where "k = Suc j" by (cases k) auto
  with 1 show ?case by simp
next
  case (2 a b)
  then show ?case by simp
qed auto

lemma sha256_fingerprint_blob:
  "sha256_fingerprint (b64encode blob) = Some (''SHA256:'' @ rstrip_chars ''='' (b64encode (sha256 blob)))"
  by (simp add: sha256_fingerprint_def b64_roundtrip)

lemma sha256_fingerprint_length:
  "sha256_fingerprint s = Some fp \<Longrightarrow> length fp = 50"
proof -
  assume "sha256_fingerprint s = Some fp"
  then obtain raw where fp: "fp = ''SHA256:'' @ rstrip_chars ''='' (b64encode (sha256 raw))"
    by (auto simp: sha256_fingerprint_def split: option.splits)
  have "length (map unat (sha256 raw)) = 3 * 10 + 2" by (simp add: length_sha256)
  from length_sextets_3 [OF this] fingerprint_shape [of "sha256 raw"] fp show ?thesis by auto
qed

lemma b64_chr_plain: "v < 64 \<Longrightarrow> \<not> is_py_space (b64_chr v)"
proof -
  have "list_all (\<lambda>c. \<not> is_py_space c) b64_alphabet"
    by (simp add: b64_alphabet_def is_py_space_def)
  then show "v < 64 \<Longrightarrow> \<not> is_py_space (b64_chr v)"
    by (simp add: list_all_length b64_chr_def) (simp add: b64_alphabet_def)
qed

lemma b64encode_plain: "c \<in> set (b64encode bs) \<Longrightarrow> \<not> is_py_space c"
proof -
  have less: "\<forall>n\<in>set (map unat bs). n < 256" using unsigned_less [where 'b = 8] by fastforce
  assume "c \<in> set (b64encode bs)"
  then have "c \<in> b64_chr ` set (sextets (map unat bs)) \<or> c = CHR ''=''"
    by (auto simp: b64encode_def b64_enc_parts pad_text_def split: if_splits)
  then show ?thesis using sextets_less [OF less] b64_chr_plain by (auto simp: is_py_space_def)
qed

subsection \<open>Lines of the file\<close>

definition key_line :: "string list \<Rightarrow> string \<Rightarrow> bytes \<Rightarrow> string list \<Rightarrow> string" where
  \<comment> \<open>what a user writes: options, type, blob, the words of the comment\<close>
  "key_line opts ty blob comment = join '' '' (opts @ [ty, b64encode blob] @ comment)"

definition words_ok :: "string list \<Rightarrow> bool" where
  "words_ok ws \<longleftrightarrow> (\<forall>w\<in>set ws. w \<noteq> [] \<and> (\<forall>c\<in>set w. \<not> is_py_space c))"

lemma index_of_append:
  "(\<forall>x\<in>set xs. \<not> p x) \<Longrightarrow> p y \<Longrightarrow> index_of p (xs @ y # ys) = Some (length xs)"
  by (induction xs) auto

lemma known_types_ok: "ty \<in> KNOWN_KEY_TYPES \<Longrightarrow> ty \<noteq> [] \<and> (\<forall>c\<in>set ty. \<not> is_py_space c) \<and> \<not> startswith ty ''#''"
  by (auto simp: KNOWN_KEY_TYPES_def is_py_space_def startswith_def)

lemma join_words_ends:
  "words_ok ws \<Longrightarrow> ws \<noteq> [] \<Longrightarrow> join '' '' ws \<noteq> [] \<and> \<not> is_py_space (hd (join '' '' ws))
     \<and> \<not> is_py_space (last (join '' '' ws)) \<and> hd (join '' '' ws) = hd (hd ws)"
proof (induction "'' ''" ws rule: join.induct)
  case (3 w v ws)
  then have "join '' '' (v # ws) \<noteq> []" "\<not> is_py_space (last (join '' '' (v # ws)))"
    by (auto simp: words_ok_def)
  moreover have "w \<noteq> []" "\<not> is_py_space (hd w)" using "3.prems" by (auto simp: words_ok_def)
  ultimately show ?case by simp
qed (auto simp: words_ok_def)

lemma parse_key_line_print:
  assumes "words_ok opts" "\<forall>w\<in>set opts. w \<notin> KNOWN_KEY_TYPES" "words_ok comment"
    "ty \<in> KNOWN_KEY_TYPES" "blob \<noteq> []" "opts = [] \<or> hd (hd opts) \<noteq> CHR ''#''"
  shows "parse_key_line (key_line opts ty blob comment) = Some
     \<lparr>ke_type = ty, ke_fingerprint = ''SHA256:'' @ rstrip_chars ''='' (b64encode (sha256 blob)),
      ke_comment = join '' '' comment\<rparr>"
proof -
  let ?ws = "opts @ ty # b64encode blob # comment"
  have bl: "b64encode blob \<noteq> []"
    using assms(5) b64_roundtrip [of blob] b64_roundtrip [of "[]"] by (metis b64encode_def b64_enc.simps(4) list.simps(8) option.inject)
  have ok: "words_ok ?ws"
    using assms(1,3) known_types_ok [OF assms(4)] bl b64encode_plain by (auto simp: words_ok_def)
  have line: "key_line opts ty blob comment = join '' '' ?ws" by (simp add: key_line_def)
  note ends = join_words_ends [OF ok]
  have "strip (join '' '' ?ws) = join '' '' ?ws" using ends by (intro strip_by_id) auto
  moreover have "\<not> startswith (join '' '' ?ws) ''#''"
  proof -
    have "hd (hd ?ws) \<noteq> CHR ''#''"
      using assms(6) known_types_ok [OF assms(4)] by (cases opts) (auto simp: startswith_def, (metis hd_Cons_tl take0 take_Suc_Cons)+)
    then show ?thesis using ends by (auto simp: startswith_iff)
  qed
  moreover have "py_split (join '' '' ?ws) = ?ws"
    using ok by (intro py_split_join) (auto simp: words_ok_def)
  moreover have "index_of (\<lambda>t. t \<in> KNOWN_KEY_TYPES) ?ws = Some (length opts)"
    using assms(2,4) by (intro index_of_append) auto
  ultimately show ?thesis using ends unfolding line
    by (simp add: parse_key_line_def Let_def nth_append sha256_fingerprint_blob)
qed

subsection \<open>The cache\<close>

fun lookups :: "(file_view \<times> string) list \<Rightarrow> key_store \<Rightarrow> string result list" where
  \<comment> \<open>the answers to a sequence of calls, each with the file as it is then\<close>
  "lookups [] ks = []"
| "lookups ((fv, fp) # qs) ks = (case label_for_fingerprint fv fp ks of (ks', r) \<Rightarrow> r # lookups qs ks')"

fun fresh_label :: "file_view \<Rightarrow> string \<Rightarrow> string result" where
  \<comment> \<open>the specification: read and parse the file on every call\<close>
  "fresh_label NoFile fp = Inr (label_in [] fp)"
| "fresh_label (StatFails e) fp = Inl e"
| "fresh_label (File m (Inl e)) fp = Inl e"
| "fresh_label (File m (Inr t)) fp = Inr (label_in (index_entries (parse_authorized_keys t)) fp)"

definition mtime_faithful :: "file_view list \<Rightarrow> bool" where
  \<comment> \<open>a write changes the modification time\<close>
  "mtime_faithful fvs \<longleftrightarrow> (\<forall>m t t'. File m t \<in> set fvs \<longrightarrow> File m t' \<in> set fvs \<longrightarrow> t = t')"

definition cache_ok :: "file_view list \<Rightarrow> key_store \<Rightarrow> bool" where
  "cache_ok fvs ks \<longleftrightarrow> (\<forall>m. ks_mtime ks = Some m \<longrightarrow> (\<exists>t. File m (Inr t) \<in> set fvs
     \<and> ks_by_fingerprint ks = index_entries (parse_authorized_keys t)))"

lemma label_for_fresh:
  assumes "mtime_faithful fvs" "fv \<in> set fvs" "cache_ok fvs ks"
  shows "snd (label_for_fingerprint fv fp ks) = fresh_label fv fp"
    and "cache_ok fvs (fst (label_for_fingerprint fv fp ks))"
proof -
  have "snd (label_for_fingerprint fv fp ks) = fresh_label fv fp
      \<and> cache_ok fvs (fst (label_for_fingerprint fv fp ks))"
  proof (cases fv)
    case NoFile
    then show ?thesis by (simp add: label_for_fingerprint_def reload_if_needed_def cache_ok_def)
  next
    case (StatFails e)
    with assms(3) show ?thesis by (simp add: label_for_fingerprint_def reload_if_needed_def)
  next
    case (File m tx)
    show ?thesis
    proof (cases "ks_mtime ks = Some m")
      case True
      with assms(3) obtain t where t: "File m (Inr t) \<in> set fvs"
        "ks_by_fingerprint ks = index_entries (parse_authorized_keys t)"
        unfolding cache_ok_def by blast
      with assms(1,2) File have "tx = Inr t" unfolding mtime_faithful_def by blast
      with True t assms(3) File show ?thesis by (simp add: label_for_fingerprint_def reload_if_needed_def)
    next
      case False
      with assms(2,3) File show ?thesis
        by (cases tx) (auto simp: label_for_fingerprint_def reload_if_needed_def cache_ok_def)
    qed
  qed
  then show "snd (label_for_fingerprint fv fp ks) = fresh_label fv fp"
    "cache_ok fvs (fst (label_for_fingerprint fv fp ks))" by simp_all
qed

lemma lookups_fresh_gen:
  assumes "mtime_faithful fvs" "fst ` set qs \<subseteq> set fvs" "cache_ok fvs ks"
  shows "lookups qs ks = map (\<lambda>(fv, fp). fresh_label fv fp) qs"
  using assms(2,3)
proof (induction qs arbitrary: ks)
  case (Cons q qs)
  obtain fv fp where q: "q = (fv, fp)" by (cases q)
  have "fv \<in> set fvs" using Cons.prems(1) q by simp
  note fresh = label_for_fresh [OF assms(1) this Cons.prems(2), of fp]
  show ?case using Cons fresh q by (cases "label_for_fingerprint fv fp ks") simp
qed simp

lemma lookups_fresh:
  "mtime_faithful (map fst qs) \<Longrightarrow> lookups qs new_key_store = map (\<lambda>(fv, fp). fresh_label fv fp) qs"
  by (rule lookups_fresh_gen [of "map fst qs"]) (simp_all add: cache_ok_def new_key_store_def)

lemma index_entries_get:
  "map_of (index_entries es) fp = map_of (rev (map (\<lambda>e. (ke_fingerprint e, e)) es)) fp"
proof (induction es rule: rev_induct)
  case (snoc e es)
  then show ?case by (simp add: index_entries_def AList.update_conv')
qed (simp add: index_entries_def)

lemma label_of_entry:
  assumes "map_of (rev (map (\<lambda>e. (ke_fingerprint e, e)) es)) fp = Some e" "ke_comment e \<noteq> []"
  shows "label_in (index_entries es) fp = ke_comment e"
  using assms by (simp add: label_in_def index_entries_get)

end
