(* ===== verification/Py_Regex.thy ===== *)
theory Py_Regex
  imports Py_Strings
begin

section \<open>The regular expressions of Python's re module\<close>

text \<open>
  The fragment of \<open>re\<close> the repository's patterns use: literals, greedy repetition of a
  character class, sequence, alternation, optional group, named group and \<open>$\<close>. Python's
  engine backtracks in a fixed priority order and takes the first success, so the matcher
  \<open>matches r s\<close> lists all successes of \<open>r\<close> at the start of \<open>s\<close> in that order, each with
  the groups it bound and the rest of the subject; \<open>re_match\<close> takes the first one and
  \<open>re_search\<close> the first one at the leftmost start that has any.
\<close>

datatype re =
    Lit string
  | Rep "char \<Rightarrow> bool" nat "nat option"
  | Cat re re
  | Alt re re
  | Opt re
  | Grp string re
  | Eos

type_synonym groups = "(string \<times> string) list"

fun matches :: "re \<Rightarrow> string \<Rightarrow> (groups \<times> string) list" where
  "matches (Lit w) s = (if startswith s w then [([], drop (length w) s)] else [])"
| "matches (Rep p lo hi) s =
     (let n = length (takeWhile p s);
          m = (case hi of None \<Rightarrow> n | Some h \<Rightarrow> min n h)
      in map (\<lambda>k. ([], drop k s)) (rev [lo..<Suc m]))"
| "matches (Cat a b) s =
     concat (map (\<lambda>(g, s'). map (\<lambda>(h, s''). (g @ h, s'')) (matches b s')) (matches a s))"
| "matches (Alt a b) s = matches a s @ matches b s"
| "matches (Opt a) s = matches a s @ [([], s)]"
| "matches (Grp x a) s =
     map (\<lambda>(g, s'). ((x, take (length s - length s') s) # g, s')) (matches a s)"
| "matches Eos s = (if s = [] \<or> s = [CHR 0x0A] then [([], s)] else [])"

fun seq :: "re list \<Rightarrow> re" where
  "seq [] = Lit []"
| "seq [r] = r"
| "seq (r # rs) = Cat r (seq rs)"

definition re_match :: "re \<Rightarrow> string \<Rightarrow> groups option" where
  "re_match r s = (case matches r s of [] \<Rightarrow> None | (g, _) # _ \<Rightarrow> Some g)"

fun search_from :: "nat \<Rightarrow> re \<Rightarrow> string \<Rightarrow> (nat \<times> groups) option" where
  "search_from i r [] = map_option (\<lambda>g. (i, g)) (re_match r [])"
| "search_from i r (c # s) = (case re_match r (c # s) of
     Some g \<Rightarrow> Some (i, g) | None \<Rightarrow> search_from (Suc i) r s)"

definition re_search :: "re \<Rightarrow> string \<Rightarrow> (nat \<times> groups) option" where
  "re_search r s = search_from 0 r s"

definition group :: "groups \<Rightarrow> string \<Rightarrow> string option" where
  "group g x = map_of g x"

subsection \<open>Soundness: what a success consumed is in the language of the pattern\<close>

fun lang :: "re \<Rightarrow> string \<Rightarrow> bool" where
  "lang (Lit w) u \<longleftrightarrow> u = w"
| "lang (Rep p lo hi) u \<longleftrightarrow> list_all p u \<and> lo \<le> length u
     \<and> (case hi of None \<Rightarrow> True | Some h \<Rightarrow> length u \<le> h)"
| "lang (Cat a b) u \<longleftrightarrow> (\<exists>v w. u = v @ w \<and> lang a v \<and> lang b w)"
| "lang (Alt a b) u \<longleftrightarrow> lang a u \<or> lang b u"
| "lang (Opt a) u \<longleftrightarrow> u = [] \<or> lang a u"
| "lang (Grp x a) u \<longleftrightarrow> lang a u"
| "lang Eos u \<longleftrightarrow> u = []"

lemma matches_sound: "(g, t) \<in> set (matches r s) \<Longrightarrow> \<exists>u. s = u @ t \<and> lang r u"
proof (induction r arbitrary: s g t)
  case (Lit w)
  then show ?case by (auto simp: startswith_iff split: if_splits)
next
  case (Rep p lo hi)
  define m where "m = (case hi of None \<Rightarrow> length (takeWhile p s)
    | Some h \<Rightarrow> min (length (takeWhile p s)) h)"
  from Rep have "t \<in> set (map (\<lambda>k. drop k s) (rev [lo..<Suc m]))"
    by (simp add: Let_def m_def) auto
  then obtain k where k0: "t = drop k s" "lo \<le> k" "k \<le> m"
    by auto
  have k: "k \<le> length (takeWhile p s)" "case hi of None \<Rightarrow> True | Some h \<Rightarrow> k \<le> h"
    using k0(3) by (cases hi; simp add: m_def)+
  obtain n where n: "takeWhile p s = take n s" "length (takeWhile p s) = n"
    using takeWhile_eq_take [of p s] by blast
  have "take k s = take k (takeWhile p s)"
    using k(1) unfolding n by (simp add: min_absorb1)
  then have "list_all p (take k s)"
    by (metis in_set_takeD list_all_iff set_takeWhileD)
  moreover have "length (take k s) = k"
    using k(1) length_takeWhile_le [of p s] by simp
  ultimately show ?case
    using k0(1,2) k(2) by (intro exI [of _ "take k s"]) (cases hi; simp)
next
  case (Cat a b)
  then obtain g1 s1 g2 where "(g1, s1) \<in> set (matches a s)" "(g2, t) \<in> set (matches b s1)"
    by auto
  with Cat.IH obtain u v where "s = u @ s1" "lang a u" "s1 = v @ t" "lang b v" by blast
  then show ?case by (intro exI [of _ "u @ v"]) auto
next
  case (Alt a b)
  from Alt.prems have "(g, t) \<in> set (matches a s) \<or> (g, t) \<in> set (matches b s)" by simp
  then show ?case using Alt.IH by (metis lang.simps(4))
next
  case (Opt a)
  from Opt.prems have "(g, t) \<in> set (matches a s) \<or> t = s" by auto
  then show ?case using Opt.IH by (metis append_Nil lang.simps(5))
next
  case (Grp x a)
  then show ?case by auto
qed (auto split: if_splits)

lemma matches_suffix: "(g, t) \<in> set (matches r s) \<Longrightarrow> \<exists>u. s = u @ t"
  using matches_sound by blast

lemma matches_ne_lang: "matches r s \<noteq> [] \<Longrightarrow> \<exists>u t. s = u @ t \<and> lang r u"
  by (metis list.set_sel(1) matches_sound surj_pair)

lemma matches_length: "(g, t) \<in> set (matches r s) \<Longrightarrow> length t \<le> length s"
  using matches_suffix by fastforce

subsection \<open>The first success\<close>

definition first_match :: "re \<Rightarrow> string \<Rightarrow> groups \<Rightarrow> string \<Rightarrow> bool" where
  "first_match r s g t \<longleftrightarrow> (\<exists>zs. matches r s = (g, t) # zs)"

named_theorems first_intros "the first success of a pattern, by its structure"

lemma first_Lit [first_intros]: "first_match (Lit w) (w @ s) [] s"
  by (simp add: first_match_def)

lemma first_Lit_whole [first_intros]: "first_match (Lit w) w [] []"
  by (simp add: first_match_def startswith_def)

lemma first_Rep:
  assumes "\<forall>c\<in>set u. p c" "s = [] \<or> \<not> p (hd s)" "lo \<le> length u"
    "\<And>h. hi = Some h \<Longrightarrow> length u \<le> h"
  shows "first_match (Rep p lo hi) (u @ s) [] s"
proof -
  have n: "length (takeWhile p (u @ s)) = length u"
    using takeWhile_split [OF assms(1,2)] by simp
  have m: "(case hi of None \<Rightarrow> length u | Some h \<Rightarrow> min (length u) h) = length u"
    using assms(4) by (cases hi) auto
  show ?thesis using assms(3) by (simp add: first_match_def Let_def n m)
qed

lemma first_Cat [first_intros]:
  "first_match a s g s' \<Longrightarrow> first_match b s' h t \<Longrightarrow> first_match (Cat a b) s (g @ h) t"
  by (auto simp: first_match_def)

lemma first_Alt1: "first_match a s g t \<Longrightarrow> first_match (Alt a b) s g t"
  by (auto simp: first_match_def)

lemma first_Alt2: "matches a s = [] \<Longrightarrow> first_match b s g t \<Longrightarrow> first_match (Alt a b) s g t"
  by (auto simp: first_match_def)

lemma first_Opt1: "first_match a s g t \<Longrightarrow> first_match (Opt a) s g t"
  by (auto simp: first_match_def)

lemma first_Opt2: "matches a s = [] \<Longrightarrow> first_match (Opt a) s [] s"
  by (simp add: first_match_def)

lemma first_Grp: "first_match a s g t \<Longrightarrow> s = u @ t \<Longrightarrow> first_match (Grp x a) s ((x, u) # g) t"
  by (auto simp: first_match_def)

lemma first_match_re_match: "first_match r s g t \<Longrightarrow> re_match r s = Some g"
  by (auto simp: first_match_def re_match_def)

lemma first_match_re_search: "first_match r s g t \<Longrightarrow> re_search r s = Some (0, g)"
  by (cases s) (auto simp: re_search_def dest: first_match_re_match)

subsection \<open>When a search fails\<close>

lemma search_from_None: "search_from i r s = None \<longleftrightarrow> (\<forall>u v. s = u @ v \<longrightarrow> matches r v = [])"
proof (induction s arbitrary: i)
  case Nil
  then show ?case by (auto simp: re_match_def split: list.splits)
next
  case (Cons c s)
  have "(\<forall>u v. c # s = u @ v \<longrightarrow> matches r v = [])
    \<longleftrightarrow> matches r (c # s) = [] \<and> (\<forall>u v. s = u @ v \<longrightarrow> matches r v = [])"
    by (metis append_Cons append_Nil list.inject neq_Nil_conv)
  then show ?case by (auto simp: Cons re_match_def split: list.splits)
qed

lemma re_search_None: "re_search r s = None \<longleftrightarrow> (\<forall>u v. s = u @ v \<longrightarrow> matches r v = [])"
  by (simp add: re_search_def search_from_None)

lemma re_search_lang: "re_search r s \<noteq> None \<Longrightarrow> \<exists>u v t. s = u @ v @ t \<and> lang r v"
  by (metis matches_ne_lang re_search_None)

lemma search_from_shift:
  "search_from (i + n) r s = map_option (\<lambda>(k, g). (k + n, g)) (search_from i r s)"
proof (induction s arbitrary: i)
  case Nil
  then show ?case by (simp add: option.map_comp comp_def)
next
  case (Cons c s)
  then show ?case using Cons [of "Suc i"] by (auto split: option.splits)
qed

lemma re_search_skip:
  assumes "w \<noteq> []" "hd w \<notin> set u"
  shows "re_search (Cat (Lit w) r) (u @ s)
    = map_option (\<lambda>(k, g). (k + length u, g)) (re_search (Cat (Lit w) r) s)"
  using assms(2)
proof (induction u)
  case Nil
  then show ?case by (simp add: option.map_ident_strong split: prod.splits)
next
  case (Cons c u)
  obtain a w' where w: "w = a # w'" using assms(1) by (cases w) auto
  with Cons.prems have "\<not> startswith (c # u @ s) w" by auto
  then have "re_match (Cat (Lit w) r) (c # u @ s) = None" by (simp add: re_match_def)
  then have "re_search (Cat (Lit w) r) ((c # u) @ s) = search_from (0 + 1) (Cat (Lit w) r) (u @ s)"
    by (simp add: re_search_def)
  also have "\<dots> = map_option (\<lambda>(k, g). (k + 1, g)) (re_search (Cat (Lit w) r) (u @ s))"
    unfolding re_search_def by (rule search_from_shift)
  also have "re_search (Cat (Lit w) r) (u @ s)
      = map_option (\<lambda>(k, g). (k + length u, g)) (re_search (Cat (Lit w) r) s)"
    using Cons by simp
  finally show ?case by (simp add: option.map_comp comp_def case_prod_beta)
qed

lemma re_search_Some:
  assumes "re_search r s = Some (i, g)"
  shows "\<exists>u v t. s = u @ v \<and> length u = i \<and> (g, t) \<in> set (matches r v)"
proof -
  have "search_from k r s = Some (i, g) \<Longrightarrow>
      \<exists>u v t. s = u @ v \<and> k + length u = i \<and> (g, t) \<in> set (matches r v)" for k
  proof (induction s arbitrary: k)
    case Nil
    then show ?case by (auto simp: re_match_def split: list.splits)
  next
    case (Cons c s)
    show ?case
    proof (cases "re_match r (c # s)")
      case None
      with Cons.prems have "search_from (Suc k) r s = Some (i, g)" by simp
      from Cons.IH [OF this] obtain u v t
        where "s = u @ v" "Suc k + length u = i" "(g, t) \<in> set (matches r v)" by blast
      then show ?thesis by (intro exI [of _ "c # u"] exI [of _ v] exI [of _ t]) auto
    next
      case (Some h)
      with Cons.prems have "g = h" "i = k" by auto
      moreover from Some obtain t where "(h, t) \<in> set (matches r (c # s))"
        by (cases "matches r (c # s)") (auto simp: re_match_def)
      ultimately show ?thesis by (intro exI [of _ "[]"] exI [of _ "c # s"] exI [of _ t]) auto
    qed
  qed
  from this [of 0] assms show ?thesis by (simp add: re_search_def)
qed

subsection \<open>What a group holds\<close>

fun group_bodies :: "re \<Rightarrow> (string \<times> re) list" where
  "group_bodies (Cat a b) = group_bodies a @ group_bodies b"
| "group_bodies (Alt a b) = group_bodies a @ group_bodies b"
| "group_bodies (Opt a) = group_bodies a"
| "group_bodies (Grp x a) = (x, a) # group_bodies a"
| "group_bodies _ = []"

fun always_bound :: "re \<Rightarrow> string \<Rightarrow> bool" where
  "always_bound (Cat a b) x \<longleftrightarrow> always_bound a x \<or> always_bound b x"
| "always_bound (Alt a b) x \<longleftrightarrow> always_bound a x \<and> always_bound b x"
| "always_bound (Grp y a) x \<longleftrightarrow> x = y \<or> always_bound a x"
| "always_bound _ x \<longleftrightarrow> False"

lemma group_value:
  "(g, t) \<in> set (matches r s) \<Longrightarrow> (x, v) \<in> set g \<Longrightarrow>
   (\<exists>a. (x, a) \<in> set (group_bodies r) \<and> lang a v) \<and> length v \<le> length s"
proof (induction r arbitrary: s g t)
  case (Cat a b)
  then obtain g1 s1 g2 where m: "(g1, s1) \<in> set (matches a s)" "(g2, t) \<in> set (matches b s1)"
    and g: "g = g1 @ g2" by auto
  have "length s1 \<le> length s" using m(1) by (rule matches_length)
  moreover from g Cat.prems(2) have "(x, v) \<in> set g1 \<or> (x, v) \<in> set g2" by simp
  ultimately show ?case using Cat.IH(1) [OF m(1)] Cat.IH(2) [OF m(2)] by fastforce
next
  case (Alt a b)
  from Alt.prems have "(g, t) \<in> set (matches a s) \<or> (g, t) \<in> set (matches b s)" by simp
  then show ?case using Alt.IH Alt.prems(2) by fastforce
next
  case (Opt a)
  from Opt.prems have "(g, t) \<in> set (matches a s)" by auto
  then show ?case using Opt.IH Opt.prems(2) by fastforce
next
  case (Grp y a)
  then obtain h where h: "(h, t) \<in> set (matches a s)"
    and g: "g = (y, take (length s - length t) s) # h" by auto
  obtain u where "s = u @ t" "lang a u" using matches_sound [OF h] by blast
  with g Grp.prems(2) Grp.IH [OF h] show ?case by auto
qed (auto simp: Let_def split: if_splits)

lemma always_bound_group:
  "(g, t) \<in> set (matches r s) \<Longrightarrow> always_bound r x \<Longrightarrow> \<exists>v. group g x = Some v"
proof (induction r arbitrary: s g t)
  case (Cat a b)
  then obtain g1 s1 g2 where m: "(g1, s1) \<in> set (matches a s)" "(g2, t) \<in> set (matches b s1)"
    and g: "g = g1 @ g2" by auto
  from Cat.prems(2) have "always_bound a x \<or> always_bound b x" by simp
  with Cat.IH(1) [OF m(1)] Cat.IH(2) [OF m(2)] show ?case
    unfolding g group_def map_of_append map_add_def by (auto split: option.split)
next
  case (Grp y a)
  then show ?case by (fastforce simp: group_def)
qed (auto split: if_splits)

lemma re_search_group:
  assumes "re_search r s = Some (i, g)" "group g x = Some v"
  shows "(\<exists>a. (x, a) \<in> set (group_bodies r) \<and> lang a v) \<and> length v \<le> length s"
proof -
  obtain u w t where w: "s = u @ w" "(g, t) \<in> set (matches r w)"
    using re_search_Some [OF assms(1)] by blast
  have "(x, v) \<in> set g" using assms(2) by (simp add: group_def map_of_SomeD)
  with group_value [OF w(2)] w(1) show ?thesis by fastforce
qed

lemma re_search_bound:
  assumes "re_search r s = Some (i, g)" "always_bound r x"
  shows "\<exists>v. group g x = Some v"
  using re_search_Some [OF assms(1)] always_bound_group assms(2) by blast

end
