(* ===== verification/Extra_Tools.thy ===== *)
theory Extra_Tools
  imports Py_Regex Py_Json
begin

section \<open>extra_tools.py: what other tools report\<close>

text \<open>
  \<open>daemon/src/omnia_daemon/extra_tools.py\<close>. A tool is a parameter: \<open>which\<close> says whether a program
  is installed and \<open>exec\<close> gives the exit status and the output of a command, or what
  \<open>subprocess.run\<close> raises. A dict of the source is a \<^typ>\<open>json\<close> object, the form in which it
  reaches the client. A command that changes the machine is \<open>restart_cmd\<close> or \<open>reboot_cmd\<close>.
\<close>

type_synonym exec = "string list \<Rightarrow> (int \<times> string) result"

definition run_cmd :: "exec \<Rightarrow> string list \<Rightarrow> (int \<times> string) option result" where
  "run_cmd exec cmd = (case exec cmd of
      Inr p \<Rightarrow> Inr (Some p)
    | Inl (TimeoutExpired _) \<Rightarrow> Inr None
    | Inl e \<Rightarrow> if is_os_error e then Inr None else Inl e)"

definition not_available :: json where
  "not_available = JObj [(''available'', JBool False)]"

subsection \<open>Services and containers\<close>

fun service_statuses :: "exec \<Rightarrow> string list \<Rightarrow> json list result" where
  "service_statuses exec [] = Inr []"
| "service_statuses exec (u # us) = (case run_cmd exec [''systemctl'', ''is-active'', u] of
      Inl e \<Rightarrow> Inl e
    | Inr p \<Rightarrow> (case service_statuses exec us of Inl e \<Rightarrow> Inl e
        | Inr rs \<Rightarrow> Inr (JObj [(''unit'', JStr u), (''state'', JStr (case p of
              Some (_, out) \<Rightarrow> strip out | None \<Rightarrow> ''unknown''))] # rs)))"

fun docker_lines :: "string list \<Rightarrow> json list result" where
  "docker_lines [] = Inr []"
| "docker_lines (l # ls) = (if strip l = [] then docker_lines ls
     else (case loads (strip l) of
         Inl (JSONDecodeError _) \<Rightarrow> docker_lines ls
       | Inl e \<Rightarrow> Inl e
       | Inr data \<Rightarrow> if \<not> is_obj data then Inl (AttributeError ''object has no attribute get'')
           else (case docker_lines ls of Inl e \<Rightarrow> Inl e
             | Inr cs \<Rightarrow> Inr (JObj [(''name'', field data ''Names''), (''image'', field data ''Image''),
                 (''status'', field data ''Status''), (''state'', field data ''State'')] # cs))))"

definition docker_containers :: "(string \<Rightarrow> bool) \<Rightarrow> exec \<Rightarrow> json result" where
  "docker_containers which exec = (if \<not> which ''docker'' then Inr not_available
     else (case run_cmd exec [''docker'', ''ps'', ''--format'', ''{{json .}}''] of
         Inl e \<Rightarrow> Inl e
       | Inr None \<Rightarrow> Inr not_available
       | Inr (Some (rc, out)) \<Rightarrow> if rc \<noteq> 0 then Inr not_available
           else (case docker_lines (splitlines out) of Inl e \<Rightarrow> Inl e
             | Inr cs \<Rightarrow> Inr (JObj [(''available'', JBool True), (''containers'', JArr cs)]))))"

subsection \<open>fail2ban\<close>

fun first_line :: "string \<Rightarrow> string list \<Rightarrow> string" where
  \<comment> \<open>\<open>next((line for line in lines if what in line), "")\<close>\<close>
  "first_line w [] = []"
| "first_line w (l # ls) = (if occurs_in w l then l else first_line w ls)"

definition after_colon :: "string \<Rightarrow> string" where
  "after_colon l = last (split_first CHR '':'' l)"

fun banned_of :: "exec \<Rightarrow> string list \<Rightarrow> (string \<times> json) list \<Rightarrow> (string \<times> json) list result" where
  "banned_of exec [] d = Inr d"
| "banned_of exec (j # js) d = (case run_cmd exec [''fail2ban-client'', ''status'', j] of
      Inl e \<Rightarrow> Inl e
    | Inr None \<Rightarrow> banned_of exec js d
    | Inr (Some (rc, out)) \<Rightarrow> if rc \<noteq> 0 then banned_of exec js d
        else banned_of exec js (AList.update j (JArr (map JStr
          (py_split (after_colon (first_line ''Banned IP list'' (splitlines out)))))) d))"

definition jail_names :: "string \<Rightarrow> string list" where
  "jail_names out = filter (\<lambda>j. j \<noteq> []) (map strip
     (split_on CHR '','' (after_colon (first_line ''Jail list'' (splitlines out)))))"

definition fail2ban_banned_ips :: "(string \<Rightarrow> bool) \<Rightarrow> exec \<Rightarrow> json result" where
  "fail2ban_banned_ips which exec = (if \<not> which ''fail2ban-client'' then Inr not_available
     else (case run_cmd exec [''fail2ban-client'', ''status''] of
         Inl e \<Rightarrow> Inl e
       | Inr None \<Rightarrow> Inr not_available
       | Inr (Some (rc, out)) \<Rightarrow> if rc \<noteq> 0 then Inr not_available
           else (case banned_of exec (jail_names out) [] of Inl e \<Rightarrow> Inl e
             | Inr d \<Rightarrow> Inr (JObj [(''available'', JBool True), (''banned_by_jail'', JObj d)]))))"

subsection \<open>Disks and updates\<close>

definition PARTITION_SUFFIX_RE :: re where
  "PARTITION_SUFFIX_RE = Cat (Alt (Cat (Lit ''p'') (Rep is_digit 1 None)) (Rep is_digit 1 None)) Eos"

definition base_device :: "string \<Rightarrow> string" where
  "base_device dev = (case re_search PARTITION_SUFFIX_RE dev of Some (i, _) \<Rightarrow> take i dev | None \<Rightarrow> dev)"

definition guess_base_devices :: "string list \<Rightarrow> string list" where
  "guess_base_devices devs = sort (remdups (map base_device devs))"

definition smart_verdict :: "string \<Rightarrow> string" where
  "smart_verdict out = (let o1 = to_lower out in
     if occurs_in ''passed'' o1 then ''passed'' else if occurs_in ''failed'' o1 then ''failed'' else ''unknown'')"

fun smart_statuses :: "exec \<Rightarrow> string list \<Rightarrow> (string \<times> json) list \<Rightarrow> (string \<times> json) list result" where
  "smart_statuses exec [] d = Inr d"
| "smart_statuses exec (dev # devs) d = (case run_cmd exec [''smartctl'', ''-H'', dev] of
      Inl e \<Rightarrow> Inl e
    | Inr p \<Rightarrow> smart_statuses exec devs (AList.update dev (JStr (case p of
          None \<Rightarrow> ''unknown'' | Some (_, out) \<Rightarrow> smart_verdict out)) d))"

definition disk_smart_health :: "(string \<Rightarrow> bool) \<Rightarrow> exec \<Rightarrow> string list \<Rightarrow> json result" where
  "disk_smart_health which exec devs = (if \<not> which ''smartctl'' then Inr not_available
     else (case smart_statuses exec devs [] of Inl e \<Rightarrow> Inl e
       | Inr d \<Rightarrow> Inr (JObj [(''available'', JBool True), (''devices'', JObj d)])))"

definition updates_found :: "string \<Rightarrow> nat \<Rightarrow> json" where
  "updates_found manager n = JObj [(''available'', JBool True), (''manager'', JStr manager), (''count'', JInt (int n))]"

definition apt_line :: "string \<Rightarrow> bool" where
  "apt_line l \<longleftrightarrow> occurs_in ''/'' l \<and> \<not> startswith l ''Listing''"

definition dnf_line :: "string \<Rightarrow> bool" where
  "dnf_line l \<longleftrightarrow> strip l \<noteq> [] \<and> \<not> startswith l ''Last metadata'' \<and> \<not> startswith l ''Obsoleting''"

definition dnf_updates :: "(string \<Rightarrow> bool) \<Rightarrow> exec \<Rightarrow> json result" where
  "dnf_updates which exec = (if \<not> which ''dnf'' then Inr not_available
     else (case run_cmd exec [''dnf'', ''check-update''] of
         Inl e \<Rightarrow> Inl e
       | Inr None \<Rightarrow> Inr not_available
       | Inr (Some (_, out)) \<Rightarrow> Inr (updates_found ''dnf'' (length (filter dnf_line (splitlines out))))))"

definition pending_updates :: "(string \<Rightarrow> bool) \<Rightarrow> exec \<Rightarrow> json result" where
  "pending_updates which exec = (if \<not> which ''apt'' then dnf_updates which exec
     else (case run_cmd exec [''apt'', ''list'', ''--upgradable''] of
         Inl e \<Rightarrow> Inl e
       | Inr None \<Rightarrow> dnf_updates which exec
       | Inr (Some (rc, out)) \<Rightarrow> if rc = 0
           then Inr (updates_found ''apt'' (length (filter apt_line (splitlines out))))
           else dnf_updates which exec))"

subsection \<open>The two mutating actions\<close>

definition restart_cmd :: "string \<Rightarrow> string list" where
  "restart_cmd unit = [''systemctl'', ''restart'', unit]"

definition reboot_cmd :: "string list" where
  "reboot_cmd = [''systemctl'', ''reboot'']"

definition succeeded :: "(int \<times> string) option \<Rightarrow> bool" where
  "succeeded p = (case p of Some (rc, _) \<Rightarrow> rc = 0 | None \<Rightarrow> False)"

definition restart_service :: "exec \<Rightarrow> string \<Rightarrow> bool result" where
  "restart_service exec unit = (case run_cmd exec (restart_cmd unit) of Inl e \<Rightarrow> Inl e | Inr p \<Rightarrow> Inr (succeeded p))"

definition reboot_system :: "exec \<Rightarrow> bool result" where
  "reboot_system exec = (case run_cmd exec reboot_cmd of Inl e \<Rightarrow> Inl e | Inr p \<Rightarrow> Inr (succeeded p))"

subsection \<open>Facts\<close>

definition exec_ok :: "exec \<Rightarrow> bool" where
  \<comment> \<open>a tool may be missing, fail or time out, and prints text\<close>
  "exec_ok exec \<longleftrightarrow> (\<forall>cmd e. exec cmd = Inl e \<longrightarrow> is_os_error e \<or> (\<exists>m. e = TimeoutExpired m))"

lemma run_cmd_ok: "exec_ok exec \<Longrightarrow> \<exists>p. run_cmd exec cmd = Inr p"
  unfolding exec_ok_def run_cmd_def by (cases "exec cmd") (fastforce split: exn.split)+

lemma service_statuses_ok:
  "exec_ok exec \<Longrightarrow> \<exists>rs. service_statuses exec us = Inr rs \<and> length rs = length us"
proof (induction us)
  case (Cons u us)
  then obtain rs where "service_statuses exec us = Inr rs" "length rs = length us" by auto
  with run_cmd_ok [OF Cons.prems, of "[''systemctl'', ''is-active'', u]"] show ?case by auto
qed simp

lemma smart_statuses_ok: "exec_ok exec \<Longrightarrow> \<exists>d'. smart_statuses exec devs d = Inr d'"
proof (induction devs arbitrary: d)
  case (Cons dev devs)
  with run_cmd_ok [OF Cons.prems, of "[''smartctl'', ''-H'', dev]"] show ?case by auto
qed simp

lemma banned_of_ok: "exec_ok exec \<Longrightarrow> \<exists>d'. banned_of exec js d = Inr d'"
proof (induction js arbitrary: d)
  case (Cons j js)
  with run_cmd_ok [OF Cons.prems, of "[''fail2ban-client'', ''status'', j]"] show ?case
    by (auto split: option.split)
qed simp

lemma fail2ban_ok:
  assumes "exec_ok exec"
  shows "\<exists>r. fail2ban_banned_ips which exec = Inr r"
proof -
  obtain p where p: "run_cmd exec [''fail2ban-client'', ''status''] = Inr p"
    using run_cmd_ok [OF assms] by blast
  have "\<exists>d. banned_of exec (jail_names out) [] = Inr d" for out
    by (rule banned_of_ok [OF assms])
  then show ?thesis
    by (cases p) (auto simp: fail2ban_banned_ips_def p split: sum.split, (metis sum.distinct(1) sum.sel(2))?)
qed

lemma smart_ok: "exec_ok exec \<Longrightarrow> \<exists>r. disk_smart_health which exec devs = Inr r"
  using smart_statuses_ok [of exec devs "[]"] by (auto simp: disk_smart_health_def)

lemma pending_updates_ok: "exec_ok exec \<Longrightarrow> \<exists>r. pending_updates which exec = Inr r"
proof -
  assume ok: "exec_ok exec"
  have d: "\<exists>r. dnf_updates which exec = Inr r"
    using run_cmd_ok [OF ok, of "[''dnf'', ''check-update'']"] by (auto simp: dnf_updates_def split: option.split)
  then show ?thesis
    using run_cmd_ok [OF ok, of "[''apt'', ''list'', ''--upgradable'']"]
    by (auto simp: pending_updates_def split: option.split)
qed

subsection \<open>Base devices\<close>

lemma search_at:
  assumes "\<forall>x y. b = x @ y \<longrightarrow> y \<noteq> [] \<longrightarrow> matches r (y @ s) = []" "first_match r s g t"
  shows "search_from k r (b @ s) = Some (k + length b, g)"
  using assms(1)
proof (induction b arbitrary: k)
  case Nil
  then show ?case using first_match_re_match [OF assms(2)] by (cases s) auto
next
  case (Cons c b)
  have "re_match r (c # b @ s) = None"
    using Cons.prems [rule_format, of "[]" "c # b"] by (simp add: re_match_def)
  moreover have "search_from (Suc k) r (b @ s) = Some (Suc k + length b, g)"
    by (rule Cons.IH) (use Cons.prems in \<open>metis append_Cons\<close>)
  ultimately show ?case by simp
qed

lemma matches_Cat_ne: "matches (Cat a b) s \<noteq> [] \<Longrightarrow> \<exists>g t. (g, t) \<in> set (matches a s) \<and> matches b t \<noteq> []"
  by (fastforce simp: concat_eq_Nil_conv)

lemma suffix_match:
  assumes "matches PARTITION_SUFFIX_RE s \<noteq> []" "CHR 0x0A \<notin> set s"
  shows "\<exists>ds. list_all is_digit ds \<and> (s = ds \<or> s = CHR ''p'' # ds)"
proof -
  let ?A = "Alt (Cat (Lit ''p'') (Rep is_digit 1 None)) (Rep is_digit 1 None)"
  obtain g t where t: "(g, t) \<in> set (matches ?A s)" "matches Eos t \<noteq> []"
    using matches_Cat_ne [OF assms(1) [unfolded PARTITION_SUFFIX_RE_def]] by blast
  obtain v where v: "s = v @ t" "lang ?A v" using matches_sound [OF t(1)] by blast
  have "t = []" using t(2) v(1) assms(2) by (auto split: if_splits)
  then show ?thesis using v by auto
qed

lemma first_suffix:
  assumes "list_all is_digit d" "d \<noteq> []"
  shows "first_match PARTITION_SUFFIX_RE d [] []" "first_match PARTITION_SUFFIX_RE (''p'' @ d) [] []"
proof -
  have r: "first_match (Rep is_digit 1 None) d [] []"
    using first_Rep [of d is_digit "[]" 1 None] assms by (auto simp: list_all_iff Suc_le_eq)
  have e: "first_match Eos [] [] []" by (simp add: first_match_def)
  have np: "matches (Cat (Lit ''p'') (Rep is_digit 1 None)) d = []"
    using assms by (cases d) (auto simp: is_digit_def)
  show "first_match PARTITION_SUFFIX_RE d [] []"
    unfolding PARTITION_SUFFIX_RE_def using first_Cat [OF first_Alt2 [OF np r] e] by simp
  show "first_match PARTITION_SUFFIX_RE (''p'' @ d) [] []"
    unfolding PARTITION_SUFFIX_RE_def
    using first_Cat [OF first_Alt1 [OF first_Cat [OF first_Lit [of "''p''"] r]] e] by simp
qed

lemma base_device_partition:
  assumes "list_all is_digit d" "d \<noteq> []" "CHR 0x0A \<notin> set b"
  shows "base_device (b @ ''p'' @ d) = b"
proof -
  have nl: "CHR 0x0A \<notin> set d" using assms(1) by (auto simp: list_all_iff is_digit_def)
  have "matches PARTITION_SUFFIX_RE (y @ ''p'' @ d) = []" if "b = x @ y" "y \<noteq> []" for x y
  proof (rule ccontr)
    assume m: "matches PARTITION_SUFFIX_RE (y @ ''p'' @ d) \<noteq> []"
    have "CHR 0x0A \<notin> set (y @ ''p'' @ d)" using that assms(3) nl by auto
    from suffix_match [OF m this] obtain ds where ds: "list_all is_digit ds"
      "y @ ''p'' @ d = ds \<or> y @ ''p'' @ d = CHR ''p'' # ds" by blast
    then have "CHR ''p'' \<in> set ds" using that(2) by (cases y) auto
    then show False using ds(1) by (auto simp: list_all_iff is_digit_def)
  qed
  then have "re_search PARTITION_SUFFIX_RE (b @ ''p'' @ d) = Some (length b, [])"
    using search_at [of b PARTITION_SUFFIX_RE "''p'' @ d" "[]" "[]" 0] first_suffix(2) [OF assms(1,2)]
    by (simp add: re_search_def)
  then show ?thesis by (simp add: base_device_def)
qed

lemma base_device_digits:
  assumes "list_all is_digit d" "d \<noteq> []" "CHR 0x0A \<notin> set b" "b \<noteq> []" "\<not> is_digit (last b)" "last b \<noteq> CHR ''p''"
  shows "base_device (b @ d) = b"
proof -
  have nl: "CHR 0x0A \<notin> set d" using assms(1) by (auto simp: list_all_iff is_digit_def)
  have "matches PARTITION_SUFFIX_RE (y @ d) = []" if "b = x @ y" "y \<noteq> []" for x y
  proof (rule ccontr)
    assume m: "matches PARTITION_SUFFIX_RE (y @ d) \<noteq> []"
    have "CHR 0x0A \<notin> set (y @ d)" using that assms(3) nl by auto
    from suffix_match [OF m this] obtain ds where ds: "list_all is_digit ds"
      "y @ d = ds \<or> y @ d = CHR ''p'' # ds" by blast
    have "last b \<in> set y" using that by simp
    then have "last b \<in> set ds \<or> last b = CHR ''p''" using ds(2) by (metis Un_iff set_ConsD set_append)
    then show False using assms(5,6) ds(1) by (auto simp: list_all_iff)
  qed
  then have "re_search PARTITION_SUFFIX_RE (b @ d) = Some (length b, [])"
    using search_at [of b PARTITION_SUFFIX_RE d "[]" "[]" 0] first_suffix(1) [OF assms(1,2)]
    by (simp add: re_search_def)
  then show ?thesis by (simp add: base_device_def)
qed

end
