(* ===== verification/Py_Text.thy ===== *)
theory Py_Text
  imports Py_Json
begin

section \<open>Text conversions of Python values\<close>

text \<open>
  What the server and the speed test use of \<open>int()\<close>, \<open>float()\<close>, \<open>str()\<close>, \<open>set()\<close> and \<open>sorted()\<close> on a
  value that came out of \<open>json.loads\<close>, and \<open>str(exc)\<close> of an exception. The text of a float is a
  parameter. \<open>py_float\<close> adds the infinities and the NaN, which a client can send as text.
\<close>

subsection \<open>\<open>int()\<close> and \<open>float()\<close>\<close>

definition digit_groups :: "string \<Rightarrow> string option" where
  \<comment> \<open>digits with single underscores between them, without the underscores\<close>
  "digit_groups s = (let gs = split_on CHR ''_'' s in
     if list_all (\<lambda>g. g \<noteq> [] \<and> list_all is_digit g) gs then Some (concat gs) else None)"

definition split_sign :: "string \<Rightarrow> bool \<times> string" where
  "split_sign s = (if startswith s ''-'' then (True, drop 1 s)
     else if startswith s ''+'' then (False, drop 1 s) else (False, s))"

definition py_int_text :: "string \<Rightarrow> int result" where
  "py_int_text s = (case split_sign (strip s) of (neg, body) \<Rightarrow> (case digit_groups body of
      None \<Rightarrow> Inl (ValueError ''invalid literal for int() with base 10'')
    | Some ds \<Rightarrow> (case py_int_digits ds of Inl e \<Rightarrow> Inl e | Inr n \<Rightarrow> Inr (if neg then - n else n))))"

definition truncate :: "rat \<Rightarrow> int" where
  "truncate x = (if x < 0 then \<lceil>x\<rceil> else \<lfloor>x\<rfloor>)"

fun py_int_of :: "json \<Rightarrow> int result" where
  "py_int_of (JInt n) = Inr n"
| "py_int_of (JBool b) = Inr (if b then 1 else 0)"
| "py_int_of (JFloat x) = Inr (truncate x)"
| "py_int_of (JStr s) = py_int_text s"
| "py_int_of _ = Inl (TypeError ''int() argument must be a string, a bytes-like object or a real number'')"

datatype py_float = Finite rat | PosInf | NegInf | NaN

definition float_limit :: rat where
  \<comment> \<open>the numbers from here on round to infinity\<close>
  "float_limit = 2 ^ 1024 - 2 ^ 970"

definition to_float :: "rat \<Rightarrow> py_float" where
  "to_float x = (if float_limit \<le> x then PosInf else if x \<le> - float_limit then NegInf else Finite x)"

definition mantissa :: "string \<Rightarrow> rat option" where
  \<comment> \<open>digits with at most one point, at least one digit\<close>
  "mantissa s = (case split_first CHR ''.'' s of
      [a, b] \<Rightarrow> (case (if a = [] then Some [] else digit_groups a, if b = [] then Some [] else digit_groups b) of
          (Some x, Some y) \<Rightarrow> if x = [] \<and> y = [] then None
             else Some (of_nat (digits_val x) + of_nat (digits_val y) / 10 ^ length y)
        | _ \<Rightarrow> None)
    | _ \<Rightarrow> map_option (\<lambda>ds. of_nat (digits_val ds)) (digit_groups s))"

definition exponent :: "string \<Rightarrow> rat option" where
  "exponent s = (case split_sign s of (neg, ds) \<Rightarrow> (case digit_groups ds of None \<Rightarrow> None
     | Some e \<Rightarrow> Some (if neg then 1 / 10 ^ digits_val e else 10 ^ digits_val e)))"

definition decimal :: "string \<Rightarrow> rat option" where
  "decimal s = (case split_first CHR ''e'' s of
      [m, e] \<Rightarrow> (case (mantissa m, exponent e) of (Some x, Some y) \<Rightarrow> Some (x * y) | _ \<Rightarrow> None)
    | _ \<Rightarrow> mantissa s)"

definition py_float_text :: "string \<Rightarrow> py_float result" where
  "py_float_text s = (case split_sign (to_lower (strip s)) of (neg, body) \<Rightarrow>
     if body \<in> {''inf'', ''infinity''} then Inr (if neg then NegInf else PosInf)
     else if body = ''nan'' then Inr NaN
     else (case decimal body of Some x \<Rightarrow> Inr (to_float (if neg then - x else x))
       | None \<Rightarrow> Inl (ValueError (''could not convert string to float''))))"

fun py_float_of :: "json \<Rightarrow> py_float result" where
  "py_float_of (JInt n) = (if \<bar>of_int n\<bar> \<ge> float_limit then Inl (OverflowError ''int too large to convert to float'')
     else Inr (Finite (of_int n)))"
| "py_float_of (JBool b) = Inr (Finite (if b then 1 else 0))"
| "py_float_of (JFloat x) = Inr (Finite x)"
| "py_float_of (JStr s) = py_float_text s"
| "py_float_of _ = Inl (TypeError ''float() argument must be a string or a real number'')"

subsection \<open>\<open>str()\<close>\<close>

fun scalar_text :: "(rat \<Rightarrow> string) \<Rightarrow> json \<Rightarrow> string" where
  \<comment> \<open>a scalar in an f-string; containers are not hashable and never get into one\<close>
  "scalar_text ft JNull = ''None''"
| "scalar_text ft (JBool b) = (if b then ''True'' else ''False'')"
| "scalar_text ft (JInt n) = str_int n"
| "scalar_text ft (JFloat x) = ft x"
| "scalar_text ft (JStr s) = s"
| "scalar_text ft _ = []"

definition repr_text :: "string \<Rightarrow> string" where
  \<comment> \<open>\<open>repr\<close> of a text of printable characters\<close>
  "repr_text s = (let q = (if CHR 0x27 \<in> set s \<and> CHR 0x22 \<notin> set s then CHR 0x22 else CHR 0x27) in
     q # concat (map (\<lambda>c. if c = q \<or> c = CHR 0x5C then [CHR 0x5C, c] else [c]) s) @ [q])"

fun exn_text :: "exn \<Rightarrow> string" where
  \<comment> \<open>\<open>str(exc)\<close>\<close>
  "exn_text (ValueError m) = m"
| "exn_text (TypeError m) = m"
| "exn_text (AttributeError m) = m"
| "exn_text (KeyError k) = repr_text k"
| "exn_text (PermissionError m) = m"
| "exn_text (ConnectionError m) = m"
| "exn_text (OSError m) = m"
| "exn_text UnicodeDecodeError = ''codec cannot decode byte''"
| "exn_text IndexError = ''list index out of range''"
| "exn_text (OverflowError m) = m"
| "exn_text (ConnectionResetError m) = m"
| "exn_text (SMTPException m) = m"
| "exn_text (JSONDecodeError m) = m"
| "exn_text (TimeoutExpired m) = m"
| "exn_text (RuntimeError m) = m"
| "exn_text TimeoutError = []"

subsection \<open>\<open>set()\<close> and \<open>sorted()\<close>\<close>

fun hashable :: "json \<Rightarrow> bool" where
  "hashable (JArr _) = False" | "hashable (JObj _) = False" | "hashable _ = True"

definition py_eq :: "json \<Rightarrow> json \<Rightarrow> bool" where
  \<comment> \<open>\<open>==\<close> on scalars: \<open>1\<close>, \<open>1.0\<close> and \<open>True\<close> are equal\<close>
  "py_eq a b = (case (json_number a, json_number b) of (Some x, Some y) \<Rightarrow> x = y | _ \<Rightarrow> a = b)"

definition set_add :: "json list \<Rightarrow> json \<Rightarrow> json list" where
  "set_add s x = (if list_ex (py_eq x) s then s else s @ [x])"

definition set_union :: "json list \<Rightarrow> json list \<Rightarrow> json list" where
  "set_union s xs = foldl set_add s xs"

definition set_minus :: "json list \<Rightarrow> json list \<Rightarrow> json list" where
  "set_minus s xs = filter (\<lambda>x. \<not> list_ex (py_eq x) xs) s"

fun py_set :: "json \<Rightarrow> json list result" where
  "py_set (JArr xs) = (if list_all hashable xs then Inr (set_union [] xs) else Inl (TypeError ''unhashable type''))"
| "py_set (JStr s) = Inr (set_union [] (map (\<lambda>c. JStr [c]) s))"
| "py_set (JObj kvs) = Inr (map (JStr \<circ> fst) kvs)"
| "py_set _ = Inl (TypeError ''object is not iterable'')"

fun str_of :: "json \<Rightarrow> string" where
  "str_of (JStr s) = s" | "str_of _ = []"

fun is_str :: "json \<Rightarrow> bool" where
  "is_str (JStr _) = True" | "is_str _ = False"

definition num_of :: "json \<Rightarrow> rat" where
  "num_of j = (case json_number j of Some x \<Rightarrow> x | None \<Rightarrow> 0)"

definition py_sorted :: "json list \<Rightarrow> json list result" where
  "py_sorted xs = (if length xs \<le> 1 then Inr xs
     else if list_all is_str xs then Inr (sort_key str_of xs)
     else if list_all (\<lambda>x. json_number x \<noteq> None) xs then Inr (sort_key num_of xs)
     else Inl (TypeError ''< not supported between these instances''))"

lemma str_of_is_str: "is_str x \<Longrightarrow> JStr (str_of x) = x"
  by (cases x) auto

lemma py_eq_JStr [simp]: "py_eq x (JStr s) = (x = JStr s)" "py_eq (JStr s) x = (x = JStr s)"
  by (auto simp: py_eq_def split: option.splits)

lemma set_add_in: "JStr s \<in> set (set_add xs x) \<longleftrightarrow> JStr s \<in> set xs \<or> x = JStr s"
  by (cases "x = JStr s") (auto simp: set_add_def list_ex_iff)

lemma set_union_in: "JStr s \<in> set (set_union xs ys) \<longleftrightarrow> JStr s \<in> set xs \<or> JStr s \<in> set ys"
  unfolding set_union_def by (induction ys arbitrary: xs) (auto simp: set_add_in)

lemma set_minus_in: "JStr s \<in> set (set_minus xs ys) \<longleftrightarrow> JStr s \<in> set xs \<and> JStr s \<notin> set ys"
  by (auto simp: set_minus_def list_ex_iff)

lemma py_set_in: "py_set (JArr xs) = Inr ys \<Longrightarrow> JStr s \<in> set ys \<longleftrightarrow> JStr s \<in> set xs"
  by (auto simp: set_union_in split: if_splits)

lemma py_sorted_set: "py_sorted xs = Inr ys \<Longrightarrow> set ys = set xs"
  by (auto simp: py_sorted_def split: if_splits)

lemma py_sorted_strs: "list_all is_str xs \<Longrightarrow> \<exists>ys. py_sorted xs = Inr ys \<and> mset ys = mset xs \<and> sorted (map str_of ys)"
proof (cases "length xs \<le> 1")
  case True
  then show ?thesis by (cases xs) (auto simp: py_sorted_def)
qed (simp add: py_sorted_def)

end
