(* ===== verification/Speedtest_Runner.thy ===== *)
theory Speedtest_Runner
  imports Db_Facts Py_Text
begin

section \<open>speedtest_runner.py: the speed test\<close>

text \<open>
  \<open>daemon/src/omnia_daemon/speedtest_runner.py\<close>. What the library answers, the dict of
  \<open>st.results.dict()\<close> or what any of its four calls raises, is a parameter: \<open>None\<close> is a key that is
  not there. The row of the database has the fields of \<open>SpeedtestOutcome\<close>.
\<close>

record speedtest_server =
  ss_name :: "string option"
  ss_id :: "string option"

record speedtest_dict =
  sd_download :: "rat option"
  sd_upload :: "rat option"
  sd_ping :: "rat option"
  sd_server :: "speedtest_server option"

definition required :: "string \<Rightarrow> 'a option \<Rightarrow> 'a result" where
  \<comment> \<open>\<open>results[key]\<close>\<close>
  "required k v = (case v of None \<Rightarrow> Inl (KeyError k) | Some x \<Rightarrow> Inr x)"

definition failed_outcome :: "timestamp \<Rightarrow> exn \<Rightarrow> speedtest_row" where
  "failed_outcome ts e = \<lparr>st_ts = ts, st_success = False, st_download_mbps = None, st_upload_mbps = None,
     st_ping_ms = None, st_server_name = None, st_server_id = None, st_error = Some (exn_text e)\<rparr>"

definition read_results :: "timestamp \<Rightarrow> speedtest_dict \<Rightarrow> speedtest_row result" where
  "read_results ts r = (let server = (case sd_server r of None \<Rightarrow> \<lparr>ss_name = None, ss_id = None\<rparr> | Some s \<Rightarrow> s) in
     case required ''download'' (sd_download r) of Inl e \<Rightarrow> Inl e
     | Inr d \<Rightarrow> (case required ''upload'' (sd_upload r) of Inl e \<Rightarrow> Inl e
     | Inr u \<Rightarrow> (case required ''ping'' (sd_ping r) of Inl e \<Rightarrow> Inl e
     | Inr p \<Rightarrow> Inr \<lparr>st_ts = ts, st_success = True, st_download_mbps = Some (d / 1000000),
         st_upload_mbps = Some (u / 1000000), st_ping_ms = Some p, st_server_name = ss_name server,
         st_server_id = ss_id server, st_error = None\<rparr>)))"

definition run_speedtest_blocking :: "speedtest_dict result \<Rightarrow> timestamp \<Rightarrow> speedtest_row" where
  "run_speedtest_blocking lib ts = (case lib of Inl e \<Rightarrow> failed_outcome ts e
     | Inr r \<Rightarrow> (case read_results ts r of Inl e \<Rightarrow> failed_outcome ts e | Inr row \<Rightarrow> row))"

definition run_speedtest :: "speedtest_dict result \<Rightarrow> timestamp \<Rightarrow> database \<Rightarrow> database \<times> speedtest_row" where
  "run_speedtest lib ts db = (let outcome = run_speedtest_blocking lib ts
     in (insert_speedtest_result outcome db, outcome))"

subsection \<open>Facts\<close>

text \<open>A row is either a complete measurement without an error or an error without a measurement.\<close>

definition outcome_ok :: "speedtest_row \<Rightarrow> bool" where
  "outcome_ok r \<longleftrightarrow> (if st_success r
     then st_error r = None \<and> \<not> Option.is_none (st_download_mbps r) \<and> \<not> Option.is_none (st_upload_mbps r)
       \<and> \<not> Option.is_none (st_ping_ms r)
     else st_error r \<noteq> None \<and> st_download_mbps r = None \<and> st_upload_mbps r = None \<and> st_ping_ms r = None
       \<and> st_server_name r = None \<and> st_server_id r = None)"

lemma failed_outcome_ok: "outcome_ok (failed_outcome ts e)"
  by (simp add: outcome_ok_def failed_outcome_def)

lemma read_results_ok: "read_results ts r = Inr row \<Longrightarrow> outcome_ok row \<and> st_success row \<and> st_ts row = ts"
  by (auto simp: read_results_def Let_def outcome_ok_def split: sum.splits)

lemma outcome_always_ok: "outcome_ok (run_speedtest_blocking lib ts) \<and> st_ts (run_speedtest_blocking lib ts) = ts"
  using read_results_ok by (auto simp: run_speedtest_blocking_def failed_outcome_ok split: sum.split)
    (auto simp: failed_outcome_def)

lemma outcome_success_iff:
  "st_success (run_speedtest_blocking lib ts) \<longleftrightarrow>
     (\<exists>r. lib = Inr r \<and> sd_download r \<noteq> None \<and> sd_upload r \<noteq> None \<and> sd_ping r \<noteq> None)"
  by (auto simp: run_speedtest_blocking_def failed_outcome_def read_results_def required_def Let_def
      split: sum.split option.splits)

end
