(* ===== verification/Socket_Server.thy ===== *)
theory Socket_Server
  imports Alerts Key_Fingerprint Extra_Tools Speedtest_Runner
begin

section \<open>socket_server.py: the local API\<close>

text \<open>
  \<open>daemon/src/omnia_daemon/socket_server.py\<close>. The server's state is the record \<open>server\<close>: the objects
  it was given (the database and the alert manager's effects in \<open>world\<close>, the key store), the two
  caches, the connected clients, the commands it had the system run and the number of speed test
  tasks it created. A client is its subscriptions, the lines written to it so far and whether its
  peer is gone. What a handler reads from outside (clock, logged-in users, key file, tools,
  \<open>config.features\<close>) is the record \<open>server_env\<close>. A turn of \<open>_handle_client\<close> is \<open>handle_input\<close>; it
  is atomic, because the handlers only wait while a reply drains. A line is ASCII text, or bytes
  that do not decode, or longer than the reader's limit.
\<close>

subsection \<open>State\<close>

record client =
  cl_subs :: "json list"
  cl_out :: "string list"
  cl_gone :: bool

record server =
  sv_world :: world
  sv_keys :: key_store
  sv_latest :: json
  sv_extra :: json
  sv_clients :: "(nat \<times> client) list"
  sv_ran :: "string list list"
  sv_tasks :: nat

record server_env =
  se_ft :: "rat \<Rightarrow> string"
  se_features :: features_config
  se_users :: "utmp_user list"
  se_now :: timestamp
  se_file :: file_view
  se_exec :: exec

definition new_client :: client where
  "new_client = \<lparr>cl_subs = [], cl_out = [], cl_gone = False\<rparr>"

definition new_server :: "world \<Rightarrow> key_store \<Rightarrow> server" where
  "new_server w ks = \<lparr>sv_world = w, sv_keys = ks, sv_latest = JObj [],
     sv_extra = JObj [(''available'', JBool False)], sv_clients = [], sv_ran = [], sv_tasks = 0\<rparr>"

definition set_latest_snapshot :: "json \<Rightarrow> server \<Rightarrow> server" where
  "set_latest_snapshot snap sv = sv\<lparr>sv_latest := snap\<rparr>"

definition set_extra_status_cache :: "json \<Rightarrow> server \<Rightarrow> server" where
  "set_extra_status_cache st sv = sv\<lparr>sv_extra := st\<rparr>"

definition sv_db :: "server \<Rightarrow> database" where
  "sv_db sv = w_db (sv_world sv)"

definition with_sv_db :: "database \<Rightarrow> server \<Rightarrow> server" where
  "with_sv_db db sv = sv\<lparr>sv_world := (sv_world sv)\<lparr>w_db := db\<rparr>\<rparr>"

definition map_clients :: "(nat \<Rightarrow> client \<Rightarrow> client) \<Rightarrow> server \<Rightarrow> server" where
  "map_clients f sv = sv\<lparr>sv_clients := map (\<lambda>(i, c). (i, f i c)) (sv_clients sv)\<rparr>"

definition at_client :: "nat \<Rightarrow> (client \<Rightarrow> client) \<Rightarrow> server \<Rightarrow> server" where
  "at_client cid f = map_clients (\<lambda>i c. if i = cid then f c else c)"

subsection \<open>Sending\<close>

definition frame :: "(rat \<Rightarrow> string) \<Rightarrow> json \<Rightarrow> string" where
  "frame ft msg = dumps ft msg @ [CHR 0x0A]"

definition send_to :: "(rat \<Rightarrow> string) \<Rightarrow> json \<Rightarrow> client \<Rightarrow> client" where
  \<comment> \<open>\<open>ClientConnection.send\<close>: a connection that is gone swallows the message\<close>
  "send_to ft msg c = (if cl_gone c then c else c\<lparr>cl_out := cl_out c @ [frame ft msg]\<rparr>)"

definition event_msg :: "string \<Rightarrow> json \<Rightarrow> json" where
  "event_msg event data = JObj [(''event'', JStr event), (''data'', data)]"

definition broadcast :: "(rat \<Rightarrow> string) \<Rightarrow> string \<Rightarrow> json \<Rightarrow> server \<Rightarrow> server" where
  "broadcast ft event data = map_clients (\<lambda>i c.
     if JStr event \<in> set (cl_subs c) then send_to ft (event_msg event data) c else c)"

subsection \<open>Rows as dicts\<close>

definition login_event_json :: "int \<times> login_event \<Rightarrow> json" where
  "login_event_json ir = (case ir of (i, r) \<Rightarrow> JObj [(''id'', JInt i), (''ts'', JFloat (le_ts r)),
     (''event_type'', JStr (le_event_type r)), (''username'', of_option JStr (le_username r)),
     (''source_ip'', of_option JStr (le_source_ip r)), (''source_port'', of_option JInt (le_source_port r)),
     (''key_type'', of_option JStr (le_key_type r)), (''key_fingerprint'', of_option JStr (le_key_fingerprint r)),
     (''key_label'', of_option JStr (le_key_label r)), (''detail'', of_option JStr (le_detail r))])"

definition event_dict :: "login_event \<Rightarrow> json" where
  \<comment> \<open>the dict \<open>run_ssh_ingest\<close> hands to \<open>on_event\<close>: no id yet\<close>
  "event_dict r = JObj [(''ts'', JFloat (le_ts r)),
     (''event_type'', JStr (le_event_type r)), (''username'', of_option JStr (le_username r)),
     (''source_ip'', of_option JStr (le_source_ip r)), (''source_port'', of_option JInt (le_source_port r)),
     (''key_type'', of_option JStr (le_key_type r)), (''key_fingerprint'', of_option JStr (le_key_fingerprint r)),
     (''key_label'', of_option JStr (le_key_label r)), (''detail'', of_option JStr (le_detail r))]"

definition outcome_fields :: "speedtest_row \<Rightarrow> (string \<times> json) list" where
  "outcome_fields r = [(''download_mbps'', of_option JFloat (st_download_mbps r)),
     (''upload_mbps'', of_option JFloat (st_upload_mbps r)), (''ping_ms'', of_option JFloat (st_ping_ms r)),
     (''server_name'', of_option JStr (st_server_name r)), (''server_id'', of_option JStr (st_server_id r)),
     (''error'', of_option JStr (st_error r))]"

definition speedtest_json :: "int \<times> speedtest_row \<Rightarrow> json" where
  "speedtest_json ir = (case ir of (i, r) \<Rightarrow> JObj ([(''id'', JInt i), (''ts'', JFloat (st_ts r)),
     (''success'', JInt (if st_success r then 1 else 0))] @ outcome_fields r))"

definition outcome_json :: "speedtest_row \<Rightarrow> json" where
  \<comment> \<open>\<open>outcome.__dict__\<close>\<close>
  "outcome_json r = JObj ([(''ts'', JFloat (st_ts r)), (''success'', JBool (st_success r))] @ outcome_fields r)"

definition snapshot_row_json :: "(rat \<Rightarrow> string) \<Rightarrow> int \<times> snapshot_row \<Rightarrow> json" where
  "snapshot_row_json ft ir = (case ir of (i, r) \<Rightarrow> JObj [(''id'', JInt i), (''ts'', JFloat (rs_ts r)),
     (''cpu_percent'', JFloat (rs_cpu_percent r)), (''ram_percent'', JFloat (rs_ram_percent r)),
     (''ram_used_bytes'', JInt (rs_ram_used_bytes r)), (''ram_total_bytes'', JInt (rs_ram_total_bytes r)),
     (''swap_percent'', JFloat (rs_swap_percent r)), (''net_rx_bytes_per_sec'', JFloat (rs_net_rx_bytes_per_sec r)),
     (''net_tx_bytes_per_sec'', JFloat (rs_net_tx_bytes_per_sec r)),
     (''disk_json'', JStr (dumps ft (rs_disk_json r))), (''gpu_json'', JStr (dumps ft (rs_gpu_json r)))])"

definition alert_json :: "int \<times> alert_row \<Rightarrow> json" where
  "alert_json ir = (case ir of (i, r) \<Rightarrow> JObj [(''id'', JInt i), (''ts'', JFloat (ar_ts r)),
     (''alert_type'', JStr (ar_alert_type r)), (''detail'', JStr (ar_detail r))])"

definition session_json :: "ssh_session \<Rightarrow> json" where
  "session_json s = JObj [(''username'', JStr (ss_username s)), (''source_ip'', JStr (ss_source_ip s)),
     (''terminal'', of_option JStr (ss_terminal s)), (''started_ts'', JFloat (ss_started_ts s)),
     (''duration_seconds'', JFloat (ss_duration_seconds s)), (''key_type'', of_option JStr (ss_key_type s)),
     (''key_fingerprint'', of_option JStr (ss_key_fingerprint s)), (''key_label'', of_option JStr (ss_key_label s))]"

definition key_entry_json :: "key_entry \<Rightarrow> json" where
  "key_entry_json k = JObj [(''key_type'', JStr (ke_type k)), (''fingerprint'', JStr (ke_fingerprint k)),
     (''comment'', JStr (ke_comment k))]"

subsection \<open>The command handlers\<close>

definition args_get :: "json \<Rightarrow> string \<Rightarrow> json \<Rightarrow> json result" where
  \<comment> \<open>\<open>args.get(key, default)\<close>\<close>
  "args_get args k d = (if is_obj args then Inr (case obj_get args k of Some v \<Rightarrow> v | None \<Rightarrow> d)
     else Inl (AttributeError ''object has no attribute get''))"

definition int_arg :: "json \<Rightarrow> string \<Rightarrow> int \<Rightarrow> int result" where
  "int_arg args k d = (case args_get args k (JInt d) of Inl e \<Rightarrow> Inl e | Inr v \<Rightarrow> py_int_of v)"

type_synonym handler = "server_env \<Rightarrow> nat \<Rightarrow> json \<Rightarrow> server \<Rightarrow> server \<times> json result"

definition cmd_ping :: handler where
  "cmd_ping env cid args sv = (sv, Inr (JObj [(''pong'', JBool True)]))"

definition subs_of :: "nat \<Rightarrow> server \<Rightarrow> json list" where
  "subs_of cid sv = (case map_of (sv_clients sv) cid of Some c \<Rightarrow> cl_subs c | None \<Rightarrow> [])"

definition change_subs :: "(json list \<Rightarrow> json list \<Rightarrow> json list) \<Rightarrow> handler" where
  "change_subs op env cid args sv = (case args_get args ''streams'' (JArr []) of
      Inl e \<Rightarrow> (sv, Inl e)
    | Inr streams \<Rightarrow> (case py_set streams of
        Inl e \<Rightarrow> (sv, Inl e)
      | Inr xs \<Rightarrow> (let sv' = at_client cid (\<lambda>c. c\<lparr>cl_subs := op (cl_subs c) xs\<rparr>) sv in
          (sv', case py_sorted (subs_of cid sv') of Inl e \<Rightarrow> Inl e
            | Inr ys \<Rightarrow> Inr (JObj [(''subscribed'', JArr ys)])))))"

definition cmd_subscribe :: handler where
  "cmd_subscribe = change_subs set_union"

definition cmd_unsubscribe :: handler where
  "cmd_unsubscribe = change_subs set_minus"

definition cmd_get_snapshot :: handler where
  "cmd_get_snapshot env cid args sv = (sv, Inr (JObj [(''metrics'', sv_latest sv),
     (''active_sessions'', JArr (map session_json (active_ssh_sessions (se_users env) (se_now env) (sv_db sv))))]))"

definition listing :: "string \<Rightarrow> ('a \<Rightarrow> json) \<Rightarrow> 'a list result \<Rightarrow> json result" where
  "listing name to_json rows = (case rows of Inl e \<Rightarrow> Inl e | Inr rs \<Rightarrow> Inr (JObj [(name, JArr (map to_json rs))]))"

definition cmd_get_login_history :: handler where
  "cmd_get_login_history env cid args sv = (sv, case int_arg args ''limit'' 100 of Inl e \<Rightarrow> Inl e
     | Inr n \<Rightarrow> listing ''events'' login_event_json (recent_login_events n (sv_db sv)))"

definition cmd_get_speedtest_history :: handler where
  "cmd_get_speedtest_history env cid args sv = (sv, case int_arg args ''limit'' 50 of Inl e \<Rightarrow> Inl e
     | Inr n \<Rightarrow> listing ''results'' speedtest_json (recent_speedtest_results n (sv_db sv)))"

definition cmd_run_speedtest :: handler where
  "cmd_run_speedtest env cid args sv = (sv\<lparr>sv_tasks := sv_tasks sv + 1\<rparr>, Inr (JObj [(''started'', JBool True)]))"

definition snapshots_within :: "timestamp \<Rightarrow> py_float \<Rightarrow> database \<Rightarrow> (int \<times> snapshot_row) list" where
  \<comment> \<open>\<open>resource_snapshots_since(time.time() - x)\<close>; SQLite reads a NaN as NULL, which no row reaches\<close>
  "snapshots_within now x db = (case x of
      Finite s \<Rightarrow> resource_snapshots_since (now - s) db
    | PosInf \<Rightarrow> sort_key (rs_ts \<circ> snd) (tb_rows (resource_snapshots db))
    | NegInf \<Rightarrow> []
    | NaN \<Rightarrow> [])"

definition cmd_get_resource_history :: handler where
  "cmd_get_resource_history env cid args sv = (sv, case args_get args ''since_seconds'' (JInt 3600) of
      Inl e \<Rightarrow> Inl e
    | Inr v \<Rightarrow> (case py_float_of v of Inl e \<Rightarrow> Inl e
        | Inr x \<Rightarrow> listing ''snapshots'' (snapshot_row_json (se_ft env))
            (Inr (snapshots_within (se_now env) x (sv_db sv)))))"

definition cmd_get_keys :: handler where
  "cmd_get_keys env cid args sv = (case all_keys (se_file env) (sv_keys sv) of
     (ks, r) \<Rightarrow> (sv\<lparr>sv_keys := ks\<rparr>, listing ''keys'' key_entry_json r))"

definition cmd_get_extra_status :: handler where
  "cmd_get_extra_status env cid args sv = (sv, case sv_extra sv of
      JObj kvs \<Rightarrow> Inr (JObj (AList.update ''dangerous_actions_enabled''
        (JBool (ft_allow_service_restart (se_features env) \<or> ft_allow_reboot (se_features env))) kvs))
    | _ \<Rightarrow> Inl (TypeError ''object is not iterable''))"

definition cmd_get_alerts :: handler where
  "cmd_get_alerts env cid args sv = (sv, case int_arg args ''limit'' 50 of Inl e \<Rightarrow> Inl e
     | Inr n \<Rightarrow> listing ''alerts'' alert_json (recent_alerts n (sv_db sv)))"

definition note_run :: "string list \<Rightarrow> server \<Rightarrow> server" where
  "note_run cmd sv = sv\<lparr>sv_ran := sv_ran sv @ [cmd]\<rparr>"

definition cmd_restart_service :: handler where
  "cmd_restart_service env cid args sv = (if \<not> ft_allow_service_restart (se_features env)
     then (sv, Inl (PermissionError ''service restart is disabled in config (features.allow_service_restart)''))
     else (case subscript args ''unit'' of
        Inl e \<Rightarrow> (sv, Inl e)
      | Inr (JStr unit) \<Rightarrow> (note_run (restart_cmd unit) sv, case restart_service (se_exec env) unit of
            Inl e \<Rightarrow> Inl e
          | Inr b \<Rightarrow> Inr (JObj [(''restarted'', JBool b), (''unit'', JStr unit)]))
      | Inr _ \<Rightarrow> (sv, Inl (TypeError ''expected str, bytes or os.PathLike object''))))"

definition cmd_reboot_system :: handler where
  "cmd_reboot_system env cid args sv = (if \<not> ft_allow_reboot (se_features env)
     then (sv, Inl (PermissionError ''reboot is disabled in config (features.allow_reboot)''))
     else (note_run reboot_cmd sv, case reboot_system (se_exec env) of
            Inl e \<Rightarrow> Inl e | Inr b \<Rightarrow> Inr (JObj [(''rebooting'', JBool b)])))"

definition COMMANDS :: "(string \<times> handler) list" where
  "COMMANDS = [(''ping'', cmd_ping), (''subscribe'', cmd_subscribe), (''unsubscribe'', cmd_unsubscribe),
     (''get_snapshot'', cmd_get_snapshot), (''get_login_history'', cmd_get_login_history),
     (''get_speedtest_history'', cmd_get_speedtest_history), (''run_speedtest'', cmd_run_speedtest),
     (''get_resource_history'', cmd_get_resource_history), (''get_keys'', cmd_get_keys),
     (''get_extra_status'', cmd_get_extra_status), (''get_alerts'', cmd_get_alerts),
     (''restart_service'', cmd_restart_service), (''reboot_system'', cmd_reboot_system)]"

subsection \<open>Dispatching\<close>

definition error_reply :: "json \<Rightarrow> string \<Rightarrow> json" where
  "error_reply req_id err = JObj [(''ok'', JBool False), (''id'', req_id), (''error'', JStr err)]"

definition reply :: "json \<Rightarrow> json result \<Rightarrow> json" where
  "reply req_id r = (case r of
      Inl e \<Rightarrow> error_reply req_id (exn_text e)
    | Inr data \<Rightarrow> JObj [(''ok'', JBool True), (''id'', req_id), (''data'', data)])"

definition find_handler :: "json \<Rightarrow> handler option" where
  \<comment> \<open>\<open>_COMMANDS.get(cmd)\<close> on a hashable\<close>
  "find_handler cmd = (case cmd of JStr s \<Rightarrow> map_of COMMANDS s | _ \<Rightarrow> None)"

definition request_args :: "json \<Rightarrow> json" where
  "request_args request = (let a = field request ''args'' in if truthy a then a else JObj [])"

definition dispatch :: "server_env \<Rightarrow> nat \<Rightarrow> json \<Rightarrow> server \<Rightarrow> server \<times> exn option" where
  "dispatch env cid request sv = (if \<not> is_obj request
     then (sv, Some (AttributeError ''object has no attribute get''))
     else let cmd = field request ''cmd''; req_id = field request ''id'' in
       if \<not> hashable cmd then (sv, Some (TypeError ''unhashable type''))
       else (case find_handler cmd of
           None \<Rightarrow> (at_client cid (send_to (se_ft env)
             (error_reply req_id (''unknown_cmd:'' @ scalar_text (se_ft env) cmd))) sv, None)
         | Some h \<Rightarrow> (case h env cid (request_args request) sv of (sv', r) \<Rightarrow>
             (at_client cid (send_to (se_ft env) (reply req_id r)) sv', None))))"

datatype client_input = Line string | Undecodable | TooLong | Eof | Reset exn

definition invalid_json :: json where
  "invalid_json = JObj [(''ok'', JBool False), (''error'', JStr ''invalid_json'')]"

definition close_client :: "nat \<Rightarrow> server \<Rightarrow> server" where
  "close_client cid sv = sv\<lparr>sv_clients := filter (\<lambda>(i, c). i \<noteq> cid) (sv_clients sv)\<rparr>"

definition end_client :: "nat \<Rightarrow> exn option \<Rightarrow> server \<Rightarrow> server \<times> exn option" where
  \<comment> \<open>the \<open>except\<close> and \<open>finally\<close> of \<open>_handle_client\<close>: what still escapes the coroutine\<close>
  "end_client cid e sv = (close_client cid sv, case e of None \<Rightarrow> None
     | Some x \<Rightarrow> if is_os_error x then None else Some x)"

definition handle_input :: "server_env \<Rightarrow> nat \<Rightarrow> client_input \<Rightarrow> server \<Rightarrow> server \<times> exn option" where
  "handle_input env cid inp sv = (case inp of
      Line l \<Rightarrow> if l = [] then end_client cid None sv
        else (case loads l of
          Inl (JSONDecodeError _) \<Rightarrow> (at_client cid (send_to (se_ft env) invalid_json) sv, None)
        | Inl e \<Rightarrow> end_client cid (Some e) sv
        | Inr request \<Rightarrow> (case dispatch env cid request sv of
            (sv', None) \<Rightarrow> (sv', None)
          | (sv', Some e) \<Rightarrow> end_client cid (Some e) sv'))
    | Undecodable \<Rightarrow> end_client cid (Some UnicodeDecodeError) sv
    | TooLong \<Rightarrow> end_client cid (Some (ValueError ''Separator is found, but chunk is longer than limit'')) sv
    | Eof \<Rightarrow> end_client cid None sv
    | Reset e \<Rightarrow> end_client cid (Some e) sv)"

definition accept_client :: "nat \<Rightarrow> server \<Rightarrow> server" where
  \<comment> \<open>a new connection with a number not in use\<close>
  "accept_client cid sv = sv\<lparr>sv_clients := sv_clients sv @ [(cid, new_client)]\<rparr>"

definition run_speedtest_and_broadcast ::
  "(rat \<Rightarrow> string) \<Rightarrow> speedtest_dict result \<Rightarrow> timestamp \<Rightarrow> server \<Rightarrow> server" where
  \<comment> \<open>the task of \<open>run_speedtest\<close>, when it runs\<close>
  "run_speedtest_and_broadcast ft lib ts sv = (case run_speedtest lib ts (sv_db sv) of
     (db, outcome) \<Rightarrow> broadcast ft ''speedtest_result'' (outcome_json outcome) (with_sv_db db sv))"

end
