(* ===== verification/Json_Facts.thy ===== *)
theory Json_Facts
  imports Py_Json
begin

section \<open>The JSON decoder inverts the encoder\<close>

text \<open>
  \<open>loads (dumps j) = j\<close> for every value whose objects have distinct keys, whatever follows the
  text, and the text of a value is one line: the two facts the line protocol of the socket rests
  on. The text of a float is a parameter; \<open>float_ok\<close> is what is asked of it.
\<close>

definition delim :: "string \<Rightarrow> bool" where
  "delim r \<longleftrightarrow> r = [] \<or> hd r \<in> set '',] '' \<or> hd r = CHR 0x7D \<or> hd r = CHR 0x0A"

definition num_start :: "char \<Rightarrow> bool" where
  "num_start c \<longleftrightarrow> is_digit c \<or> c = CHR ''-''"

definition float_ok :: "(rat \<Rightarrow> string) \<Rightarrow> rat \<Rightarrow> bool" where
  "float_ok ft x \<longleftrightarrow> ft x \<noteq> [] \<and> num_start (hd (ft x)) \<and> CHR 0x0A \<notin> set (ft x)
     \<and> (\<forall>r. delim r \<longrightarrow> scan_number (ft x @ r) = Some (JFloat x, r))"

fun json_ok :: "(rat \<Rightarrow> string) \<Rightarrow> json \<Rightarrow> bool" where
  "json_ok ft (JFloat x) = float_ok ft x"
| "json_ok ft (JArr xs) = (\<forall>x\<in>set xs. json_ok ft x)"
| "json_ok ft (JObj kvs) = (distinct (map fst kvs) \<and> (\<forall>(k, v)\<in>set kvs. json_ok ft v))"
| "json_ok ft _ = True"

subsection \<open>Strings\<close>

lemma of_char_less: "(of_char c :: nat) < 256"
  using nat_of_char_less_256 [of c] by simp

lemma of_char_div: "(of_char c :: nat) div 16 < 16"
  by (rule less_mult_imp_div_less) (use of_char_less [of c] in simp)

lemma hex_val_chr: "d < 16 \<Longrightarrow> hex_val (hex_chr d) = Some d"
  by (simp add: hex_val_def hex_chr_def Let_def)

lemma hex4_escape: "hex4 CHR ''0'' CHR ''0'' (hex_chr (of_char c div 16)) (hex_chr (of_char c mod 16)) = Some c"
proof -
  have "(of_char c :: nat) div 16 < 16" by (rule of_char_div)
  moreover have "16 * (of_char c div 16) + of_char c mod 16 = (of_char c :: nat)" by simp
  ultimately show ?thesis
    by (simp add: hex4_def hex_val_chr) (simp add: hex_val_def)
qed

lemma scan_escape: "scan_string (escape_char c @ t) = map_option (apfst (Cons c)) (scan_string t)"
proof -
  consider "c = CHR 0x22" | "c = CHR 0x5C" | "c \<in> {CHR 0x08, CHR 0x0C, CHR 0x0A, CHR 0x0D, CHR 0x09}"
    | "c \<noteq> CHR 0x22" "c \<noteq> CHR 0x5C" "32 \<le> (of_char c :: nat)" "(of_char c :: nat) \<le> 126"
    | "c \<noteq> CHR 0x22" "c \<noteq> CHR 0x5C" "\<not> (32 \<le> (of_char c :: nat) \<and> (of_char c :: nat) \<le> 126)"
      "c \<notin> {CHR 0x08, CHR 0x0C, CHR 0x0A, CHR 0x0D, CHR 0x09}"
    by blast
  then show ?thesis
  proof cases
    case 1
    then show ?thesis by (simp add: escape_char_def unescape_def)
  next
    case 2
    then show ?thesis by (simp add: escape_char_def unescape_def)
  next
    case 3
    then show ?thesis by (auto simp: escape_char_def unescape_def)
  next
    case 4
    then show ?thesis by (simp add: escape_char_def)
  next
    case 5
    have n: "(of_char c :: nat) \<noteq> 8 \<and> (of_char c :: nat) \<noteq> 12 \<and> (of_char c :: nat) \<noteq> 10
        \<and> (of_char c :: nat) \<noteq> 13 \<and> (of_char c :: nat) \<noteq> 9"
    proof -
      have "of_char CHR 0x08 = (8::nat)" "of_char CHR 0x0C = (12::nat)" "of_char CHR 0x0A = (10::nat)"
        "of_char CHR 0x0D = (13::nat)" "of_char CHR 0x09 = (9::nat)" by simp_all
      then show ?thesis using 5(4) of_char_eq_iff by (metis insertCI)
    qed
    with 5 have e: "escape_char c = CHR 0x5C # ''u00'' @ [hex_chr (of_char c div 16), hex_chr (of_char c mod 16)]"
      by (auto simp: escape_char_def Let_def)
    show ?thesis by (simp add: e hex4_escape)
  qed
qed

lemma scan_string_quote: "scan_string (concat (map escape_char s) @ CHR 0x22 # r) = Some (s, r)"
proof (induction s)
  case (Cons c s)
  then show ?case by (simp only: concat.simps list.map append_assoc scan_escape) simp
qed simp

lemma decode_quote: "0 < n \<Longrightarrow> decode_value n (quote_str s @ r) = Some (JStr s, r)"
  by (cases n) (simp_all add: quote_str_def scan_string_quote)

subsection \<open>Numbers\<close>

lemma delim_not_digit: "delim r \<Longrightarrow> r = [] \<or> \<not> is_digit (hd r)"
  by (auto simp: delim_def is_digit_def)

lemma str_nat_first: "\<exists>c ds. str_nat n = c # ds \<and> is_digit c \<and> (c = CHR ''0'' \<longrightarrow> n = 0 \<and> ds = [])"
proof (induction n rule: str_nat.induct)
  case (1 n)
  show ?case
  proof (cases "n < 10")
    case True
    have "digit_chr n = CHR ''0'' \<Longrightarrow> n = 0"
      using digit_val_chr [OF True] by (auto simp: digit_val_def)
    then show ?thesis using True is_digit_chr [OF True] by (subst str_nat.simps) simp
  next
    case False
    with 1 obtain c ds where "str_nat (n div 10) = c # ds" "is_digit c"
      "c = CHR ''0'' \<longrightarrow> n div 10 = 0 \<and> ds = []" by blast
    with False show ?thesis by (subst str_nat.simps) auto
  qed
qed

lemma scan_int_str_nat: "delim r \<Longrightarrow> scan_int (str_nat n @ r) = Some (str_nat n, r)"
proof -
  assume r: "delim r"
  obtain c ds where c: "str_nat n = c # ds" "is_digit c" "c = CHR ''0'' \<longrightarrow> n = 0 \<and> ds = []"
    using str_nat_first by blast
  have "\<forall>x\<in>set (str_nat n). is_digit x" using str_nat_digits [of n] by (simp add: list_all_iff)
  then have "takeWhile is_digit (str_nat n @ r) = str_nat n" "dropWhile is_digit (str_nat n @ r) = r"
    using delim_not_digit [OF r] by (blast intro: takeWhile_split dropWhile_split)+
  then show ?thesis using c by (auto simp: scan_int_def)
qed

lemma scan_number_str_int: "delim r \<Longrightarrow> scan_number (str_int i @ r) = Some (JInt i, r)"
proof -
  assume r: "delim r"
  have fe: "scan_frac r = None" "scan_exp r = None"
    using r by (auto simp: delim_def scan_frac_def scan_exp_def split: list.split)
  obtain c ds where c: "str_nat (nat i) = c # ds" "is_digit c" using str_nat_first by blast
  then have "c \<noteq> CHR ''-''" by (auto simp: is_digit_def)
  moreover have "scan_int (c # ds @ r) = Some (c # ds, r)" "digits_val (c # ds) = nat i"
    using scan_int_str_nat [OF r, of "nat i"] digits_val_str_nat [of "nat i"] c by simp_all
  ultimately show ?thesis using c fe scan_int_str_nat [OF r]
    by (cases "i < 0") (simp_all add: scan_number_def str_int_def Let_def)
qed

lemma num_start_plain:
  "num_start c \<Longrightarrow> c \<noteq> CHR 0x22 \<and> c \<noteq> CHR 0x7B \<and> c \<noteq> CHR 0x5B \<and> c \<noteq> CHR ''n'' \<and> c \<noteq> CHR ''t''
    \<and> c \<noteq> CHR ''f'' \<and> \<not> is_json_space c \<and> c \<noteq> CHR 0x5D \<and> c \<noteq> CHR 0x7D"
  by (auto simp: num_start_def is_digit_def is_json_space_def)

lemma decode_number:
  assumes "s \<noteq> []" "num_start (hd s)" "0 < n"
  shows "decode_value n (s @ r) = scan_number (s @ r)"
proof -
  obtain c t m where "s = c # t" "n = Suc m" using assms by (cases s; cases n) auto
  with num_start_plain [of c] assms(2) show ?thesis by simp
qed

lemma str_int_start: "str_int i \<noteq> [] \<and> num_start (hd (str_int i))"
proof -
  obtain c ds where "str_nat (nat i) = c # ds" "is_digit c" using str_nat_first by blast
  then show ?thesis by (auto simp: str_int_def num_start_def)
qed

subsection \<open>Values\<close>

definition plain_start :: "string \<Rightarrow> bool" where
  "plain_start s \<longleftrightarrow> s \<noteq> [] \<and> \<not> is_json_space (hd s) \<and> hd s \<noteq> CHR 0x5D \<and> hd s \<noteq> CHR 0x7D"

lemma dumps_start: "json_ok ft j \<Longrightarrow> plain_start (dumps ft j)"
proof (cases j)
  case (JInt i)
  then show ?thesis using str_int_start [of i] num_start_plain [of "hd (str_int i)"] by (simp add: plain_start_def)
next
  case (JFloat x)
  moreover assume "json_ok ft j"
  ultimately show ?thesis using num_start_plain [of "hd (ft x)"] by (simp add: plain_start_def float_ok_def)
qed (auto simp: plain_start_def is_json_space_def quote_str_def)

lemma skip_space_plain: "plain_start s \<Longrightarrow> skip_space (s @ r) = s @ r"
  by (cases s) (simp_all add: plain_start_def)

lemma skip_one_space: "plain_start s \<Longrightarrow> skip_space (CHR '' '' # s @ r) = s @ r"
  using skip_space_plain [of s r] by (simp add: is_json_space_def)

lemma take1_plain: "plain_start s \<Longrightarrow> take 1 (s @ r) \<noteq> [CHR 0x5D] \<and> take 1 (s @ r) \<noteq> [CHR 0x7D]"
  by (cases s) (simp_all add: plain_start_def)

lemma join_Cons2: "join sep (x # y # zs) = x @ sep @ join sep (y # zs)"
  by simp

lemma plain_join: "plain_start x \<Longrightarrow> plain_start (join sep (x # xs))"
  by (cases xs; cases x) (auto simp: plain_start_def)

definition inverts :: "(rat \<Rightarrow> string) \<Rightarrow> json \<Rightarrow> bool" where
  "inverts ft j \<longleftrightarrow> (\<forall>n r. 2 * length (dumps ft j) \<le> Suc n \<longrightarrow> delim r \<longrightarrow>
     decode_value n (dumps ft j @ r) = Some (j, r))"

lemma delim_simps [simp]: "delim (CHR '','' # r)" "delim (CHR 0x5D # r)" "delim (CHR 0x7D # r)"
  by (simp_all add: delim_def)

lemma decode_items_dumps:
  assumes "\<forall>x\<in>set xs. inverts ft x \<and> plain_start (dumps ft x)" "xs \<noteq> []"
    "2 * length (join '', '' (map (dumps ft) xs)) \<le> n"
  shows "decode_items n (join '', '' (map (dumps ft) xs) @ CHR 0x5D # r) = Some (xs, r)"
  using assms
proof (induction xs arbitrary: n)
  case (Cons x xs)
  note inv = Cons.prems(1)
  have pos: "0 < length (dumps ft x)" using inv by (auto simp: plain_start_def)
  show ?case
  proof (cases xs)
    case Nil
    with Cons.prems pos obtain m where m: "n = Suc m" by (cases n) auto
    with Cons.prems Nil have "decode_value m (dumps ft x @ CHR 0x5D # r) = Some (x, CHR 0x5D # r)"
      by (simp add: inverts_def)
    with m Nil show ?thesis by (simp add: is_json_space_def)
  next
    case (Cons y ys)
    let ?j = "join '', '' (map (dumps ft) xs)"
    have j: "join '', '' (map (dumps ft) (x # xs)) = dumps ft x @ '', '' @ ?j"
      using Cons by simp
    obtain m where m: "n = Suc m" using Cons.prems(3) pos j by (cases n) auto
    have len: "2 * length ?j \<le> m" "2 * length (dumps ft x) \<le> Suc m"
      using Cons.prems(3) m j by auto
    have "decode_value m (dumps ft x @ CHR '','' # CHR '' '' # ?j @ CHR 0x5D # r)
        = Some (x, CHR '','' # CHR '' '' # ?j @ CHR 0x5D # r)"
      using inv len(2) by (simp add: inverts_def)
    moreover have "plain_start ?j" using inv Cons plain_join [of "dumps ft y"] by simp
    moreover have "decode_items m (?j @ CHR 0x5D # r) = Some (xs, r)"
      using Cons.IH [of m] inv Cons len(1) by auto
    ultimately show ?thesis using m j
      by (simp add: skip_one_space) (simp add: is_json_space_def skip_space_plain)
  qed
qed simp

definition member_text :: "(rat \<Rightarrow> string) \<Rightarrow> string \<times> json \<Rightarrow> string" where
  "member_text ft kv = quote_str (fst kv) @ '': '' @ dumps ft (snd kv)"

lemma quote_assoc: "quote_str s @ r = CHR 0x22 # concat (map escape_char s) @ CHR 0x22 # r"
  by (simp add: quote_str_def)

lemma plain_quote [simp]: "plain_start (quote_str k @ r)"
  by (simp add: plain_start_def quote_str_def is_json_space_def)

lemma plain_member [simp]: "plain_start (member_text ft kv)"
  by (simp add: member_text_def)

lemma decode_members_dumps:
  assumes "\<forall>kv\<in>set kvs. inverts ft (snd kv) \<and> plain_start (dumps ft (snd kv))" "kvs \<noteq> []"
    "2 * length (join '', '' (map (member_text ft) kvs)) \<le> n"
  shows "decode_members n (join '', '' (map (member_text ft) kvs) @ CHR 0x7D # r) = Some (kvs, r)"
  using assms
proof (induction kvs arbitrary: n)
  case (Cons kv kvs)
  obtain k v where kv: "kv = (k, v)" by (cases kv)
  note inv = Cons.prems(1)
  have pv: "plain_start (dumps ft v)" using inv kv by simp
  have one: "decode_members (Suc m) (member_text ft kv @ c # rest) =
      (if c = CHR 0x7D then Some ([(k, v)], rest)
       else map_option (apfst (Cons (k, v))) (decode_members m (skip_space rest)))"
    if "2 * length (dumps ft v) \<le> Suc m" "c = CHR 0x7D \<or> c = CHR '',''" for m c rest
  proof -
    have "decode_value m (dumps ft v @ c # rest) = Some (v, c # rest)"
      using inv kv that by (auto simp: inverts_def)
    then show ?thesis using that(2) pv kv
      by (auto simp: member_text_def quote_assoc scan_string_quote is_json_space_def skip_space_plain)
  qed
  have pos: "0 < length (member_text ft kv)" by (simp add: member_text_def)
  show ?case
  proof (cases kvs)
    case Nil
    with Cons.prems pos obtain m where m: "n = Suc m" by (cases n) auto
    have "2 * length (dumps ft v) \<le> Suc m"
      using Cons.prems(3) Nil m kv by (simp add: member_text_def)
    from one [OF this, of "CHR 0x7D" r] show ?thesis using m Nil kv by simp
  next
    case (Cons y ys)
    let ?j = "join '', '' (map (member_text ft) kvs)"
    have j: "join '', '' (map (member_text ft) (kv # kvs)) = member_text ft kv @ '', '' @ ?j"
      using Cons by simp
    obtain m where m: "n = Suc m" using Cons.prems(3) pos j by (cases n) auto
    have len: "2 * length ?j \<le> m" "2 * length (dumps ft v) \<le> Suc m"
    proof -
      have "length (join '', '' (map (member_text ft) (kv # kvs))) = length (member_text ft kv) + 2 + length ?j"
        unfolding j by simp
      moreover have "length (dumps ft v) \<le> length (member_text ft kv)" by (simp add: kv member_text_def)
      ultimately show "2 * length ?j \<le> m" "2 * length (dumps ft v) \<le> Suc m"
        using Cons.prems(3) m by linarith+
    qed
    have pj: "plain_start ?j" using Cons plain_join [of "member_text ft y"] by simp
    have "decode_members m (?j @ CHR 0x7D # r) = Some (kvs, r)"
      using Cons.IH [of m] inv Cons len(1) by auto
    then show ?thesis using one [OF len(2), of "CHR '',''" "CHR '' '' # ?j @ CHR 0x7D # r"] m j kv pj
      by (simp add: skip_space_plain) (simp add: is_json_space_def skip_space_plain)
  qed
qed simp

lemma dict_of_distinct: "distinct (map fst kvs) \<Longrightarrow> dict_of kvs = kvs"
proof (induction kvs rule: rev_induct)
  case (snoc x xs)
  have "AList.update k v d = d @ [(k, v)]" if "k \<notin> fst ` set d" for k v and d :: "(string \<times> json) list"
    using that by (induction d) auto
  with snoc show ?case by (cases x) (auto simp: dict_of_def)
qed (simp add: dict_of_def)

lemma dumps_obj: "dumps ft (JObj kvs) = CHR 0x7B # join '', '' (map (member_text ft) kvs) @ [CHR 0x7D]"
proof -
  have "(\<lambda>(k, v). quote_str k @ '': '' @ dumps ft v) = member_text ft"
    by (auto simp: member_text_def fun_eq_iff)
  then show ?thesis unfolding dumps.simps by simp
qed

lemma inverts_literal:
  "inverts ft JNull" "inverts ft (JBool b)" "inverts ft (JStr s)" "inverts ft (JInt i)"
  "float_ok ft x \<Longrightarrow> inverts ft (JFloat x)"
proof -
  show "inverts ft JNull" unfolding inverts_def by (clarify, case_tac n) auto
  show "inverts ft (JBool b)" unfolding inverts_def by (cases b) (clarify, case_tac n, simp, simp)+
  show "inverts ft (JStr s)" by (auto simp: inverts_def quote_str_def intro!: decode_quote [unfolded quote_str_def, simplified])
  have pos: "0 < n" if "2 * length s \<le> Suc n" "s \<noteq> []" for n and s :: string
    using that by (cases s) auto
  show "inverts ft (JInt i)"
    using str_int_start [of i] pos by (auto simp: inverts_def decode_number scan_number_str_int)
  show "inverts ft (JFloat x)" if "float_ok ft x"
    using that pos by (auto simp: inverts_def float_ok_def decode_number)
qed

lemma decode_array:
  assumes "\<forall>x\<in>set xs. inverts ft x \<and> plain_start (dumps ft x)" "2 * length (dumps ft (JArr xs)) \<le> Suc n"
  shows "decode_value n (dumps ft (JArr xs) @ r) = Some (JArr xs, r)"
proof -
  let ?j = "join '', '' (map (dumps ft) xs)"
  obtain m where m: "n = Suc m" using assms(2) by (cases n) auto
  show ?thesis
  proof (cases xs)
    case Nil
    then show ?thesis using m by (simp add: is_json_space_def)
  next
    case (Cons y ys)
    have p: "plain_start ?j" using assms(1) Cons plain_join [of "dumps ft y"] by simp
    have "decode_items m (?j @ CHR 0x5D # r) = Some (xs, r)"
      using decode_items_dumps [OF assms(1), of m r] Cons assms(2) m by auto
    then show ?thesis using m skip_space_plain [OF p] take1_plain [OF p] by simp
  qed
qed

lemma decode_object:
  assumes "\<forall>kv\<in>set kvs. inverts ft (snd kv) \<and> plain_start (dumps ft (snd kv))" "distinct (map fst kvs)"
    "2 * length (dumps ft (JObj kvs)) \<le> Suc n"
  shows "decode_value n (dumps ft (JObj kvs) @ r) = Some (JObj kvs, r)"
proof -
  let ?j = "join '', '' (map (member_text ft) kvs)"
  obtain m where m: "n = Suc m" using assms(3) by (cases n) auto
  have d: "dict_of kvs = kvs" using assms(2) by (simp add: dict_of_distinct)
  show ?thesis
  proof (cases kvs)
    case Nil
    then show ?thesis using m by (simp add: is_json_space_def)
  next
    case (Cons y ys)
    have p: "plain_start ?j" using Cons plain_join [of "member_text ft y"] by simp
    have "decode_members m (?j @ CHR 0x7D # r) = Some (kvs, r)"
      using decode_members_dumps [OF assms(1), of m r] Cons assms(3) m unfolding dumps_obj by auto
    then show ?thesis unfolding dumps_obj using m d skip_space_plain [OF p] take1_plain [OF p] by simp
  qed
qed

lemma dumps_inverts: "json_ok ft j \<Longrightarrow> inverts ft j"
proof (induction j)
  case (JArr xs)
  then have "\<forall>x\<in>set xs. inverts ft x \<and> plain_start (dumps ft x)" using dumps_start by auto
  from decode_array [OF this] show ?case by (simp only: inverts_def) blast
next
  case (JObj kvs)
  have "inverts ft (snd kv) \<and> plain_start (dumps ft (snd kv))" if "kv \<in> set kvs" for kv
    using JObj dumps_start that by (cases kv) (fastforce simp: prod_set_simps)
  then have "\<forall>kv\<in>set kvs. inverts ft (snd kv) \<and> plain_start (dumps ft (snd kv))" by blast
  moreover have "distinct (map fst kvs)" using JObj.prems by simp
  ultimately show ?case using decode_object by (simp only: inverts_def) blast
qed (simp_all add: inverts_literal)

lemma raw_decode_object:
  assumes "json_ok ft (JObj kvs)"
  shows "raw_decode (dumps ft (JObj kvs) @ r) = Some (JObj kvs, r)"
proof -
  have "inverts ft (snd kv) \<and> plain_start (dumps ft (snd kv))" if "kv \<in> set kvs" for kv
    using assms that dumps_start dumps_inverts by fastforce
  then show ?thesis using assms unfolding raw_decode_def by (intro decode_object) auto
qed

lemma raw_decode_dumps:
  assumes "json_ok ft j" "delim r"
  shows "raw_decode (dumps ft j @ r) = Some (j, r)"
proof -
  have "2 * length (dumps ft j) \<le> Suc (2 * length (dumps ft j @ r) + 2)" by simp
  with dumps_inverts [OF assms(1)] assms(2) show ?thesis
    unfolding raw_decode_def inverts_def by blast
qed

lemma loads_dumps:
  assumes "json_ok ft j" "r = [] \<or> r = [CHR 0x0A]"
  shows "loads (dumps ft j @ r) = Inr j"
proof -
  have "delim r" "skip_space r = []" using assms(2) by (auto simp: delim_def is_json_space_def)
  then show ?thesis
    using raw_decode_dumps [OF assms(1)] skip_space_plain [OF dumps_start [OF assms(1)]] by (simp add: loads_def)
qed

subsection \<open>One line\<close>

lemma escape_no_newline: "CHR 0x0A \<notin> set (escape_char c)"
proof -
  have "hex_chr d \<noteq> CHR 0x0A \<and> CHR 0x0A \<noteq> hex_chr d" if "d < 16" for d
  proof -
    have "hex_val CHR 0x0A = None" by (simp add: hex_val_def)
    with hex_val_chr [OF that] show ?thesis by (metis option.distinct(1))
  qed
  moreover have "(of_char c :: nat) div 16 < 16" by (rule of_char_div)
  moreover have "(of_char c :: nat) mod 16 < 16" by simp
  ultimately show ?thesis by (auto simp: escape_char_def Let_def)
qed

lemma quote_no_newline: "CHR 0x0A \<notin> set (quote_str s)"
  using escape_no_newline by (auto simp: quote_str_def)

lemma join_no_newline: "\<forall>x\<in>set xs. CHR 0x0A \<notin> set x \<Longrightarrow> CHR 0x0A \<notin> set (join '', '' xs)"
  by (induction xs rule: induct_list012) auto

lemma str_nat_no_newline: "CHR 0x0A \<notin> set (str_nat n)"
  using str_nat_digits [of n] by (auto simp: list_all_iff is_digit_def)

lemma dumps_one_line: "json_ok ft j \<Longrightarrow> CHR 0x0A \<notin> set (dumps ft j)"
proof (induction j)
  case (JInt i)
  then show ?case using str_nat_no_newline by (auto simp: str_int_def)
next
  case (JFloat x)
  then show ?case by (simp add: float_ok_def)
next
  case (JArr xs)
  then have "CHR 0x0A \<notin> set (join '', '' (map (dumps ft) xs))" by (intro join_no_newline) auto
  then show ?case by simp
next
  case (JObj kvs)
  then have "CHR 0x0A \<notin> set (join '', '' (map (member_text ft) kvs))"
    by (intro join_no_newline) (fastforce simp: member_text_def quote_no_newline)
  then show ?case unfolding dumps_obj by simp
qed (auto simp: quote_no_newline)

end
