(* ===== verification/Server_Facts.thy ===== *)
theory Server_Facts
  imports Socket_Server Json_Facts
begin

section \<open>What the server promises\<close>

text \<open>
  The contract every command handler keeps is the locale \<open>command\<close>: it writes to nobody, touches
  no other client and no table, and runs a command on the machine only if its flag is set. It is interpreted
  for the thirteen handlers; what is proved inside it is what \<open>dispatch\<close> does with any of them:
  one reply, on the connection that asked. \<open>server_step\<close> are the steps of the server between two
  waits, with the rest of the daemon's tasks.
\<close>

subsection \<open>Clients\<close>

definition client_at :: "nat \<Rightarrow> server \<Rightarrow> client option" where
  "client_at i sv = map_of (sv_clients sv) i"

definition client_ids :: "server \<Rightarrow> nat list" where
  "client_ids sv = map fst (sv_clients sv)"

named_theorems server_simps "reading the server's state"

lemma map_clients_at [server_simps]: "client_at i (map_clients f sv) = map_option (f i) (client_at i sv)"
proof -
  have "map_of (map (\<lambda>(i, c). (i, f i c)) xs) i = map_option (f i) (map_of xs i)" for xs
    by (induction xs) auto
  then show ?thesis by (simp add: client_at_def map_clients_def)
qed

lemma map_clients_frame [server_simps]:
  "client_ids (map_clients f sv) = client_ids sv" "sv_ran (map_clients f sv) = sv_ran sv"
  "sv_world (map_clients f sv) = sv_world sv" "sv_latest (map_clients f sv) = sv_latest sv"
  "sv_extra (map_clients f sv) = sv_extra sv" "sv_tasks (map_clients f sv) = sv_tasks sv"
  by (auto simp: map_clients_def client_ids_def comp_def case_prod_beta)

lemma at_client_at [server_simps]:
  "client_at i (at_client cid f sv) = (if i = cid then map_option f (client_at i sv) else client_at i sv)"
  by (simp add: at_client_def map_clients_at option.map_ident)

lemma at_client_frame [server_simps]:
  "client_ids (at_client cid f sv) = client_ids sv" "sv_ran (at_client cid f sv) = sv_ran sv"
  "sv_world (at_client cid f sv) = sv_world sv" "sv_latest (at_client cid f sv) = sv_latest sv"
  "sv_extra (at_client cid f sv) = sv_extra sv" "sv_tasks (at_client cid f sv) = sv_tasks sv"
  by (simp_all add: at_client_def map_clients_frame)

lemma client_at_same [server_simps]:
  "client_at i (sv\<lparr>sv_world := w\<rparr>) = client_at i sv" "client_at i (sv\<lparr>sv_keys := k\<rparr>) = client_at i sv"
  "client_at i (sv\<lparr>sv_tasks := n\<rparr>) = client_at i sv" "client_at i (sv\<lparr>sv_ran := r\<rparr>) = client_at i sv"
  "client_at i (sv\<lparr>sv_latest := j\<rparr>) = client_at i sv" "client_at i (sv\<lparr>sv_extra := j\<rparr>) = client_at i sv"
  by (simp_all add: client_at_def)

lemma send_to_fields [simp]: "cl_subs (send_to ft m c) = cl_subs c" "cl_gone (send_to ft m c) = cl_gone c"
  by (simp_all add: send_to_def)

lemma send_to_out: "cl_out (send_to ft m c) = cl_out c @ (if cl_gone c then [] else [frame ft m])"
  by (simp add: send_to_def)

lemma close_client_at [server_simps]:
  "client_at i (close_client cid sv) = (if i = cid then None else client_at i sv)"
proof -
  have "map_of (filter (\<lambda>(i, c). i \<noteq> cid) xs) i = (if i = cid then None else map_of xs i)" for xs :: "(nat \<times> client) list"
    by (induction xs) auto
  then show ?thesis by (simp add: client_at_def close_client_def)
qed

lemma close_client_frame [server_simps]:
  "sv_ran (close_client cid sv) = sv_ran sv" "sv_world (close_client cid sv) = sv_world sv"
  by (simp_all add: close_client_def)

subsection \<open>Broadcasts\<close>

lemma broadcast_at:
  "client_at i (broadcast ft event data sv) = map_option (\<lambda>c. if JStr event \<in> set (cl_subs c)
     then send_to ft (event_msg event data) c else c) (client_at i sv)"
  by (simp add: broadcast_def map_clients_at)

lemma broadcast_frame [server_simps]:
  "client_ids (broadcast ft event data sv) = client_ids sv" "sv_ran (broadcast ft event data sv) = sv_ran sv"
  "sv_world (broadcast ft event data sv) = sv_world sv"
  by (simp_all add: broadcast_def map_clients_frame)

subsection \<open>The contract of a handler\<close>

definition allowed :: "features_config \<Rightarrow> string list \<Rightarrow> bool" where
  \<comment> \<open>the commands that change the machine, each behind its own flag\<close>
  "allowed f cmd \<longleftrightarrow> (ft_allow_reboot f \<and> cmd = reboot_cmd)
     \<or> (ft_allow_service_restart f \<and> (\<exists>u. cmd = restart_cmd u))"

definition only_subs :: "client \<Rightarrow> client \<Rightarrow> bool" where
  "only_subs c c' \<longleftrightarrow> cl_out c' = cl_out c \<and> cl_gone c' = cl_gone c"

definition quiet_step :: "features_config \<Rightarrow> nat \<Rightarrow> server \<Rightarrow> server \<Rightarrow> bool" where
  "quiet_step f cid sv sv' \<longleftrightarrow> client_ids sv' = client_ids sv
     \<and> (\<forall>i. i \<noteq> cid \<longrightarrow> client_at i sv' = client_at i sv)
     \<and> rel_option only_subs (client_at cid sv) (client_at cid sv') \<and> sv_world sv' = sv_world sv
     \<and> (\<exists>cs. sv_ran sv' = sv_ran sv @ cs \<and> (\<forall>c\<in>set cs. allowed f c))"

lemma quiet_refl: "quiet_step f cid sv sv"
  by (auto simp: quiet_step_def only_subs_def intro: option.rel_refl)

lemma quiet_same:
  "sv_clients sv' = sv_clients sv \<Longrightarrow> sv_world sv' = sv_world sv \<Longrightarrow> sv_ran sv' = sv_ran sv @ cs \<Longrightarrow>
     \<forall>c\<in>set cs. allowed f c \<Longrightarrow> quiet_step f cid sv sv'"
  by (auto simp: quiet_step_def client_ids_def client_at_def only_subs_def intro: option.rel_refl)

locale command =
  fixes h :: handler
  assumes quiet: "h env cid args sv = (sv', r) \<Longrightarrow> quiet_step (se_features env) cid sv sv'"
begin

lemma answered:
  assumes "h env cid args sv = (sv', r)" "client_at cid sv = Some c"
  shows "\<exists>c'. client_at cid (at_client cid (send_to (se_ft env) (reply req_id r)) sv') = Some c'
    \<and> cl_out c' = cl_out c @ (if cl_gone c then [] else [frame (se_ft env) (reply req_id r)])
    \<and> (\<forall>i. i \<noteq> cid \<longrightarrow> client_at i (at_client cid (send_to (se_ft env) (reply req_id r)) sv') = client_at i sv)"
proof -
  note q = quiet [OF assms(1)]
  then obtain c1 where "client_at cid sv' = Some c1" "only_subs c c1"
    using assms(2) by (auto simp: quiet_step_def elim: option.rel_cases)
  then show ?thesis using q by (auto simp: server_simps quiet_step_def only_subs_def send_to_out)
qed

lemma gated:
  assumes "h env cid args sv = (sv', r)"
  shows "\<exists>cs. sv_ran (at_client cid (send_to ft m) sv') = sv_ran sv @ cs \<and> (\<forall>c\<in>set cs. allowed (se_features env) c)"
  using quiet [OF assms] by (simp add: quiet_step_def server_simps)

lemma ids_kept: "h env cid args sv = (sv', r) \<Longrightarrow> client_ids (at_client cid (send_to ft m) sv') = client_ids sv"
  using quiet by (simp add: quiet_step_def server_simps)

end

lemma quiet_at_subs: "quiet_step f cid sv (at_client cid (\<lambda>c. c\<lparr>cl_subs := g c\<rparr>) sv)"
proof -
  have "rel_option only_subs (client_at cid sv) (map_option (\<lambda>c. c\<lparr>cl_subs := g c\<rparr>) (client_at cid sv))"
    by (cases "client_at cid sv") (simp_all add: only_subs_def)
  then show ?thesis by (auto simp: quiet_step_def server_simps)
qed

lemma quiet_change_subs: "change_subs op env cid args sv = (sv', r) \<Longrightarrow> quiet_step f cid sv sv'"
  by (auto simp: change_subs_def Let_def split: sum.splits intro: quiet_refl quiet_at_subs)

interpretation ping: command cmd_ping
  by unfold_locales (auto simp: cmd_ping_def intro: quiet_refl)

interpretation subscribe: command cmd_subscribe
  by unfold_locales (auto simp: cmd_subscribe_def intro: quiet_change_subs)

interpretation unsubscribe: command cmd_unsubscribe
  by unfold_locales (auto simp: cmd_unsubscribe_def intro: quiet_change_subs)

interpretation get_snapshot: command cmd_get_snapshot
  by unfold_locales (auto simp: cmd_get_snapshot_def intro: quiet_refl)

interpretation get_login_history: command cmd_get_login_history
  by unfold_locales (auto simp: cmd_get_login_history_def intro: quiet_refl)

interpretation get_speedtest_history: command cmd_get_speedtest_history
  by unfold_locales (auto simp: cmd_get_speedtest_history_def intro: quiet_refl)

interpretation run_speedtest: command cmd_run_speedtest
  by unfold_locales (auto simp: cmd_run_speedtest_def intro: quiet_same [of _ _ "[]"])

interpretation get_resource_history: command cmd_get_resource_history
  by unfold_locales (auto simp: cmd_get_resource_history_def intro: quiet_refl)

interpretation get_keys: command cmd_get_keys
  by unfold_locales (auto simp: cmd_get_keys_def split: prod.splits intro: quiet_same [of _ _ "[]"])

interpretation get_extra_status: command cmd_get_extra_status
  by unfold_locales (auto simp: cmd_get_extra_status_def intro: quiet_refl)

interpretation get_alerts: command cmd_get_alerts
  by unfold_locales (auto simp: cmd_get_alerts_def intro: quiet_refl)

interpretation restart_service: command cmd_restart_service
proof
  fix env cid args sv sv' r
  assume h: "cmd_restart_service env cid args sv = (sv', r)"
  show "quiet_step (se_features env) cid sv sv'"
  proof (cases "sv' = sv")
    case False
    with h obtain u where "ft_allow_service_restart (se_features env)" "sv' = note_run (restart_cmd u) sv"
      by (auto simp: cmd_restart_service_def split: if_splits sum.splits json.splits)
    then show ?thesis
      by (intro quiet_same [of _ _ "[restart_cmd u]"]) (auto simp: note_run_def allowed_def)
  qed (simp add: quiet_refl)
qed

interpretation reboot_system: command cmd_reboot_system
proof
  fix env cid args sv sv' r
  assume h: "cmd_reboot_system env cid args sv = (sv', r)"
  show "quiet_step (se_features env) cid sv sv'"
  proof (cases "sv' = sv")
    case False
    with h have "ft_allow_reboot (se_features env)" "sv' = note_run reboot_cmd sv"
      by (auto simp: cmd_reboot_system_def split: if_splits)
    then show ?thesis
      by (intro quiet_same [of _ _ "[reboot_cmd]"]) (auto simp: note_run_def allowed_def)
  qed (simp add: quiet_refl)
qed

lemma commands_quiet: "(n, h) \<in> set COMMANDS \<Longrightarrow> command h"
  unfolding COMMANDS_def
  using ping.command_axioms subscribe.command_axioms unsubscribe.command_axioms get_snapshot.command_axioms
    get_login_history.command_axioms get_speedtest_history.command_axioms run_speedtest.command_axioms
    get_resource_history.command_axioms get_keys.command_axioms get_extra_status.command_axioms
    get_alerts.command_axioms restart_service.command_axioms reboot_system.command_axioms
  by auto

lemma find_handler_quiet: "find_handler cmd = Some h \<Longrightarrow> command h"
  by (auto simp: find_handler_def split: json.splits dest!: map_of_SomeD commands_quiet)

subsection \<open>One input\<close>

definition well_formed :: "json \<Rightarrow> bool" where
  \<comment> \<open>the requests \<open>_dispatch\<close> answers: an object whose \<open>cmd\<close> is a scalar\<close>
  "well_formed request \<longleftrightarrow> is_obj request \<and> hashable (field request ''cmd'')"

definition answers :: "json \<Rightarrow> json \<Rightarrow> bool" where
  \<comment> \<open>a reply that carries the request's id, and either data or an error\<close>
  "answers request m \<longleftrightarrow> obj_get m ''id'' = Some (field request ''id'')
     \<and> (obj_get m ''ok'' = Some (JBool True) \<and> obj_get m ''data'' \<noteq> None
       \<or> obj_get m ''ok'' = Some (JBool False) \<and> (\<exists>s. obj_get m ''error'' = Some (JStr s)))"

lemma answers_reply: "answers request (reply (field request ''id'') r)"
  by (auto simp: answers_def reply_def error_reply_def split: sum.split)

lemma answers_error: "answers request (error_reply (field request ''id'') s)"
  by (auto simp: answers_def error_reply_def)

lemma dispatch_answers:
  assumes "well_formed request" "client_at cid sv = Some c"
  shows "\<exists>sv' c' m. dispatch env cid request sv = (sv', None) \<and> client_at cid sv' = Some c' \<and> answers request m
    \<and> cl_out c' = cl_out c @ (if cl_gone c then [] else [frame (se_ft env) m])"
proof (cases "find_handler (field request ''cmd'')")
  case None
  let ?m = "error_reply (field request ''id'') (''unknown_cmd:'' @ scalar_text (se_ft env) (field request ''cmd''))"
  have "dispatch env cid request sv = (at_client cid (send_to (se_ft env) ?m) sv, None)"
    using assms(1) None by (simp add: dispatch_def well_formed_def Let_def)
  moreover have "client_at cid (at_client cid (send_to (se_ft env) ?m) sv) = Some (send_to (se_ft env) ?m c)"
    using assms(2) by (simp add: server_simps)
  ultimately show ?thesis using answers_error send_to_out by blast
next
  case (Some h)
  obtain sv1 r where h: "h env cid (request_args request) sv = (sv1, r)" by fastforce
  from command.answered [OF find_handler_quiet [OF Some] h assms(2), of "field request ''id''"] show ?thesis
    using assms(1) Some h by (auto simp: dispatch_def well_formed_def Let_def intro!: answers_reply)
qed

definition step_ok :: "features_config \<Rightarrow> nat \<Rightarrow> server \<Rightarrow> server \<Rightarrow> bool" where
  \<comment> \<open>no other client and no table is touched, and only allowed commands are run\<close>
  "step_ok f cid sv sv' \<longleftrightarrow> (\<forall>i. i \<noteq> cid \<longrightarrow> client_at i sv' = client_at i sv) \<and> sv_world sv' = sv_world sv
     \<and> (\<exists>cs. sv_ran sv' = sv_ran sv @ cs \<and> (\<forall>c\<in>set cs. allowed f c))"

lemma step_ok_refl: "step_ok f cid sv sv"
  by (simp add: step_ok_def)

lemma step_ok_at: "step_ok f cid sv sv1 \<Longrightarrow> step_ok f cid sv (at_client cid g sv1)"
  by (simp add: step_ok_def server_simps)

lemma step_ok_close: "step_ok f cid sv sv1 \<Longrightarrow> step_ok f cid sv (close_client cid sv1)"
  by (simp add: step_ok_def server_simps)

lemma step_ok_quiet: "quiet_step f cid sv sv' \<Longrightarrow> step_ok f cid sv sv'"
  by (simp add: step_ok_def quiet_step_def)

lemma dispatch_ok: "dispatch env cid request sv = (sv', e) \<Longrightarrow> step_ok (se_features env) cid sv sv'"
proof -
  assume d: "dispatch env cid request sv = (sv', e)"
  show ?thesis
  proof (cases "find_handler (field request ''cmd'')")
    case None
    with d show ?thesis by (auto simp: dispatch_def Let_def step_ok_refl step_ok_at split: if_splits)
  next
    case (Some h)
    obtain sv1 r where h: "h env cid (request_args request) sv = (sv1, r)" by fastforce
    from command.quiet [OF find_handler_quiet [OF Some] h] d Some h show ?thesis
      by (auto simp: dispatch_def Let_def step_ok_refl split: if_splits intro: step_ok_at step_ok_quiet)
  qed
qed

lemma handle_input_ok: "handle_input env cid inp sv = (sv', e) \<Longrightarrow> step_ok (se_features env) cid sv sv'"
  by (auto simp: handle_input_def end_client_def split: client_input.splits if_splits sum.splits exn.splits
      prod.splits option.splits dest: dispatch_ok intro: step_ok_refl step_ok_at step_ok_close)

lemma bad_request_closes:
  assumes "loads l = Inr request" "\<not> well_formed request" "l \<noteq> []"
  shows "\<exists>e. handle_input env cid (Line l) sv = (close_client cid sv, Some e)"
  using assms by (auto simp: handle_input_def dispatch_def well_formed_def end_client_def Let_def)

subsection \<open>Histories of the server\<close>

inductive server_step :: "features_config \<Rightarrow> server \<Rightarrow> server \<Rightarrow> bool" for f where
  input: "se_features env = f \<Longrightarrow> handle_input env cid inp sv = (sv', e) \<Longrightarrow> server_step f sv sv'"
| accept: "server_step f sv (accept_client cid sv)"
| event: "server_step f sv (broadcast ft name data sv)"
| speedtest: "server_step f sv (run_speedtest_and_broadcast ft lib ts sv)"
| world: "server_step f sv (sv\<lparr>sv_world := w\<rparr>)"
| latest: "server_step f sv (set_latest_snapshot j sv)"
| extra: "server_step f sv (set_extra_status_cache j sv)"

lemma run_speedtest_ran [server_simps]: "sv_ran (run_speedtest_and_broadcast ft lib ts sv) = sv_ran sv"
  by (simp add: run_speedtest_and_broadcast_def with_sv_db_def server_simps split: prod.split)

lemma server_step_ran: "server_step f sv sv' \<Longrightarrow> \<exists>cs. sv_ran sv' = sv_ran sv @ cs \<and> (\<forall>c\<in>set cs. allowed f c)"
proof (induction rule: server_step.induct)
  case (input env cid inp sv sv' e)
  then show ?case using handle_input_ok by (auto simp: step_ok_def)
qed (simp_all add: server_simps accept_client_def set_latest_snapshot_def set_extra_status_cache_def)

lemma server_steps_ran:
  "(server_step f)\<^sup>*\<^sup>* sv sv' \<Longrightarrow> \<exists>cs. sv_ran sv' = sv_ran sv @ cs \<and> (\<forall>c\<in>set cs. allowed f c)"
proof (induction rule: rtranclp_induct)
  case (step y z)
  then obtain a b where "sv_ran y = sv_ran sv @ a" "\<forall>c\<in>set a. allowed f c" "sv_ran z = sv_ran y @ b"
    "\<forall>c\<in>set b. allowed f c" using server_step_ran by meson
  then show ?case by (intro exI [of _ "a @ b"]) auto
qed simp

subsection \<open>Subscriptions\<close>

lemma subscribe_subs:
  assumes "client_at cid sv = Some c" "list_all hashable streams"
  shows "\<exists>c'. client_at cid (fst (cmd_subscribe env cid (JObj [(''streams'', JArr streams)]) sv)) = Some c'
    \<and> (\<forall>s. JStr s \<in> set (cl_subs c') \<longleftrightarrow> JStr s \<in> set (cl_subs c) \<or> JStr s \<in> set streams)"
  using assms by (simp add: cmd_subscribe_def change_subs_def args_get_def Let_def server_simps set_union_in)

lemma unsubscribe_subs:
  assumes "client_at cid sv = Some c" "list_all hashable streams"
  shows "\<exists>c'. client_at cid (fst (cmd_unsubscribe env cid (JObj [(''streams'', JArr streams)]) sv)) = Some c'
    \<and> (\<forall>s. JStr s \<in> set (cl_subs c') \<longleftrightarrow> JStr s \<in> set (cl_subs c) \<and> JStr s \<notin> set streams)"
  using assms by (simp add: cmd_unsubscribe_def change_subs_def args_get_def Let_def server_simps set_union_in set_minus_in)

subsection \<open>Framing\<close>

fun stream_lines :: "string \<Rightarrow> string list" where
  \<comment> \<open>what repeated \<open>readline()\<close> calls give: lines with their newline, then an unfinished one\<close>
  "stream_lines [] = []"
| "stream_lines (c # s) = (if c = CHR 0x0A then [c] # stream_lines s
     else (case stream_lines s of [] \<Rightarrow> [[c]] | l # ls \<Rightarrow> (c # l) # ls))"

lemma stream_lines_frame: "CHR 0x0A \<notin> set w \<Longrightarrow> stream_lines (w @ CHR 0x0A # s) = (w @ [CHR 0x0A]) # stream_lines s"
  by (induction w) auto

lemma stream_lines_frames:
  "\<forall>m\<in>set ms. json_ok ft m \<Longrightarrow> stream_lines (concat (map (frame ft) ms)) = map (frame ft) ms"
  by (induction ms) (simp_all add: frame_def stream_lines_frame dumps_one_line)

lemma loads_frame: "json_ok ft m \<Longrightarrow> loads (frame ft m) = Inr m"
  by (simp add: frame_def loads_dumps)

lemma frames_read_back:
  "\<forall>m\<in>set ms. json_ok ft m \<Longrightarrow> map loads (stream_lines (concat (map (frame ft) ms))) = map Inr ms"
  by (simp add: stream_lines_frames loads_frame)

end
