(* ===== verification/Json_Stream.thy ===== *)
theory Json_Stream
  imports Json_Facts
begin

section \<open>The JSON decoder on a stream\<close>

text \<open>
  What a reader that decodes a growing buffer relies on: a decoded value takes at least one
  character, more fuel does not change a result, and a complete object is decoded the same
  whatever follows, so that no proper prefix of an object decodes.
\<close>

subsection \<open>Progress\<close>

lemma scan_string_shorter: "scan_string s = Some (t, r) \<Longrightarrow> length r < length s"
proof (induction s arbitrary: t r rule: scan_string.induct)
  case (2 c s)
  then show ?case
    by (auto simp: apfst_def map_prod_def split: if_splits list.splits option.splits, (fastforce)+)
qed simp

lemma scan_int_shorter: "scan_int s = Some (t, r) \<Longrightarrow> length r < length s"
  by (auto simp: scan_int_def length_dropWhile_le le_imp_less_Suc split: list.splits if_splits)

lemma scan_frac_shorter: "scan_frac s = Some (t, r) \<Longrightarrow> length r \<le> length s"
  by (auto simp: scan_frac_def Let_def length_dropWhile_le le_SucI split: list.splits if_splits)

lemma scan_exp_shorter: "scan_exp s = Some (t, r) \<Longrightarrow> length r \<le> length s"
  by (auto simp: scan_exp_def Let_def split: list.splits if_splits)
    (metis le_SucI le_trans length_drop diff_le_self length_dropWhile_le)+

lemma scan_number_shorter: "scan_number s = Some (v, r) \<Longrightarrow> length r < length s"
proof -
  assume a: "scan_number s = Some (v, r)"
  let ?s0 = "if take 1 s = ''-'' then drop 1 s else s"
  obtain ds s1 where i: "scan_int ?s0 = Some (ds, s1)"
    using a by (auto simp: scan_number_def Let_def split: option.splits if_splits)
  have "length s1 < length ?s0" by (rule scan_int_shorter [OF i])
  also have "length ?s0 \<le> length s" by simp
  finally have s1: "length s1 < length s" .
  let ?s2 = "case scan_frac s1 of None \<Rightarrow> s1 | Some (_, r) \<Rightarrow> r"
  let ?s3 = "case scan_exp ?s2 of None \<Rightarrow> ?s2 | Some (_, r) \<Rightarrow> r"
  have "length ?s2 \<le> length s1" using scan_frac_shorter by (auto split: option.split)
  moreover have "length ?s3 \<le> length ?s2" using scan_exp_shorter by (auto split: option.split)
  moreover have "length r = length ?s3" using a i by (auto simp: scan_number_def Let_def split: if_splits)
  ultimately show ?thesis using s1 by linarith
qed

lemma skip_space_shorter: "length (skip_space s) \<le> length s"
  by (rule length_dropWhile_le)

lemma skip_space_Cons: "skip_space s = c # r \<Longrightarrow> length r < length s"
  using skip_space_shorter [of s] by simp

lemma decode_shorter:
  "decode_value n s = Some (v, r) \<Longrightarrow> length r < length s"
  "decode_items n s = Some (vs, r) \<Longrightarrow> length r < length s"
  "decode_members n s = Some (kvs, r) \<Longrightarrow> length r < length s"
proof (induction n s and n s and n s arbitrary: v r and vs r and kvs r
    rule: decode_value_decode_items_decode_members.induct)
  case (2 n s)
  note IHm = "2.IH"(1) and IHi = "2.IH"(2)
  show ?case
  proof (cases s)
    case (Cons c t)
    have sk: "length (skip_space t) \<le> length t" by (rule skip_space_shorter)
    show ?thesis
      using 2 Cons sk scan_string_shorter [of t] scan_number_shorter [of s]
      by (fastforce simp: Let_def split: if_splits)
  qed (use "2.prems" in simp)
next
  case (4 n s)
  then obtain v' r1 where v': "decode_value n s = Some (v', r1)" by (auto split: option.splits)
  obtain c r2 where c: "skip_space r1 = c # r2" using "4.prems" v' by (auto split: list.splits)
  have l: "length r1 < length s" "length r2 < length r1" using "4.IH"(1) [OF v'] skip_space_Cons [OF c] by auto
  show ?case
  proof (cases "c = CHR 0x5D")
    case False
    then obtain ws where "c = CHR '',''" "decode_items n (skip_space r2) = Some (ws, r)"
      using "4.prems" v' c by (auto split: if_splits)
    then show ?thesis using "4.IH"(2) [OF v' refl c False] l skip_space_shorter [of r2] by fastforce
  qed (use "4.prems" v' c l in auto)
next
  case (6 n s)
  obtain r0 where s: "s = CHR 0x22 # r0" using "6.prems" by (auto split: list.splits if_splits)
  then obtain k r1 where k: "scan_string r0 = Some (k, r1)" using "6.prems" by (auto split: option.splits)
  then obtain r2 where d: "skip_space r1 = CHR '':'' # r2"
    using "6.prems" s by (auto split: list.splits if_splits)
  then obtain v' r3 where v': "decode_value n (skip_space r2) = Some (v', r3)"
    using "6.prems" s k by (auto split: option.splits)
  then obtain c r4 where c: "skip_space r3 = c # r4" using "6.prems" s k d by (auto split: list.splits)
  have l: "length r1 < length r0" "length r2 < length r1" "length r3 < length (skip_space r2)" "length r4 < length r3"
    using scan_string_shorter [OF k] skip_space_Cons [OF d] skip_space_Cons [OF c]
      "6.IH"(1) [OF s _ k refl d _ v'] by auto
  have l4: "length r4 < length s" using l s skip_space_shorter [of r2] by simp
  show ?case
  proof (cases "c = CHR 0x7D")
    case False
    then obtain ws where w: "c = CHR '',''" "decode_members n (skip_space r4) = Some (ws, r)"
      using "6.prems" s k d v' c by (auto split: if_splits)
    have "length r < length (skip_space r4)"
      using "6.IH"(2) [OF s _ k refl d _ v' refl c False w(1) w(2)] by simp
    then show ?thesis using l4 skip_space_shorter [of r4] by linarith
  qed (use "6.prems" s k d v' c l4 in auto)
qed simp_all

lemma raw_decode_shorter: "raw_decode s = Some (v, r) \<Longrightarrow> length r < length s"
  unfolding raw_decode_def by (rule decode_shorter)

subsection \<open>What follows does not matter\<close>

lemma split_while: "dropWhile p s \<noteq> [] \<Longrightarrow> takeWhile p (s @ t) = takeWhile p s \<and> dropWhile p (s @ t) = dropWhile p s @ t"
  by (induction s) auto

lemma skip_space_extend: "skip_space r = c # r' \<Longrightarrow> skip_space (r @ t) = c # r' @ t"
  using split_while [of is_json_space r t] by simp

lemma map_cons_eq: "map_option (apfst (Cons c)) z = Some (x, r) \<longleftrightarrow> (\<exists>y. z = Some (y, r) \<and> x = c # y)"
  by (cases z) auto

lemma scan_string_extend: "scan_string s = Some (x, r) \<Longrightarrow> scan_string (s @ t) = Some (x, r @ t)"
proof (induction s arbitrary: x r rule: scan_string.induct)
  case (2 c s)
  consider "c = CHR 0x22" | (esc) "c = CHR 0x5C" | (plain) "c \<noteq> CHR 0x22" "c \<noteq> CHR 0x5C" by blast
  then show ?case
  proof cases
    case 1
    then show ?thesis using "2.prems" by simp
  next
    case esc
    obtain e s1 where s: "s = e # s1" using "2.prems" esc by (cases s) auto
    show ?thesis
    proof (cases "e = CHR ''u''")
      case True
      then obtain x1 x2 x3 x4 s2 where s1: "s1 = x1 # x2 # x3 # x4 # s2"
        using "2.prems" esc s by (auto split: list.splits)
      then obtain ch where h: "hex4 x1 x2 x3 x4 = Some ch"
        using "2.prems" esc s True by (auto split: option.splits)
      then obtain y where y: "scan_string s2 = Some (y, r)" "x = ch # y"
        using "2.prems" esc s True s1 by (auto simp: map_cons_eq)
      have "scan_string (s2 @ t) = Some (y, r @ t)"
        using "2.IH"(1) [OF _ esc s True s1 refl refl refl h y(1)] esc by simp
      then show ?thesis using esc s True s1 h y(2) by simp
    next
      case False
      then obtain ch where h: "unescape e = Some ch"
        using "2.prems" esc s by (auto split: option.splits)
      then obtain y where y: "scan_string s1 = Some (y, r)" "x = ch # y"
        using "2.prems" esc s False by (auto simp: map_cons_eq)
      have "scan_string (s1 @ t) = Some (y, r @ t)"
        using "2.IH"(2) [OF _ esc s False h y(1)] esc by simp
      then show ?thesis using esc s False h y(2) by simp
    qed
  next
    case plain
    then have n: "\<not> (of_char c :: nat) < 32" using "2.prems" by (auto split: if_splits)
    then obtain y where y: "scan_string s = Some (y, r)" "x = c # y"
      using "2.prems" plain by (auto simp: map_cons_eq)
    then show ?thesis using "2.IH"(3) [OF plain n y(1)] plain n by simp
  qed
qed simp

definition number_end :: "string \<Rightarrow> bool" where
  "number_end r \<longleftrightarrow> r \<noteq> [] \<and> \<not> is_digit (hd r) \<and> hd r \<notin> set ''.eE''"

lemma scan_int_extend: "scan_int s = Some (ds, r) \<Longrightarrow> r \<noteq> [] \<Longrightarrow> scan_int (s @ t) = Some (ds, r @ t)"
  using split_while [of is_digit s t] by (cases s) (auto simp: scan_int_def split: if_splits)

lemma scan_frac_extend:
  "scan_frac s = Some (f, r) \<Longrightarrow> r \<noteq> [] \<Longrightarrow> scan_frac (s @ t) = Some (f, r @ t)"
  using split_while [of is_digit "tl s" t] by (cases s) (auto simp: scan_frac_def Let_def split: if_splits)

lemma scan_frac_absent: "s \<noteq> [] \<Longrightarrow> hd s \<noteq> CHR ''.'' \<Longrightarrow> scan_frac (s @ t) = None"
  by (cases s) (auto simp: scan_frac_def)

definition exp_digits :: "string \<Rightarrow> string" where
  "exp_digits u = (if take 1 u \<in> {''-'', ''+''} then drop 1 u else u)"

definition exp_value :: "bool \<Rightarrow> string \<Rightarrow> (rat \<times> string) option" where
  "exp_value neg w = (let ds = takeWhile is_digit w in if ds = [] then None
     else Some (if neg then 1 / 10 ^ digits_val ds else 10 ^ digits_val ds, dropWhile is_digit w))"

lemma scan_exp_Cons: "scan_exp (c # u) = (if c \<in> set ''eE'' then exp_value (take 1 u = ''-'') (exp_digits u) else None)"
  by (simp add: scan_exp_def exp_value_def exp_digits_def Let_def)

lemma exp_value_extend: "exp_value neg w = Some (e, r) \<Longrightarrow> r \<noteq> [] \<Longrightarrow> exp_value neg (w @ t) = Some (e, r @ t)"
  using split_while [of is_digit w t] by (auto simp: exp_value_def Let_def split: if_splits)

lemma scan_exp_extend:
  assumes "scan_exp s = Some (e, r)" "r \<noteq> []"
  shows "scan_exp (s @ t) = Some (e, r @ t)"
proof -
  obtain c u where s: "s = c # u" using assms(1) by (cases s) (auto simp: scan_exp_def)
  with assms(1) have c: "c \<in> set ''eE''" and v: "exp_value (take 1 u = ''-'') (exp_digits u) = Some (e, r)"
    unfolding s scan_exp_Cons by (auto split: if_splits simp del: list.set)
  have "u \<noteq> []" using v by (auto simp: exp_digits_def exp_value_def)
  then have "take 1 (u @ t) = take 1 u" "exp_digits (u @ t) = exp_digits u @ t"
    by (cases u; simp add: exp_digits_def)+
  then show ?thesis
    unfolding s append_Cons scan_exp_Cons using c exp_value_extend [OF v assms(2), of t] by (simp only: if_True)
qed

lemma scan_exp_absent: "s \<noteq> [] \<Longrightarrow> hd s \<notin> set ''eE'' \<Longrightarrow> scan_exp (s @ t) = None"
  by (cases s) (auto simp: scan_exp_def)

lemma scan_exp_start: "scan_exp s = Some x \<Longrightarrow> s \<noteq> [] \<and> hd s \<in> set ''eE''"
  by (cases s) (auto simp: scan_exp_def split: if_splits)

lemma scan_number_extend:
  assumes "scan_number s = Some (v, r)" "number_end r"
  shows "scan_number (s @ t) = Some (v, r @ t)"
proof -
  let ?s0 = "if take 1 s = ''-'' then drop 1 s else s"
  obtain ds s1 where i: "scan_int ?s0 = Some (ds, s1)"
    using assms(1) by (auto simp: scan_number_def Let_def split: option.splits if_splits)
  have ne: "s \<noteq> []" using i by (auto simp: scan_int_def)
  then have s0: "take 1 (s @ t) = take 1 s" "(if take 1 s = ''-'' then drop 1 (s @ t) else s @ t) = ?s0 @ t"
    by (cases s; simp)+
  let ?s2 = "case scan_frac s1 of None \<Rightarrow> s1 | Some (_, r) \<Rightarrow> r"
  let ?s3 = "case scan_exp ?s2 of None \<Rightarrow> ?s2 | Some (_, r) \<Rightarrow> r"
  have r: "r = ?s3" using assms(1) i by (auto simp: scan_number_def Let_def split: if_splits)
  have rne: "r \<noteq> []" using assms(2) by (simp add: number_end_def)
  have s2: "?s2 \<noteq> []"
    using r rne scan_exp_shorter [of ?s2] by (cases "scan_exp ?s2") auto
  have s1: "s1 \<noteq> []" using s2 scan_frac_shorter [of s1] by (cases "scan_frac s1") auto
  have ex: "scan_exp (?s2 @ t) = map_option (\<lambda>(e, r). (e, r @ t)) (scan_exp ?s2)"
  proof (cases "scan_exp ?s2")
    case None
    then have "r = ?s2" using r by simp
    then show ?thesis using None s2 assms(2) scan_exp_absent [of ?s2 t] by (simp add: number_end_def)
  next
    case (Some x)
    obtain e u where x: "x = (e, u)" by (cases x)
    then have "u = r" using r Some by simp
    then show ?thesis using scan_exp_extend [of ?s2 e u t] Some x rne by simp
  qed
  have fr: "scan_frac (s1 @ t) = map_option (\<lambda>(f, r). (f, r @ t)) (scan_frac s1)"
  proof (cases "scan_frac s1")
    case None
    have "hd s1 \<noteq> CHR ''.''"
    proof (cases "scan_exp s1")
      case (Some x)
      then show ?thesis using scan_exp_start [of s1] by auto
    next
      case n: None
      then have "r = s1" using r None by simp
      then show ?thesis using assms(2) by (simp add: number_end_def)
    qed
    then show ?thesis using None s1 by (simp add: scan_frac_absent)
  next
    case (Some x)
    obtain f u where x: "x = (f, u)" by (cases x)
    then show ?thesis using scan_frac_extend [of s1 f u t] Some s2 by simp
  qed
  have i': "scan_int (?s0 @ t) = Some (ds, s1 @ t)" using scan_int_extend [OF i s1] .
  have t2: "(case scan_frac (s1 @ t) of None \<Rightarrow> s1 @ t | Some (_, r) \<Rightarrow> r) = ?s2 @ t"
    by (cases "scan_frac s1") (auto simp: fr)
  have t3: "(case scan_exp (?s2 @ t) of None \<Rightarrow> ?s2 @ t | Some (_, r) \<Rightarrow> r) = r @ t"
    using r by (cases "scan_exp ?s2") (auto simp: ex)
  have val: "scan_number (s @ t) = map_option (\<lambda>(v, _). (v, r @ t)) (scan_number s)"
    unfolding scan_number_def Let_def s0 i i' option.case prod.case t2 t3
    by (auto simp: fr ex split: option.splits)
  then show ?thesis using assms(1) by simp
qed

lemma decode_value_Nil [simp]: "decode_value n [] = None"
  by (cases n) simp_all

lemma decode_Nil [simp]: "decode_items n [] = None" "decode_members n [] = None"
  by (cases n; simp; fail)+

lemma decode_extend:
  "decode_value n s = Some (v, r) \<Longrightarrow> n \<le> m \<Longrightarrow> number_end r \<or> hd s \<in> {CHR 0x22, CHR 0x7B, CHR 0x5B}
    \<Longrightarrow> decode_value m (s @ t) = Some (v, r @ t)"
  "decode_items n s = Some (vs, r) \<Longrightarrow> n \<le> m \<Longrightarrow> decode_items m (s @ t) = Some (vs, r @ t)"
  "decode_members n s = Some (kvs, r) \<Longrightarrow> n \<le> m \<Longrightarrow> decode_members m (s @ t) = Some (kvs, r @ t)"
proof (induction n s and n s and n s arbitrary: v r m and vs r m and kvs r m
    rule: decode_value_decode_items_decode_members.induct)
  case (2 n s)
  obtain c u where s: "s = c # u" using "2.prems"(1) by (cases s) auto
  obtain m' where m: "m = Suc m'" "n \<le> m'" using "2.prems"(2) by (cases m) auto
  have ne: "skip_space u \<noteq> []" if "c = CHR 0x7B \<or> c = CHR 0x5B"
  proof
    assume e: "skip_space u = []"
    show False using "2.prems"(1) s that by (auto simp: Let_def e simp del: dropWhile_eq_Nil_conv)
  qed
  have sk: "skip_space (u @ t) = skip_space u @ t" if "c = CHR 0x7B \<or> c = CHR 0x5B"
    using ne [OF that] split_while [of is_json_space u t] by blast
  have tk: "take 1 (skip_space u @ t) = take 1 (skip_space u)"
    "drop 1 (skip_space u @ t) = drop 1 (skip_space u) @ t" if "c = CHR 0x7B \<or> c = CHR 0x5B"
    using ne [OF that] by (cases "skip_space u"; simp)+
  consider (str) "c = CHR 0x22" | (obj) "c = CHR 0x7B" | (arr) "c = CHR 0x5B"
    | (other) "c \<noteq> CHR 0x22" "c \<noteq> CHR 0x7B" "c \<noteq> CHR 0x5B" by blast
  then show ?case
  proof cases
    case str
    then show ?thesis using "2.prems"(1) s m(1) scan_string_extend [of u _ _ t] by fastforce
  next
    case obj
    show ?thesis
    proof (cases "take 1 (skip_space u) = [CHR 0x7D]")
      case True
      then show ?thesis using "2.prems"(1) s m(1) obj sk tk ne by (auto simp: Let_def)
    next
      case False
      then obtain kvs where k: "decode_members n (skip_space u) = Some (kvs, r)" "v = JObj (dict_of kvs)"
        using "2.prems"(1) s obj by (auto simp: Let_def)
      have "decode_members m' (skip_space u @ t) = Some (kvs, r @ t)"
        using "2.IH"(1) [OF s _ _ refl False k(1) m(2)] obj by simp
      moreover obtain a w where "skip_space u = a # w" using ne obj by (cases "skip_space u") auto
      ultimately show ?thesis using False k(2) s m(1) obj sk by (simp add: Let_def)
    qed
  next
    case arr
    show ?thesis
    proof (cases "take 1 (skip_space u) = [CHR 0x5D]")
      case True
      then show ?thesis using "2.prems"(1) s m(1) arr sk tk ne by (auto simp: Let_def)
    next
      case False
      then obtain xs where k: "decode_items n (skip_space u) = Some (xs, r)" "v = JArr xs"
        using "2.prems"(1) s arr by (auto simp: Let_def)
      have "decode_items m' (skip_space u @ t) = Some (xs, r @ t)"
        using "2.IH"(2) [OF s _ _ _ refl False k(1) m(2)] arr by simp
      moreover obtain a w where "skip_space u = a # w" using ne arr by (cases "skip_space u") auto
      ultimately show ?thesis using False k(2) s m(1) arr sk by (simp add: Let_def)
    qed
  next
    case other
    have num: "number_end r" using "2.prems"(3) s other by auto
    have pre: "startswith (s @ t) w = startswith s w" if "length w \<le> length s" for w
      using that by (simp add: startswith_def)
    show ?thesis
    proof (cases "startswith s ''null'' \<or> startswith s ''true'' \<or> startswith s ''false''")
      case True
      then have "(\<exists>w. s = ''null'' @ w) \<or> (\<exists>w. s = ''true'' @ w) \<or> (\<exists>w. s = ''false'' @ w)"
        by (auto simp: startswith_iff)
      then show ?thesis using "2.prems"(1) m(1) by auto
    next
      case False
      then have n: "scan_number s = Some (v, r)" using "2.prems"(1) s other by (auto split: if_splits)
      have cs: "c \<noteq> CHR ''n''" "c \<noteq> CHR ''t''" "c \<noteq> CHR ''f''"
        using n s by (auto simp: scan_number_def scan_int_def Let_def is_digit_def split: if_splits)
      then show ?thesis using scan_number_extend [OF n num, of t] s m(1) other by simp
    qed
  qed
next
  case (4 n s)
  then obtain v' r1 where v': "decode_value n s = Some (v', r1)" by (auto split: option.splits)
  obtain c r2 where c: "skip_space r1 = c # r2" using "4.prems" v' by (auto split: list.splits)
  obtain m' where m: "m = Suc m'" "n \<le> m'" using "4.prems"(2) by (cases m) auto
  have cc: "c = CHR 0x5D \<or> c = CHR '',''" using "4.prems"(1) v' c by (auto split: if_splits)
  have "number_end r1" using c cc
    by (cases r1) (auto simp: number_end_def is_json_space_def is_digit_def split: if_splits)
  then have e1: "decode_value m' (s @ t) = Some (v', r1 @ t)" using "4.IH"(1) [OF v' m(2)] by simp
  show ?case
  proof (cases "c = CHR 0x5D")
    case True
    then show ?thesis using "4.prems"(1) v' c e1 m(1) skip_space_extend [OF c, of t] by auto
  next
    case False
    then obtain ws where w: "c = CHR '',''" "decode_items n (skip_space r2) = Some (ws, r)" "vs = v' # ws"
      using "4.prems"(1) v' c by (auto split: if_splits)
    have e2: "decode_items m' (skip_space r2 @ t) = Some (ws, r @ t)"
      using "4.IH"(2) [OF v' refl c False w(1,2) m(2)] .
    have "skip_space r2 \<noteq> []" using w(2) decode_Nil(1) by (metis option.distinct(1))
    then have "skip_space (r2 @ t) = skip_space r2 @ t" using split_while [of is_json_space r2 t] by blast
    then show ?thesis using e1 e2 m(1) w(1,3) skip_space_extend [OF c, of t] by simp
  qed
next
  case (6 n s)
  obtain r0 where s: "s = CHR 0x22 # r0" using "6.prems" by (auto split: list.splits if_splits)
  then obtain k r1 where k: "scan_string r0 = Some (k, r1)" using "6.prems" by (auto split: option.splits)
  then obtain r2 where d: "skip_space r1 = CHR '':'' # r2"
    using "6.prems" s by (auto split: list.splits if_splits)
  then obtain v' r3 where v': "decode_value n (skip_space r2) = Some (v', r3)"
    using "6.prems" s k by (auto split: option.splits)
  then obtain c r4 where c: "skip_space r3 = c # r4" using "6.prems" s k d by (auto split: list.splits)
  obtain m' where m: "m = Suc m'" "n \<le> m'" using "6.prems"(2) by (cases m) auto
  have cc: "c = CHR 0x7D \<or> c = CHR '',''" using "6.prems"(1) s k d v' c by (auto split: if_splits)
  have "number_end r3" using c cc
    by (cases r3) (auto simp: number_end_def is_json_space_def is_digit_def split: if_splits)
  then have e1: "decode_value m' (skip_space r2 @ t) = Some (v', r3 @ t)"
    using "6.IH"(1) [OF s _ k refl d _ v' m(2)] by simp
  have "skip_space r2 \<noteq> []" using v' decode_value_Nil by (metis option.distinct(1))
  then have sk2: "skip_space (r2 @ t) = skip_space r2 @ t" using split_while [of is_json_space r2 t] by blast
  note ext = scan_string_extend [OF k, of t] skip_space_extend [OF d, of t] skip_space_extend [OF c, of t]
  show ?case
  proof (cases "c = CHR 0x7D")
    case True
    then show ?thesis using "6.prems"(1) s k d v' c e1 m(1) ext sk2 by auto
  next
    case False
    then obtain ws where w: "c = CHR '',''" "decode_members n (skip_space r4) = Some (ws, r)" "kvs = (k, v') # ws"
      using "6.prems"(1) s k d v' c by (auto split: if_splits)
    have e2: "decode_members m' (skip_space r4 @ t) = Some (ws, r @ t)"
      using "6.IH"(2) [OF s _ k refl d _ v' refl c False w(1,2) m(2)] by simp
    have "skip_space r4 \<noteq> []" using w(2) decode_Nil(2) by (metis option.distinct(1))
    then have "skip_space (r4 @ t) = skip_space r4 @ t" using split_while [of is_json_space r4 t] by blast
    then show ?thesis using e1 e2 m(1) s w(1,3) ext sk2 by simp
  qed
qed simp_all

lemma raw_decode_extend:
  "raw_decode s = Some (v, r) \<Longrightarrow> hd s = CHR 0x7B \<Longrightarrow> raw_decode (s @ t) = Some (v, r @ t)"
  unfolding raw_decode_def by (rule decode_extend(1), assumption) (simp_all del: decode_value.simps)

lemma object_prefix_undecodable:
  assumes "json_ok ft (JObj kvs)" "dumps ft (JObj kvs) = x @ y" "y \<noteq> []"
  shows "raw_decode x = None"
proof (cases "raw_decode x")
  case (Some p)
  obtain v r where p: "p = (v, r)" by (cases p)
  have "x \<noteq> []" using raw_decode_shorter [of x v r] Some p by auto
  then have "hd x = CHR 0x7B" using assms(2) by (cases x) auto
  from raw_decode_extend [OF Some [unfolded p] this, of y] raw_decode_object [OF assms(1), of "[]"] assms(2,3)
  show ?thesis by simp
qed

end
