(* ===== verification/Gpu_Intel.thy ===== *)
theory Gpu_Intel
  imports Json_Stream
begin

section \<open>gpu_intel.py: a reader of a JSON stream\<close>

text \<open>
  \<open>daemon/src/omnia_daemon/gpu_intel.py\<close>. The monitor's state is its latest reading, a JSON value;
  \<open>intel_gpu_top\<close> is the list of chunks it writes before it ends, or the error that starting it
  raises. \<open>decode_buffer\<close> is the inner loop over the buffer; it ends because every decoded value
  shortens it. The main theorem of the file is that where the chunks are cut does not matter.
\<close>

subsection \<open>The code\<close>

definition is_plain_number :: "json \<Rightarrow> bool" where
  \<comment> \<open>\<open>isinstance(x, (int, float))\<close>; a \<open>bool\<close> is an \<open>int\<close>\<close>
  "is_plain_number j = (json_number j \<noteq> None)"

definition engine_busy :: "string \<times> json \<Rightarrow> (string \<times> json) option" where
  "engine_busy nd = (case obj_get (snd nd) ''busy'' of
      Some b \<Rightarrow> if is_plain_number b then Some (fst nd, b) else None
    | None \<Rightarrow> None)"

definition extract_engines :: "json \<Rightarrow> json" where
  "extract_engines obj = JObj [(''available'', JBool True), (''engines_busy_percent'',
     JObj (case obj_get obj ''engines'' of
         Some (JObj engines) \<Rightarrow> List.map_filter engine_busy engines
       | _ \<Rightarrow> []))]"

definition unavailable :: "string \<Rightarrow> json" where
  "unavailable reason = JObj [(''available'', JBool False), (''reason'', JStr reason)]"

record gpu_monitor =
  gm_retry_seconds :: rat
  gm_latest :: json

definition new_gpu_monitor :: "rat \<Rightarrow> gpu_monitor" where
  "new_gpu_monitor retry_minutes =
     \<lparr>gm_retry_seconds = max retry_minutes 1 * 60, gm_latest = unavailable ''not checked yet''\<rparr>"

definition disable :: "gpu_monitor \<Rightarrow> gpu_monitor" where
  "disable gm = gm\<lparr>gm_latest := unavailable ''disabled in config''\<rparr>"

definition stray_chars :: string where
  "stray_chars = [CHR '' '', CHR 0x09, CHR 0x0D, CHR 0x0A, CHR '','', CHR 0x5B, CHR 0x5D]"

function decode_buffer :: "json \<times> bool \<Rightarrow> string \<Rightarrow> (json \<times> bool) \<times> string" where
  \<comment> \<open>the inner \<open>while True\<close>: the latest reading and \<open>got_any\<close>, and the buffer left\<close>
  "decode_buffer st buffer = (let stripped = lstrip_chars stray_chars buffer in
     if stripped = [] then (st, stripped)
     else (case raw_decode stripped of
         None \<Rightarrow> (st, stripped)
       | Some (obj, rest) \<Rightarrow> decode_buffer (if is_obj obj then (extract_engines obj, True) else st) rest))"
  by pat_completeness auto

lemma lstrip_shorter: "length (lstrip_chars cs s) \<le> length s"
  by (simp add: lstrip_chars_def length_dropWhile_le)

termination decode_buffer
proof (relation "measure (length \<circ> snd)")
  fix st :: "json \<times> bool" and buffer stripped :: string and y :: "json \<times> string" and obj rest
  assume "stripped = lstrip_chars stray_chars buffer" "raw_decode stripped = Some y" "(obj, rest) = y"
  then have "length rest < length stripped" "length stripped \<le> length buffer"
    using raw_decode_shorter lstrip_shorter by auto
  then show "((if is_obj obj then (extract_engines obj, True) else st, rest), st, buffer) \<in> measure (length \<circ> snd)"
    by simp
qed simp

declare decode_buffer.simps [simp del]

fun decode_loop :: "nat \<Rightarrow> json \<times> bool \<Rightarrow> string \<Rightarrow> ((json \<times> bool) \<times> string) option" where
  \<comment> \<open>the loop over the buffer, given up after a number of iterations\<close>
  "decode_loop 0 st buffer = None"
| "decode_loop (Suc n) st buffer = (let stripped = lstrip_chars stray_chars buffer in
     if stripped = [] then Some (st, stripped)
     else (case raw_decode stripped of
         None \<Rightarrow> Some (st, stripped)
       | Some (obj, rest) \<Rightarrow> decode_loop n (if is_obj obj then (extract_engines obj, True) else st) rest))"

lemma decode_loop_enough: "length buffer < n \<Longrightarrow> decode_loop n st buffer = Some (decode_buffer st buffer)"
proof (induction n arbitrary: st buffer)
  case (Suc n)
  have "length rest < n" if "raw_decode (lstrip_chars stray_chars buffer) = Some (obj, rest)" for obj rest
    using raw_decode_shorter [OF that] lstrip_shorter [of stray_chars buffer] Suc.prems by linarith
  then show ?case using Suc.IH by (subst decode_buffer.simps) (auto simp: Let_def split: option.splits)
qed simp

lemma decode_buffer_left:
  "decode_buffer st' (snd (decode_buffer st buffer)) = (st', snd (decode_buffer st buffer))"
proof (induction st buffer rule: decode_buffer.induct)
  case (1 st buffer)
  let ?s = "lstrip_chars stray_chars buffer"
  have idem: "lstrip_chars stray_chars ?s = ?s" by (simp add: lstrip_chars_def)
  show ?case
  proof (cases "?s = [] \<or> raw_decode ?s = None")
    case True
    then have "decode_buffer st'' b = (st'', ?s)" if "lstrip_chars stray_chars b = ?s" for st'' b
      using that by (subst decode_buffer.simps) (auto simp: Let_def)
    from this [OF refl] this [OF idem] show ?thesis by simp
  next
    case False
    then obtain obj rest where r: "raw_decode ?s = Some (obj, rest)" by auto
    then have "decode_buffer st buffer = decode_buffer (if is_obj obj then (extract_engines obj, True) else st) rest"
      using False by (subst decode_buffer.simps) (simp add: Let_def)
    with "1.IH" [OF refl _ r refl] False show ?thesis by simp
  qed
qed

fun read_chunks :: "(json \<times> bool) \<times> string \<Rightarrow> string list \<Rightarrow> (json \<times> bool) \<times> string" where
  "read_chunks (st, buffer) [] = (st, buffer)"
| "read_chunks (st, buffer) (c # cs) = read_chunks (decode_buffer st (buffer @ c)) cs"

definition try_stream :: "string list result \<Rightarrow> gpu_monitor \<Rightarrow> (gpu_monitor \<times> bool) result" where
  "try_stream proc gm = (case proc of
      Inl e \<Rightarrow> if is_os_error e then Inr (gm, False) else Inl e
    | Inr chunks \<Rightarrow> (case read_chunks ((gm_latest gm, False), []) chunks of
        ((latest, got), _) \<Rightarrow> Inr (gm\<lparr>gm_latest := latest\<rparr>, got)))"

definition gpu_round :: "string list result \<Rightarrow> gpu_monitor \<Rightarrow> (gpu_monitor \<times> rat) result" where
  \<comment> \<open>one turn of \<open>run_forever\<close>, with the seconds it then sleeps\<close>
  "gpu_round proc gm = (case try_stream proc gm of
      Inl e \<Rightarrow> Inl e
    | Inr (gm', got) \<Rightarrow> if got then Inr (gm', 5)
        else Inr (gm'\<lparr>gm_latest := unavailable ''intel_gpu_top failed (permissions?)''\<rparr>, gm_retry_seconds gm'))"

definition gpu_start :: "bool \<Rightarrow> gpu_monitor \<Rightarrow> gpu_monitor \<times> bool" where
  \<comment> \<open>\<open>shutil.which\<close>; the flag says whether \<open>run_forever\<close> goes on to its loop\<close>
  "gpu_start installed gm = (if installed then (gm, True)
     else (gm\<lparr>gm_latest := unavailable ''intel_gpu_top not installed''\<rparr>, False))"

subsection \<open>Where the chunks are cut\<close>

definition stray :: "string \<Rightarrow> bool" where
  "stray s \<longleftrightarrow> set s \<subseteq> set stray_chars"

fun stream_text :: "(rat \<Rightarrow> string) \<Rightarrow> (string \<times> (string \<times> json) list) list \<Rightarrow> string \<Rightarrow> string" where
  \<comment> \<open>objects, each after stray characters, and stray characters at the end\<close>
  "stream_text ft [] tail = tail"
| "stream_text ft ((sep, kvs) # os) tail = sep @ dumps ft (JObj kvs) @ stream_text ft os tail"

definition stream_ok :: "(rat \<Rightarrow> string) \<Rightarrow> (string \<times> (string \<times> json) list) list \<Rightarrow> string \<Rightarrow> bool" where
  "stream_ok ft os tail \<longleftrightarrow> stray tail \<and> (\<forall>(sep, kvs)\<in>set os. stray sep \<and> json_ok ft (JObj kvs))"

fun readings :: "json \<times> bool \<Rightarrow> (string \<times> (string \<times> json) list) list \<Rightarrow> json \<times> bool" where
  \<comment> \<open>the specification: each object in turn becomes the latest reading\<close>
  "readings st [] = st"
| "readings st ((sep, kvs) # os) = readings (extract_engines (JObj kvs), True) os"

lemma strip_stray: "stray s \<Longrightarrow> lstrip_chars stray_chars s = []"
  by (auto simp: lstrip_chars_def stray_def)

lemma strip_stray_object:
  "stray s \<Longrightarrow> x \<noteq> [] \<Longrightarrow> hd x = CHR 0x7B \<Longrightarrow> lstrip_chars stray_chars (s @ x) = x"
  unfolding lstrip_chars_def by (rule dropWhile_split) (auto simp: stray_def stray_chars_def)

lemma decode_buffer_stray: "stray s \<Longrightarrow> decode_buffer st s = (st, [])"
  by (subst decode_buffer.simps) (simp add: strip_stray)

lemma decode_buffer_object:
  assumes "stray sep" "json_ok ft (JObj kvs)"
  shows "decode_buffer st (sep @ dumps ft (JObj kvs) @ p) = decode_buffer (extract_engines (JObj kvs), True) p"
proof -
  have "lstrip_chars stray_chars (sep @ dumps ft (JObj kvs) @ p) = dumps ft (JObj kvs) @ p"
    using assms(1) by (intro strip_stray_object) simp_all
  then show ?thesis
    by (subst decode_buffer.simps) (simp add: Let_def raw_decode_object [OF assms(2)] del: dumps.simps, simp)
qed

lemma decode_buffer_partial:
  assumes "stray sep" "json_ok ft (JObj kvs)" "dumps ft (JObj kvs) = x @ y" "x \<noteq> []" "y \<noteq> []"
  shows "decode_buffer st (sep @ x) = (st, x)"
proof -
  have "hd x = CHR 0x7B" using assms(3,4) by (cases x) auto
  then have "lstrip_chars stray_chars (sep @ x) = x" using assms(1,4) by (intro strip_stray_object)
  then show ?thesis
    using object_prefix_undecodable [OF assms(2,3,5)] by (subst decode_buffer.simps) (simp add: Let_def)
qed

lemma append_cases: "p @ q = a @ b \<Longrightarrow> (\<exists>u. p = a @ u \<and> b = u @ q) \<or> (\<exists>u. a = p @ u \<and> q = u @ b \<and> u \<noteq> [])"
  by (metis append_eq_append_conv2 append_Nil2)

lemma decode_prefix:
  assumes "stream_ok ft os tail" "stream_text ft os tail = p @ q"
  shows "\<exists>done os' tail' b. decode_buffer st p = (readings st done, b) \<and> b @ q = stream_text ft os' tail'
    \<and> stream_ok ft os' tail' \<and> (\<forall>st. readings (readings st done) os' = readings st os)"
  using assms
proof (induction os arbitrary: st p)
  case Nil
  then have "stray p" "stray q" by (auto simp: stream_ok_def stray_def)
  then show ?case using decode_buffer_stray [of p st]
    by (intro exI [of _ "[]"] exI [of _ q] exI [of _ "[]"]) (simp add: stream_ok_def)
next
  case (Cons o1 os)
  obtain sep kvs where o1: "o1 = (sep, kvs)" by (cases o1)
  have ok: "stray sep" "json_ok ft (JObj kvs)" "stream_ok ft os tail"
    using Cons.prems(1) o1 by (auto simp: stream_ok_def)
  let ?d = "dumps ft (JObj kvs)" and ?r = "stream_text ft os tail"
  have whole: "p @ q = sep @ ?d @ ?r" using Cons.prems(2) o1 by simp
  from append_cases [OF whole] show ?case
  proof (elim disjE exE conjE)
    fix u assume u: "p = sep @ u" "?d @ ?r = u @ q"
    from append_cases [OF u(2)[symmetric]] show ?thesis
    proof (elim disjE exE conjE)
      fix w assume w: "u = ?d @ w" "?r = w @ q"
      from Cons.IH [OF ok(3) w(2), of "(extract_engines (JObj kvs), True)"] obtain ds os' tail' b where
        ih: "decode_buffer (extract_engines (JObj kvs), True) w = (readings (extract_engines (JObj kvs), True) ds, b)"
        "b @ q = stream_text ft os' tail'" "stream_ok ft os' tail'"
        "\<forall>st. readings (readings st ds) os' = readings st os" by blast
      have "decode_buffer st p = (readings st (o1 # ds), b)"
        using ih(1) decode_buffer_object [OF ok(1,2)] u(1) w(1) o1 by simp
      moreover have "\<forall>st. readings (readings st (o1 # ds)) os' = readings st (o1 # os)"
        using ih(4) o1 by simp
      ultimately show ?thesis using ih(2,3) by blast
    next
      fix w assume w: "?d = u @ w" "q = w @ ?r" "w \<noteq> []"
      show ?thesis
      proof (cases "u = []")
        case True
        then have "decode_buffer st p = (readings st [], [])" using u(1) ok(1) decode_buffer_stray by simp
        moreover have "[] @ q = stream_text ft (([], kvs) # os) tail" using w True by simp
        moreover have "stream_ok ft (([], kvs) # os) tail" using ok by (simp add: stream_ok_def stray_def)
        moreover have "\<forall>st. readings (readings st []) (([], kvs) # os) = readings st (o1 # os)" using o1 by simp
        ultimately show ?thesis by blast
      next
        case False
        then have "decode_buffer st p = (readings st [], u)"
          using u(1) decode_buffer_partial [OF ok(1,2) w(1) _ w(3)] by simp
        moreover have "u @ q = stream_text ft (([], kvs) # os) tail"
          using w by (simp del: dumps.simps)
        moreover have "stream_ok ft (([], kvs) # os) tail" using ok by (simp add: stream_ok_def stray_def)
        moreover have "\<forall>st. readings (readings st []) (([], kvs) # os) = readings st (o1 # os)" using o1 by simp
        ultimately show ?thesis by blast
      qed
    qed
  next
    fix u assume u: "sep = p @ u" "q = u @ ?d @ ?r" "u \<noteq> []"
    then have s: "stray p" "stray u" using ok(1) by (auto simp: stray_def)
    then have "decode_buffer st p = (readings st [], [])" using decode_buffer_stray by simp
    moreover have "[] @ q = stream_text ft ((u, kvs) # os) tail" using u(2) by simp
    moreover have "stream_ok ft ((u, kvs) # os) tail" using ok s by (simp add: stream_ok_def)
    moreover have "\<forall>st. readings (readings st []) ((u, kvs) # os) = readings st (o1 # os)" using o1 by simp
    ultimately show ?thesis by blast
  qed
qed

lemma decode_all: "stream_ok ft os tail \<Longrightarrow> decode_buffer st (stream_text ft os tail) = (readings st os, [])"
proof (induction os arbitrary: st)
  case Nil
  then show ?case by (simp add: decode_buffer_stray stream_ok_def)
next
  case (Cons o1 os)
  obtain sep kvs where o1: "o1 = (sep, kvs)" by (cases o1)
  then have "stray sep" "json_ok ft (JObj kvs)" "stream_ok ft os tail"
    using Cons.prems by (auto simp: stream_ok_def)
  then show ?case using decode_buffer_object Cons.IH o1 by simp
qed

lemma read_chunks_stream:
  assumes "stream_ok ft os tail" "buffer @ concat cs = stream_text ft os tail" "cs \<noteq> []"
  shows "read_chunks (st, buffer) cs = (readings st os, [])"
  using assms
proof (induction cs arbitrary: st buffer os tail)
  case (Cons c cs)
  show ?case
  proof (cases "cs = []")
    case True
    then show ?thesis using Cons.prems decode_all by simp
  next
    case False
    have "stream_text ft os tail = (buffer @ c) @ concat cs" using Cons.prems(2) by simp
    from decode_prefix [OF Cons.prems(1) this, of st] obtain ds os' tail' b where
      d: "decode_buffer st (buffer @ c) = (readings st ds, b)" "b @ concat cs = stream_text ft os' tail'"
      "stream_ok ft os' tail'" "\<forall>st. readings (readings st ds) os' = readings st os" by blast
    from Cons.IH [OF d(3,2) False, of "readings st ds"] d(1,4) show ?thesis by simp
  qed
qed simp

end
