(* ===== verification/Py_Datetime.thy ===== *)
theory Py_Datetime
  imports Py_Numbers
begin

section \<open>The datetime values of the log parser\<close>

text \<open>
  \<open>datetime.datetime\<close> as the constructor that raises on an impossible date, \<open>replace(year=...)\<close>,
  comparison (a linear order on the fields), adding one day, and the POSIX timestamp of an
  aware value. The timestamp of a naive value depends on the host's time zone: callers take
  it as the parameter \<open>mktime\<close>.
\<close>

datatype datetime = DateTime (dt_year: int) (dt_month: int) (dt_day: int)
  (dt_hour: int) (dt_minute: int) (dt_second: int) (dt_micro: int)

definition is_leap :: "int \<Rightarrow> bool" where
  "is_leap y \<longleftrightarrow> y mod 4 = 0 \<and> (y mod 100 \<noteq> 0 \<or> y mod 400 = 0)"

definition days_in_month :: "int \<Rightarrow> int \<Rightarrow> int" where
  "days_in_month y m = (if m = 2 then (if is_leap y then 29 else 28)
     else if m \<in> {4, 6, 9, 11} then 30 else 31)"

definition valid_datetime :: "datetime \<Rightarrow> bool" where
  "valid_datetime d \<longleftrightarrow> 1 \<le> dt_year d \<and> dt_year d \<le> 9999 \<and> 1 \<le> dt_month d \<and> dt_month d \<le> 12
     \<and> 1 \<le> dt_day d \<and> dt_day d \<le> days_in_month (dt_year d) (dt_month d)
     \<and> 0 \<le> dt_hour d \<and> dt_hour d < 24 \<and> 0 \<le> dt_minute d \<and> dt_minute d < 60
     \<and> 0 \<le> dt_second d \<and> dt_second d < 60 \<and> 0 \<le> dt_micro d \<and> dt_micro d < 1000000"

definition mk_datetime :: "int \<Rightarrow> int \<Rightarrow> int \<Rightarrow> int \<Rightarrow> int \<Rightarrow> int \<Rightarrow> int \<Rightarrow> datetime result" where
  "mk_datetime y mo d h mi s us = (let t = DateTime y mo d h mi s us in
     if valid_datetime t then Inr t else Inl (ValueError ''date or time out of range''))"

definition replace_year :: "datetime \<Rightarrow> int \<Rightarrow> datetime result" where
  "replace_year t y = mk_datetime y (dt_month t) (dt_day t) (dt_hour t) (dt_minute t)
     (dt_second t) (dt_micro t)"

definition add_one_day :: "datetime \<Rightarrow> datetime" where
  "add_one_day t = (case t of DateTime y mo d h mi s us \<Rightarrow>
     if d < days_in_month y mo then DateTime y mo (d + 1) h mi s us
     else if mo < 12 then DateTime y (mo + 1) 1 h mi s us
     else DateTime (y + 1) 1 1 h mi s us)"

definition dt_key :: "datetime \<Rightarrow> int list" where
  "dt_key t = [dt_year t, dt_month t, dt_day t, dt_hour t, dt_minute t, dt_second t, dt_micro t]"

lemma dt_key_inject [simp]: "dt_key a = dt_key b \<longleftrightarrow> a = b"
  by (cases a; cases b) (simp add: dt_key_def)

instantiation datetime :: linorder
begin

definition less_eq_datetime :: "datetime \<Rightarrow> datetime \<Rightarrow> bool" where
  "less_eq_datetime a b \<longleftrightarrow> dt_key a \<le> dt_key b"

definition less_datetime :: "datetime \<Rightarrow> datetime \<Rightarrow> bool" where
  "less_datetime a b \<longleftrightarrow> dt_key a < dt_key b"

instance
proof
  fix a b :: datetime
  show "(a < b) = (a \<le> b \<and> \<not> b \<le> a)"
    by (auto simp: less_eq_datetime_def less_datetime_def less_le_not_le)
  show "a \<le> b \<or> b \<le> a" by (simp add: less_eq_datetime_def linear)
qed (auto simp: less_eq_datetime_def)

end

lemma year_le: "a \<le> b \<Longrightarrow> dt_year a \<le> dt_year b" for a b :: datetime
  by (cases a; cases b) (auto simp: less_eq_datetime_def dt_key_def)

lemma year_less: "dt_year a < dt_year b \<Longrightarrow> a < b" for a b :: datetime
  by (cases a; cases b) (auto simp: less_datetime_def dt_key_def)

lemma add_one_day_later: "t < add_one_day t"
  by (cases t) (auto simp: add_one_day_def less_datetime_def dt_key_def)

lemma add_one_day_valid:
  "valid_datetime t \<Longrightarrow> dt_year t < 9999 \<Longrightarrow> valid_datetime (add_one_day t)"
  by (cases t) (auto simp: add_one_day_def valid_datetime_def days_in_month_def)

lemma add_one_day_year: "dt_year t \<le> dt_year (add_one_day t)"
  by (cases t) (auto simp: add_one_day_def)

subsection \<open>POSIX timestamps\<close>

definition days_before_year :: "int \<Rightarrow> int" where
  "days_before_year y = (let p = y - 1 in p * 365 + p div 4 - p div 100 + p div 400)"

definition days_before_month :: "int \<Rightarrow> int \<Rightarrow> int" where
  "days_before_month y m = sum_list (map (days_in_month y) [1..m - 1])"

definition toordinal :: "datetime \<Rightarrow> int" where
  "toordinal t = days_before_year (dt_year t) + days_before_month (dt_year t) (dt_month t) + dt_day t"

definition utc_timestamp :: "datetime \<Rightarrow> int \<Rightarrow> rat" where
  \<comment> \<open>the offset from UTC is given in minutes\<close>
  "utc_timestamp t off = of_int ((toordinal t - 719163) * 86400 + dt_hour t * 3600
     + dt_minute t * 60 + dt_second t - off * 60) + of_int (dt_micro t) / 1000000"

subsection \<open>ISO 8601 strings of the shape the log parser accepts\<close>

definition nat_at :: "nat \<Rightarrow> nat \<Rightarrow> string \<Rightarrow> int" where
  "nat_at i n s = int (digits_val (take n (drop i s)))"

definition iso_micro :: "string \<Rightarrow> int" where
  \<comment> \<open>fraction digits, cut or padded to six\<close>
  "iso_micro ds = int (digits_val (take 6 (ds @ replicate 6 CHR ''0'')))"

definition fromisoformat :: "string \<Rightarrow> (datetime \<times> int) result" where
  "fromisoformat s = (let rest = drop 19 s;
      frac = (if startswith rest ''.'' then takeWhile is_digit (drop 1 rest) else []);
      zone = (if startswith rest ''.'' then dropWhile is_digit (drop 1 rest) else rest);
      off = nat_at 1 2 zone * 60 + nat_at 4 2 zone;
      soff = (if startswith zone ''-'' then - off else off)
    in case mk_datetime (nat_at 0 4 s) (nat_at 5 2 s) (nat_at 8 2 s)
              (nat_at 11 2 s) (nat_at 14 2 s) (nat_at 17 2 s) (iso_micro frac) of
         Inl e \<Rightarrow> Inl e
       | Inr t \<Rightarrow> if off < 1440 then Inr (t, soff)
                  else Inl (ValueError ''offset must be strictly between -24h and 24h''))"

lemma mk_datetime_Inr:
  "mk_datetime y mo d h mi s us = Inr t \<Longrightarrow> t = DateTime y mo d h mi s us \<and> valid_datetime t"
  by (auto simp: mk_datetime_def Let_def split: if_splits)

lemma replace_year_Inr: "replace_year t y = Inr u \<Longrightarrow> dt_year u = y \<and> valid_datetime u"
  by (auto simp: replace_year_def dest: mk_datetime_Inr)

lemma fromisoformat_valid: "fromisoformat s = Inr (t, off) \<Longrightarrow> valid_datetime t \<and> \<bar>off\<bar> < 1440"
  by (auto simp: fromisoformat_def Let_def nat_at_def dest!: mk_datetime_Inr split: sum.splits if_splits)

end
