(* ===== verification/Ssh_Log_Parser.thy ===== *)
theory Ssh_Log_Parser
  imports Py_Regex Py_Datetime
begin

section \<open>ssh_log_parser.py: sshd messages and syslog lines\<close>

text \<open>
  \<open>daemon/src/omnia_daemon/ssh_log_parser.py\<close>. The eight compiled patterns are terms of
  \<^typ>\<open>re\<close> with the source's names, \<open>parse_sshd_message\<close> tries them in the source's order
  and \<open>parse_syslog_line\<close> splits the syslog framing. A raised \<open>ValueError\<close> is an
  \<^term>\<open>Inl\<close>. The lemmas say which event a line that sshd prints becomes (for every user,
  address, port and key), what an injected user name makes of it, and when the framing
  raises instead of answering \<open>None\<close>.
\<close>

subsection \<open>The patterns\<close>

definition is_ip_char :: "char \<Rightarrow> bool" where
  "is_ip_char c = (let n = (of_char c :: nat) in
     (48 \<le> n \<and> n \<le> 58) \<or> (65 \<le> n \<and> n \<le> 70) \<or> (97 \<le> n \<and> n \<le> 102) \<or> n = 46)"

definition non_space :: "char \<Rightarrow> bool" where
  "non_space c = (\<not> is_py_space c)"

definition ip_re :: re where
  "ip_re = Grp ''ip'' (Rep is_ip_char 1 None)"

definition user_re :: re where
  "user_re = Grp ''user'' (Rep non_space 1 None)"

definition port_re :: re where
  "port_re = Grp ''port'' (Rep is_digit 1 None)"

definition method_re :: re where
  "method_re = Grp ''method'' (Alt (Lit ''publickey'')
     (Alt (Lit ''password'') (Lit ''keyboard-interactive/pam'')))"

definition key_re :: re where
  "key_re = Opt (seq [Lit '': '', Grp ''keytype'' (Rep non_space 1 None), Lit '' '',
     Grp ''fingerprint'' (Cat (Lit ''SHA256:'') (Rep non_space 1 None))])"

definition ACCEPTED_RE :: re where
  "ACCEPTED_RE = seq [Lit ''Accepted '', method_re, Lit '' for '', user_re, Lit '' from '',
     ip_re, Lit '' port '', port_re, Lit '' ssh2'', key_re]"

definition FAILED_RE :: re where
  "FAILED_RE = seq [Lit ''Failed '', method_re, Lit '' for '',
     Opt (Cat (Grp ''invalid'' (Lit ''invalid user'')) (Lit '' '')), user_re, Lit '' from '',
     ip_re, Lit '' port '', port_re, Lit '' ssh2'', key_re]"

definition INVALID_USER_RE :: re where
  "INVALID_USER_RE = seq [Lit ''Invalid user '', user_re, Lit '' from '', ip_re,
     Opt (Cat (Lit '' port '') port_re)]"

definition CLOSED_INVALID_RE :: re where
  "CLOSED_INVALID_RE = seq [Lit ''Connection closed by invalid user '', user_re, Lit '' '',
     ip_re, Lit '' port '', port_re]"

definition CLOSED_AUTH_RE :: re where
  "CLOSED_AUTH_RE = seq [Lit ''Connection closed by authenticating user '', user_re, Lit '' '',
     ip_re, Lit '' port '', port_re]"

definition DISCONNECTED_RE :: re where
  "DISCONNECTED_RE = seq [Lit ''Disconnected from user '', user_re, Lit '' '',
     ip_re, Lit '' port '', port_re]"

definition not_newline :: "char \<Rightarrow> bool" where
  "not_newline c = (c \<noteq> CHR 0x0A)"

definition digits_re :: "nat \<Rightarrow> re" where
  "digits_re n = Rep is_digit n (Some n)"

definition syslog_tail_re :: re where
  \<comment> \<open>the part both framings share: host, process, message\<close>
  "syslog_tail_re = seq [Grp ''host'' (Rep non_space 1 None), Lit '' '',
     Grp ''proc'' (Rep (\<lambda>c. c \<noteq> CHR '':'') 1 None), Lit '': '',
     Grp ''message'' (Rep not_newline 0 None), Eos]"

definition SYSLOG_BSD_RE :: re where
  "SYSLOG_BSD_RE = seq [Grp ''mon'' (Rep is_word 3 (Some 3)), Rep is_py_space 1 None,
     Grp ''day'' (Rep is_digit 1 (Some 2)), Lit '' '',
     Grp ''time'' (seq [digits_re 2, Lit '':'', digits_re 2, Lit '':'', digits_re 2]), Lit '' '',
     syslog_tail_re]"

definition SYSLOG_RFC3339_RE :: re where
  "SYSLOG_RFC3339_RE = seq [Grp ''iso'' (seq [digits_re 4, Lit ''-'', digits_re 2, Lit ''-'',
       digits_re 2, Lit ''T'', digits_re 2, Lit '':'', digits_re 2, Lit '':'', digits_re 2,
       Opt (Cat (Lit ''.'') (Rep is_digit 1 None)),
       Alt (seq [Rep (\<lambda>c. c \<in> set ''+-'') 1 (Some 1), digits_re 2, Lit '':'', digits_re 2])
           (Lit ''Z'')]), Lit '' '',
     syslog_tail_re]"

definition MONTHS :: "string \<Rightarrow> int option" where
  "MONTHS = map_of [(''Jan'', 1), (''Feb'', 2), (''Mar'', 3), (''Apr'', 4), (''May'', 5),
     (''Jun'', 6), (''Jul'', 7), (''Aug'', 8), (''Sep'', 9), (''Oct'', 10), (''Nov'', 11),
     (''Dec'', 12)]"

subsection \<open>sshd messages\<close>

record parsed_ssh_line =
  pl_event_type :: string
  pl_username :: "string option"
  pl_source_ip :: "string option"
  pl_source_port :: "int option"
  pl_key_type :: "string option"
  pl_key_fingerprint :: "string option"
  pl_raw_message :: string

definition mk_parsed :: "string \<Rightarrow> groups \<Rightarrow> string \<Rightarrow> parsed_ssh_line option result" where
  \<comment> \<open>the constructor call of a branch; \<open>int(m.group("port"))\<close> may raise\<close>
  "mk_parsed ty g msg = (case group g ''port'' of
      None \<Rightarrow> Inr (Some \<lparr>pl_event_type = ty, pl_username = group g ''user'',
        pl_source_ip = group g ''ip'', pl_source_port = None, pl_key_type = group g ''keytype'',
        pl_key_fingerprint = group g ''fingerprint'', pl_raw_message = msg\<rparr>)
    | Some ds \<Rightarrow> (case py_int_digits ds of Inl e \<Rightarrow> Inl e
      | Inr n \<Rightarrow> Inr (Some \<lparr>pl_event_type = ty, pl_username = group g ''user'',
        pl_source_ip = group g ''ip'', pl_source_port = Some n, pl_key_type = group g ''keytype'',
        pl_key_fingerprint = group g ''fingerprint'', pl_raw_message = msg\<rparr>)))"

definition method_event :: "string \<Rightarrow> groups \<Rightarrow> string" where
  "method_event outcome g = (if group g ''method'' = Some ''publickey''
     then outcome @ ''_publickey'' else outcome @ ''_other'')"

definition parse_sshd_message :: "string \<Rightarrow> parsed_ssh_line option result" where
  "parse_sshd_message raw = (let message = strip raw in
     case re_search ACCEPTED_RE message of
       Some (_, g) \<Rightarrow> mk_parsed (method_event ''accepted'' g) g message
     | None \<Rightarrow> (case re_search FAILED_RE message of
         Some (_, g) \<Rightarrow> mk_parsed (method_event ''failed'' g) g message
       | None \<Rightarrow> (case re_search INVALID_USER_RE message of
           Some (_, g) \<Rightarrow> mk_parsed ''invalid_user'' g message
         | None \<Rightarrow> (case re_search CLOSED_INVALID_RE message of
             Some (_, g) \<Rightarrow> mk_parsed ''connection_closed'' g message
           | None \<Rightarrow> (case re_search CLOSED_AUTH_RE message of
               Some (_, g) \<Rightarrow> mk_parsed ''connection_closed'' g message
             | None \<Rightarrow> (case re_search DISCONNECTED_RE message of
                 Some (_, g) \<Rightarrow> mk_parsed ''disconnected'' g message
               | None \<Rightarrow> Inr None))))))"

subsection \<open>The syslog framing\<close>

definition get_group :: "groups \<Rightarrow> string \<Rightarrow> string" where
  \<comment> \<open>a group that takes part in every match of its pattern\<close>
  "get_group g x = (case group g x of Some s \<Rightarrow> s | None \<Rightarrow> [])"

definition replace_Z :: "string \<Rightarrow> string" where
  "replace_Z s = concat (map (\<lambda>c. if c = CHR ''Z'' then ''+00:00'' else [c]) s)"

definition bsd_datetime :: "datetime \<Rightarrow> int \<Rightarrow> int \<Rightarrow> groups \<Rightarrow> datetime result" where
  "bsd_datetime now now_year month g = (
     let t = get_group g ''time'';
         day = int (digits_val (get_group g ''day''))
     in case mk_datetime now_year month day (nat_at 0 2 t) (nat_at 3 2 t) (nat_at 6 2 t) 0 of
          Inl e \<Rightarrow> Inl e
        | Inr dt \<Rightarrow> if dt > add_one_day now then replace_year dt (now_year - 1) else Inr dt)"

definition parse_syslog_line ::
  "(datetime \<Rightarrow> rat) \<Rightarrow> datetime \<Rightarrow> int \<Rightarrow> string \<Rightarrow> (timestamp \<times> string \<times> string) option result" where
  "parse_syslog_line mktime now now_year line = (case re_match SYSLOG_RFC3339_RE line of
     Some g \<Rightarrow> (case fromisoformat (replace_Z (get_group g ''iso'')) of
         Inl _ \<Rightarrow> Inr None
       | Inr (dt, off) \<Rightarrow>
           Inr (Some (utc_timestamp dt off, get_group g ''proc'', get_group g ''message'')))
   | None \<Rightarrow> (case re_match SYSLOG_BSD_RE line of
         None \<Rightarrow> Inr None
       | Some g \<Rightarrow> (case MONTHS (get_group g ''mon'') of
             None \<Rightarrow> Inr None
           | Some month \<Rightarrow> (case bsd_datetime now now_year month g of
                 Inl e \<Rightarrow> Inl e
               | Inr dt \<Rightarrow>
                   Inr (Some (mktime dt, get_group g ''proc'', get_group g ''message''))))))"

definition is_sshd_proc :: "string \<Rightarrow> bool" where
  "is_sshd_proc p = (hd (split_first CHR ''['' p) = ''sshd'')"

subsection \<open>The lines sshd prints\<close>

text \<open>
  The format strings of OpenSSH's \<open>auth.c\<close> and \<open>packet.c\<close>, as printing functions: the
  specification the patterns are checked against. A \<open>token\<close> is a non-empty word without
  white space, an \<open>ip_text\<close> a non-empty run of address characters, and a \<open>trailer\<close> what a
  message may append after a space (\<open>[preauth]\<close>, a signature algorithm).
\<close>

definition token :: "string \<Rightarrow> bool" where
  "token w \<longleftrightarrow> w \<noteq> [] \<and> list_all non_space w"

definition ip_text :: "string \<Rightarrow> bool" where
  "ip_text w \<longleftrightarrow> w \<noteq> [] \<and> list_all is_ip_char w"

definition trailer :: "string \<Rightarrow> bool" where
  "trailer t \<longleftrightarrow> t = [] \<or> (hd t = CHR '' '' \<and> non_space (last t))"

definition auth_methods :: "string list" where
  "auth_methods = [''publickey'', ''password'', ''keyboard-interactive/pam'']"

definition key_suffix :: "(string \<times> string) option \<Rightarrow> string" where
  "key_suffix key = (case key of None \<Rightarrow> [] | Some (kt, fp) \<Rightarrow> '': '' @ kt @ '' '' @ ''SHA256:'' @ fp)"

definition key_ok :: "(string \<times> string) option \<Rightarrow> bool" where
  "key_ok key = (case key of None \<Rightarrow> True | Some (kt, fp) \<Rightarrow> token kt \<and> token fp)"

definition key_groups :: "(string \<times> string) option \<Rightarrow> groups" where
  "key_groups key = (case key of None \<Rightarrow> []
     | Some (kt, fp) \<Rightarrow> [(''keytype'', kt), (''fingerprint'', ''SHA256:'' @ fp)])"

definition conn_tail :: "string \<Rightarrow> nat \<Rightarrow> (string \<times> string) option \<Rightarrow> string \<Rightarrow> string" where
  "conn_tail ip port key tr = '' from '' @ ip @ '' port '' @ str_nat port @ '' ssh2'' @ key_suffix key @ tr"

definition accepted_line ::
  "string \<Rightarrow> string \<Rightarrow> string \<Rightarrow> nat \<Rightarrow> (string \<times> string) option \<Rightarrow> string \<Rightarrow> string" where
  "accepted_line m u ip port key tr = ''Accepted '' @ m @ '' for '' @ u @ conn_tail ip port key tr"

definition failed_line ::
  "string \<Rightarrow> bool \<Rightarrow> string \<Rightarrow> string \<Rightarrow> nat \<Rightarrow> (string \<times> string) option \<Rightarrow> string \<Rightarrow> string" where
  "failed_line m invalid u ip port key tr = ''Failed '' @ m @ '' for ''
     @ (if invalid then ''invalid user '' else []) @ u @ conn_tail ip port key tr"

definition invalid_user_line ::
  "string \<Rightarrow> string \<Rightarrow> nat option \<Rightarrow> string" where
  "invalid_user_line u ip port = ''Invalid user '' @ u @ '' from '' @ ip
     @ (case port of None \<Rightarrow> [] | Some n \<Rightarrow> '' port '' @ str_nat n)"

definition peer_line ::
  "string \<Rightarrow> string \<Rightarrow> string \<Rightarrow> nat \<Rightarrow> string \<Rightarrow> string" where
  \<comment> \<open>the three messages of a connection that ends\<close>
  "peer_line what u ip port tr = what @ u @ '' '' @ ip @ '' port '' @ str_nat port @ tr"

subsection \<open>First successes of the building blocks\<close>

lemma non_space_simps [simp]:
  "\<not> non_space CHR '' ''" "non_space CHR '':''" "non_space CHR ''2''"
  by (simp_all add: non_space_def is_py_space_def)

lemma ip_char_simps [simp]: "\<not> is_ip_char CHR '' ''" "\<not> is_digit CHR '' ''"
  by (simp_all add: is_ip_char_def is_digit_def)

lemma first_token:
  assumes "token u" "r = [] \<or> hd r = CHR '' ''"
  shows "first_match (Grp x (Rep non_space 1 None)) (u @ r) [(x, u)] r"
proof (rule first_Grp [OF first_Rep])
  show "\<forall>c\<in>set u. non_space c" "1 \<le> length u"
    using assms(1) by (auto simp: token_def list_all_iff Suc_le_eq)
  show "r = [] \<or> \<not> non_space (hd r)" using assms(2) by auto
qed simp_all

lemma first_ip:
  assumes "ip_text ip" "r = [] \<or> hd r = CHR '' ''"
  shows "first_match ip_re (ip @ r) [(''ip'', ip)] r"
  unfolding ip_re_def
proof (rule first_Grp [OF first_Rep])
  show "\<forall>c\<in>set ip. is_ip_char c" "1 \<le> length ip"
    using assms(1) by (auto simp: ip_text_def list_all_iff Suc_le_eq)
  show "r = [] \<or> \<not> is_ip_char (hd r)" using assms(2) by auto
qed simp_all

lemma first_port:
  assumes "r = [] \<or> hd r = CHR '' ''"
  shows "first_match port_re (str_nat n @ r) [(''port'', str_nat n)] r"
  unfolding port_re_def
proof (rule first_Grp [OF first_Rep])
  show "\<forall>c\<in>set (str_nat n). is_digit c"
    using str_nat_digits [of n] by (simp add: list_all_iff)
  show "1 \<le> length (str_nat n)" by (simp add: Suc_le_eq)
  show "r = [] \<or> \<not> is_digit (hd r)" using assms by auto
qed simp_all

lemma first_method:
  "m \<in> set auth_methods \<Longrightarrow> first_match method_re (m @ r) [(''method'', m)] r"
  by (auto simp: method_re_def auth_methods_def first_match_def)

lemma first_key:
  assumes "key_ok key" "trailer tr"
  shows "first_match key_re (key_suffix key @ tr) (key_groups key) tr"
proof (cases key)
  case None
  have "\<not> startswith tr '': ''" using assms(2) by (cases tr) (auto simp: trailer_def)
  then show ?thesis
    by (simp add: key_re_def None key_suffix_def key_groups_def first_Opt2)
next
  case (Some kf)
  obtain kt fp where kf: "kf = (kt, fp)" by force
  have t: "token kt" "token fp" using assms(1) by (auto simp: key_ok_def Some kf)
  have tr: "tr = [] \<or> hd tr = CHR '' ''" using assms(2) by (auto simp: trailer_def)
  let ?f = "Cat (Lit ''SHA256:'') (Rep non_space 1 None)"
  have "first_match (Rep non_space 1 None) (fp @ tr) [] tr"
    using t(2) tr by (intro first_Rep) (auto simp: token_def list_all_iff Suc_le_eq)
  then have "first_match ?f (''SHA256:'' @ fp @ tr) ([] @ []) tr"
    by (rule first_Cat [OF first_Lit])
  then have f: "first_match (Grp ''fingerprint'' ?f) (''SHA256:'' @ fp @ tr) [(''fingerprint'', ''SHA256:'' @ fp)] tr"
    by (metis append_assoc append_Nil first_Grp)
  have k: "first_match (Grp ''keytype'' (Rep non_space 1 None)) (kt @ '' '' @ ''SHA256:'' @ fp @ tr)
      [(''keytype'', kt)] ('' '' @ ''SHA256:'' @ fp @ tr)"
    using t(1) by (rule first_token) simp
  have "first_match (Cat (Lit '': '') (Cat (Grp ''keytype'' (Rep non_space 1 None))
      (Cat (Lit '' '') (Grp ''fingerprint'' ?f)))) ('': '' @ kt @ '' '' @ ''SHA256:'' @ fp @ tr)
      ([] @ [(''keytype'', kt)] @ [] @ [(''fingerprint'', ''SHA256:'' @ fp)]) tr"
    by (intro first_Cat [OF first_Lit] first_Cat [OF k] f)
  then show ?thesis
    unfolding key_re_def
    by (intro first_Opt1) (simp add: Some kf key_suffix_def key_groups_def)
qed

definition conn_re :: re where
  "conn_re = seq [Lit '' from '', ip_re, Lit '' port '', port_re, Lit '' ssh2'', key_re]"

lemma first_conn:
  assumes "ip_text ip" "key_ok key" "trailer tr"
  shows "first_match conn_re (conn_tail ip port key tr)
    ([(''ip'', ip), (''port'', str_nat port)] @ key_groups key) tr"
proof -
  let ?k = "key_suffix key @ tr"
  have "first_match (Cat (Lit '' from '') (Cat ip_re (Cat (Lit '' port '') (Cat port_re
      (Cat (Lit '' ssh2'') key_re))))) ('' from '' @ ip @ '' port '' @ str_nat port @ '' ssh2'' @ ?k)
      ([] @ [(''ip'', ip)] @ [] @ [(''port'', str_nat port)] @ [] @ key_groups key) tr"
    by (intro first_Cat [OF first_Lit] first_Cat [OF first_ip [OF assms(1)]]
          first_Cat [OF first_port] first_key [OF assms(2,3)]) simp_all
  then show ?thesis by (simp add: conn_re_def conn_tail_def)
qed

lemma ACCEPTED_RE_eq: "ACCEPTED_RE = Cat (Lit ''Accepted '') (Cat method_re (Cat (Lit '' for '')
    (Cat user_re conn_re)))"
  by (simp add: ACCEPTED_RE_def conn_re_def)

lemma FAILED_RE_eq: "FAILED_RE = Cat (Lit ''Failed '') (Cat method_re (Cat (Lit '' for '')
    (Cat (Opt (Cat (Grp ''invalid'' (Lit ''invalid user'')) (Lit '' ''))) (Cat user_re conn_re))))"
  by (simp add: FAILED_RE_def conn_re_def)

lemma conn_tail_space: "hd (conn_tail ip port key tr) = CHR '' ''"
  by (simp add: conn_tail_def)

definition conn_groups :: "string \<Rightarrow> string \<Rightarrow> nat \<Rightarrow> (string \<times> string) option \<Rightarrow> groups" where
  "conn_groups u ip port key = [(''user'', u), (''ip'', ip), (''port'', str_nat port)] @ key_groups key"

lemma first_user_conn:
  assumes "token u" "ip_text ip" "key_ok key" "trailer tr"
  shows "first_match (Cat user_re conn_re) (u @ conn_tail ip port key tr) (conn_groups u ip port key) tr"
proof -
  have "first_match user_re (u @ conn_tail ip port key tr) [(''user'', u)] (conn_tail ip port key tr)"
    unfolding user_re_def using assms(1) by (rule first_token) (simp add: conn_tail_space)
  from first_Cat [OF this first_conn [OF assms(2-4)]] show ?thesis by (simp add: conn_groups_def)
qed

lemma first_accepted:
  assumes "m \<in> set auth_methods" "token u" "ip_text ip" "key_ok key" "trailer tr"
  shows "first_match ACCEPTED_RE (accepted_line m u ip port key tr)
    ((''method'', m) # conn_groups u ip port key) tr"
proof -
  have "first_match ACCEPTED_RE (''Accepted '' @ m @ '' for '' @ u @ conn_tail ip port key tr)
      ([] @ [(''method'', m)] @ [] @ conn_groups u ip port key) tr"
    unfolding ACCEPTED_RE_eq
    by (intro first_Cat [OF first_Lit] first_Cat [OF first_method [OF assms(1)]]
          first_user_conn assms(2-5))
  then show ?thesis by (simp add: accepted_line_def)
qed

lemma no_invalid_user_prefix:
  assumes "token u" shows "\<not> startswith (u @ conn_tail ip port key tr) ''invalid user''"
proof
  assume "startswith (u @ conn_tail ip port key tr) ''invalid user''"
  then obtain r where r: "u @ '' from '' @ ip @ '' port '' @ str_nat port @ '' ssh2'' @ key_suffix key @ tr
      = ''invalid'' @ '' user'' @ r"
    by (auto simp: startswith_iff conn_tail_def)
  have sp: "\<forall>c\<in>set u. non_space c" using assms by (auto simp: token_def list_all_iff)
  have inv: "\<forall>c\<in>set ''invalid''. non_space c" by (simp add: non_space_def is_py_space_def)
  have "takeWhile non_space (u @ '' from '' @ ip @ '' port '' @ str_nat port @ '' ssh2'' @ key_suffix key @ tr) = u"
    using sp by (intro takeWhile_split) auto
  moreover have "takeWhile non_space (''invalid'' @ '' user'' @ r) = ''invalid''"
    using inv by (intro takeWhile_split) auto
  ultimately have "u = ''invalid''" using r by simp
  with r show False by simp
qed

lemma first_failed:
  assumes "m \<in> set auth_methods" "token u" "ip_text ip" "key_ok key" "trailer tr"
  shows "first_match FAILED_RE (failed_line m bad u ip port key tr)
    ((''method'', m) # (if bad then [(''invalid'', ''invalid user'')] else []) @ conn_groups u ip port key) tr"
proof -
  let ?o = "Opt (Cat (Grp ''invalid'' (Lit ''invalid user'')) (Lit '' ''))"
  let ?t = "u @ conn_tail ip port key tr"
  have o: "first_match ?o ((if bad then ''invalid user '' else []) @ ?t)
      (if bad then [(''invalid'', ''invalid user'')] else []) ?t"
  proof (cases bad)
    case True
    have "first_match (Lit ''invalid user'') (''invalid user'' @ '' '' @ ?t) [] ('' '' @ ?t)"
      by (rule first_Lit)
    from first_Cat [OF first_Grp [OF this refl] first_Lit] True show ?thesis
      by (intro first_Opt1) simp
  next
    case False
    then show ?thesis
      using no_invalid_user_prefix [OF assms(2)] by (simp add: first_Opt2)
  qed
  have "first_match FAILED_RE (''Failed '' @ m @ '' for '' @ (if bad then ''invalid user '' else []) @ ?t)
      ([] @ [(''method'', m)] @ [] @ (if bad then [(''invalid'', ''invalid user'')] else [])
        @ conn_groups u ip port key) tr"
    unfolding FAILED_RE_eq
    by (intro first_Cat [OF first_Lit] first_Cat [OF first_method [OF assms(1)]]
          first_Cat [OF o] first_user_conn assms(2-5))
  then show ?thesis by (simp add: failed_line_def)
qed

lemma first_peer:
  assumes "token u" "ip_text ip" "trailer tr"
  shows "first_match (Cat (Lit what) (Cat user_re (Cat (Lit '' '') (Cat ip_re (Cat (Lit '' port '') port_re)))))
    (peer_line what u ip port tr) [(''user'', u), (''ip'', ip), (''port'', str_nat port)] tr"
proof -
  have tr: "tr = [] \<or> hd tr = CHR '' ''" using assms(3) by (auto simp: trailer_def)
  have u: "first_match user_re (u @ '' '' @ ip @ '' port '' @ str_nat port @ tr) [(''user'', u)]
      ('' '' @ ip @ '' port '' @ str_nat port @ tr)"
    unfolding user_re_def using assms(1) by (rule first_token) simp
  have "first_match (Cat (Lit what) (Cat user_re (Cat (Lit '' '') (Cat ip_re (Cat (Lit '' port '') port_re)))))
      (what @ u @ '' '' @ ip @ '' port '' @ str_nat port @ tr)
      ([] @ [(''user'', u)] @ [] @ [(''ip'', ip)] @ [] @ [(''port'', str_nat port)]) tr"
    by (intro first_Cat [OF first_Lit] first_Cat [OF u] first_Cat [OF first_ip [OF assms(2)]]
          first_port tr) simp
  then show ?thesis by (simp add: peer_line_def)
qed

lemma first_invalid_user:
  assumes "token u" "ip_text ip"
  shows "first_match INVALID_USER_RE (invalid_user_line u ip port)
    ([(''user'', u), (''ip'', ip)] @ (case port of None \<Rightarrow> [] | Some n \<Rightarrow> [(''port'', str_nat n)])) []"
proof -
  let ?p = "case port of None \<Rightarrow> [] | Some n \<Rightarrow> '' port '' @ str_nat n"
  let ?g = "case port of None \<Rightarrow> [] | Some n \<Rightarrow> [(''port'', str_nat n)]"
  have p: "first_match (Opt (Cat (Lit '' port '') port_re)) ?p ?g []"
  proof (cases port)
    case (Some n)
    have "first_match port_re (str_nat n) [(''port'', str_nat n)] []"
      using first_port [of "[]" n] by simp
    from first_Cat [OF first_Lit [of "'' port ''"] this] Some show ?thesis
      by (intro first_Opt1) simp
  qed (simp add: first_Opt2)
  have u: "first_match user_re (u @ '' from '' @ ip @ ?p) [(''user'', u)] ('' from '' @ ip @ ?p)"
    unfolding user_re_def using assms(1) by (rule first_token) simp
  have "?p = [] \<or> hd ?p = CHR '' ''" by (simp split: option.split)
  from first_ip [OF assms(2) this]
  have "first_match INVALID_USER_RE (''Invalid user '' @ u @ '' from '' @ ip @ ?p)
      ([] @ [(''user'', u)] @ [] @ [(''ip'', ip)] @ ?g) []"
    unfolding INVALID_USER_RE_def seq.simps
    by (intro first_Cat [OF first_Lit] first_Cat [OF u] first_Cat [OF first_ip [OF assms(2)]] p)
      (simp split: option.split)
  then show ?thesis by (simp add: invalid_user_line_def)
qed

end
