(* ===== verification/Ssh_Ingest.thy ===== *)
theory Ssh_Ingest
  imports Alerts Key_Fingerprint Ssh_Log_Parser
begin

section \<open>ssh_ingest.py: from the log source to the database\<close>

text \<open>
  \<open>daemon/src/omnia_daemon/ssh_ingest.py\<close> and \<open>run_ssh_ingest_loop\<close> of \<open>scheduler.py\<close>, whose
  callback it is given. A generator is a step function: one line of \<open>journalctl\<close>, or one poll of
  the log file, in which the file is what \<open>stat\<close> and \<open>read\<close> answer. The consumer's loop is
  \<open>handle_message\<close>, run on what a step yields before the next step. A line of the log file is
  decoded byte for byte (\<open>decode(errors="replace")\<close> on the bytes below 128; a byte above stands
  for the replacement character). The clocks, \<open>time.localtime\<close> and the key file are parameters
  that stay fixed during a step.
\<close>

definition CURSOR_STATE_KEY :: string where "CURSOR_STATE_KEY = ''journald_cursor''"
definition TAIL_INODE_KEY :: string where "TAIL_INODE_KEY = ''authlog_inode''"
definition TAIL_OFFSET_KEY :: string where "TAIL_OFFSET_KEY = ''authlog_offset''"
definition MAX_BACKOFF_SECONDS :: rat where "MAX_BACKOFF_SECONDS = 30"

subsection \<open>Choosing the source\<close>

fun find_working_unit :: "(string \<Rightarrow> int result) \<Rightarrow> string list \<Rightarrow> string option result" where
  \<comment> \<open>\<open>run\<close>: the exit status of \<open>journalctl -u unit\<close>, or what \<open>subprocess.run\<close> raises\<close>
  "find_working_unit run [] = Inr None"
| "find_working_unit run (u # us) = (case run u of
      Inl (TimeoutExpired _) \<Rightarrow> Inr None
    | Inl e \<Rightarrow> if is_os_error e then Inr None else Inl e
    | Inr rc \<Rightarrow> if rc = 0 then Inr (Some u) else find_working_unit run us)"

datatype source = Journald string | TailAuthLog string

definition pick_source ::
  "bool \<Rightarrow> bool \<Rightarrow> (string \<Rightarrow> int result) \<Rightarrow> string list \<Rightarrow> string result \<Rightarrow> source result" where
  \<comment> \<open>\<open>config.ssh.use_journald\<close>, \<open>shutil.which("journalctl")\<close>, the candidates, the expanded path\<close>
  "pick_source use_journald has_journalctl run candidates auth_log_path =
     (case (if use_journald \<and> has_journalctl then find_working_unit run candidates else Inr None) of
        Inl e \<Rightarrow> Inl e
      | Inr (Some u) \<Rightarrow> if u \<noteq> [] then Inr (Journald u)
          else (case auth_log_path of Inl e \<Rightarrow> Inl e | Inr p \<Rightarrow> Inr (TailAuthLog p))
      | Inr None \<Rightarrow> (case auth_log_path of Inl e \<Rightarrow> Inl e | Inr p \<Rightarrow> Inr (TailAuthLog p)))"

subsection \<open>journald\<close>

definition journald_cmd :: "string \<Rightarrow> database \<Rightarrow> string list" where
  "journald_cmd unit db =
     [''journalctl'', ''-u'', unit, ''-o'', ''json'', ''--follow'', ''--no-pager''] @
     (case get_state CURSOR_STATE_KEY db of
        Some c \<Rightarrow> if c \<noteq> [] then [''--after-cursor'', c] else [''-n'', ''0'']
      | None \<Rightarrow> [''-n'', ''0''])"

definition float_of_text :: "string \<Rightarrow> rat result" where
  \<comment> \<open>\<open>float(s)\<close> on a decimal integer, the form journald prints\<close>
  "float_of_text s = (if s \<noteq> [] \<and> list_all is_digit s then Inr (of_nat (digits_val s))
     else Inl (ValueError ''could not convert string to float''))"

fun micro_timestamp :: "timestamp \<Rightarrow> json option \<Rightarrow> timestamp result" where
  \<comment> \<open>\<open>float(ts_micro) / 1_000_000 if ts_micro else time.time()\<close>\<close>
  "micro_timestamp now None = Inr now"
| "micro_timestamp now (Some j) = (if \<not> truthy j then Inr now else (case j of
      JStr s \<Rightarrow> (case float_of_text s of Inl e \<Rightarrow> Inl e | Inr x \<Rightarrow> Inr (x / 1000000))
    | _ \<Rightarrow> (case json_number j of Some x \<Rightarrow> Inr (x / 1000000)
        | None \<Rightarrow> Inl (TypeError ''float() argument must be a string or a real number''))))"

fun store_cursor :: "json option \<Rightarrow> database \<Rightarrow> database result" where
  \<comment> \<open>the cursor is text; an integer would be stored as text, a container cannot be bound (a float,
    which the journal never has there, is left out with the containers)\<close>
  "store_cursor None db = Inr db"
| "store_cursor (Some j) db = (if \<not> truthy j then Inr db else (case j of
      JStr c \<Rightarrow> Inr (set_state CURSOR_STATE_KEY c db)
    | JInt n \<Rightarrow> if sql_int n then Inr (set_state CURSOR_STATE_KEY (str_int n) db) else overflow
    | JBool _ \<Rightarrow> Inr (set_state CURSOR_STATE_KEY ''1'' db)
    | _ \<Rightarrow> Inl (TypeError ''type is not supported'')))"

definition journald_line ::
  "timestamp \<Rightarrow> string \<Rightarrow> database \<Rightarrow> database \<times> (timestamp \<times> string) option result" where
  \<comment> \<open>the body of the loop for one line; \<open>None\<close> is \<open>continue\<close>\<close>
  "journald_line now raw db = (case loads raw of
      Inl (JSONDecodeError _) \<Rightarrow> (db, Inr None)
    | Inl e \<Rightarrow> (db, Inl e)
    | Inr entry \<Rightarrow> if \<not> is_obj entry then (db, Inl (AttributeError ''object has no attribute get''))
        else (case obj_get entry ''MESSAGE'' of
          Some (JStr message) \<Rightarrow> (case store_cursor (obj_get entry ''__CURSOR'') db of
              Inl e \<Rightarrow> (db, Inl e)
            | Inr db' \<Rightarrow> (case micro_timestamp now (obj_get entry ''__REALTIME_TIMESTAMP'') of
                Inl e \<Rightarrow> (db', Inl e)
              | Inr ts \<Rightarrow> (db', Inr (Some (ts, message)))))
        | _ \<Rightarrow> (db, Inr None)))"

subsection \<open>The log file\<close>

datatype file_poll =
    FileMissing
  | FilePresent nat nat "string result" \<comment> \<open>inode, size, and the bytes or what opening raises\<close>

record log_clock =
  lc_mktime :: "datetime \<Rightarrow> rat"
  lc_now :: datetime
  lc_year :: int

fun scan_lines :: "log_clock \<Rightarrow> string list \<Rightarrow> (timestamp \<times> string) list \<times> exn option" where
  \<comment> \<open>what the loop over the complete lines yields, and what ends it early\<close>
  "scan_lines lc [] = ([], None)"
| "scan_lines lc (l # ls) = (if l = [] then scan_lines lc ls
     else (case parse_syslog_line (lc_mktime lc) (lc_now lc) (lc_year lc) l of
        Inl e \<Rightarrow> ([], Some e)
      | Inr None \<Rightarrow> scan_lines lc ls
      | Inr (Some (ts, proc, message)) \<Rightarrow>
          if is_sshd_proc proc then (case scan_lines lc ls of (ys, r) \<Rightarrow> ((ts, message) # ys, r))
          else scan_lines lc ls))"

definition read_offset :: "database \<Rightarrow> nat result" where
  "read_offset db = (case get_state TAIL_OFFSET_KEY db of
      None \<Rightarrow> Inr 0
    | Some s \<Rightarrow> if s = [] then Inr 0
        else if list_all is_digit s then (case py_int_digits s of Inl e \<Rightarrow> Inl e | Inr n \<Rightarrow> Inr (nat n))
        else Inl (ValueError ''invalid literal for int() with base 10''))"

definition locate :: "nat \<Rightarrow> nat \<Rightarrow> nat \<Rightarrow> database \<Rightarrow> string \<Rightarrow> database \<times> string \<times> nat" where
  \<comment> \<open>the three cases after \<open>stat\<close>: the database, the buffer and the offset to read from\<close>
  "locate inode fsize stored db buffer = (case get_state TAIL_INODE_KEY db of
      None \<Rightarrow> (set_state TAIL_OFFSET_KEY (str_nat fsize) (set_state TAIL_INODE_KEY (str_nat inode) db),
                buffer, fsize)
    | Some i \<Rightarrow>
        if i \<noteq> str_nat inode then
          (set_state TAIL_OFFSET_KEY (str_nat 0) (set_state TAIL_INODE_KEY (str_nat inode) db), [], 0)
        else if fsize < stored then (set_state TAIL_OFFSET_KEY (str_nat 0) db, [], 0)
        else (db, buffer, stored))"

definition tail_poll ::
  "log_clock \<Rightarrow> file_poll \<Rightarrow> string \<Rightarrow> database \<Rightarrow> (database \<times> string) \<times> (timestamp \<times> string) list \<times> exn option" where
  "tail_poll lc fp buffer db = (case fp of
      FileMissing \<Rightarrow> ((db, buffer), [], None)
    | FilePresent inode fsize content \<Rightarrow> (case read_offset db of
        Inl e \<Rightarrow> ((db, buffer), [], Some e)
      | Inr stored \<Rightarrow> (case locate inode fsize stored db buffer of (db1, buffer1, offset) \<Rightarrow>
          if offset < fsize then (case content of
              Inl e \<Rightarrow> ((db1, buffer1), [], Some e)
            | Inr bytes \<Rightarrow>
                (let ls = split_on CHR 0x0A (buffer1 @ drop offset bytes);
                     complete = butlast ls; partial = last ls;
                     consumed = sum_list (map (\<lambda>l. length l + 1) complete);
                     db2 = set_state TAIL_OFFSET_KEY (str_nat (offset + consumed)) db1
                 in ((db2, partial), scan_lines lc complete)))
          else ((db1, buffer1), [], None))))"

subsection \<open>The consumer\<close>

record ingest =
  ig_world :: world
  ig_keys :: key_store
  ig_sent :: "login_event list" \<comment> \<open>events handed to \<open>server.broadcast\<close>\<close>

definition ig_db :: "ingest \<Rightarrow> database" where
  "ig_db st = w_db (ig_world st)"

definition with_db :: "database \<Rightarrow> ingest \<Rightarrow> ingest" where
  "with_db db st = st\<lparr>ig_world := (ig_world st)\<lparr>w_db := db\<rparr>\<rparr>"

definition event_row :: "timestamp \<Rightarrow> parsed_ssh_line \<Rightarrow> string option \<Rightarrow> login_event" where
  "event_row ts p lbl = \<lparr>le_ts = ts, le_event_type = pl_event_type p, le_username = pl_username p,
     le_source_ip = pl_source_ip p, le_source_port = pl_source_port p, le_key_type = pl_key_type p,
     le_key_fingerprint = pl_key_fingerprint p, le_key_label = lbl, le_detail = Some (pl_raw_message p)\<rparr>"

definition on_event :: "alert_env \<Rightarrow> login_event \<Rightarrow> ingest \<Rightarrow> ingest \<times> unit result" where
  \<comment> \<open>the callback of \<open>run_ssh_ingest_loop\<close>\<close>
  "on_event env ev st = (case on_ssh_event env ev (ig_world st) of
      (w, Inl e) \<Rightarrow> (st\<lparr>ig_world := w\<rparr>, Inl e)
    | (w, Inr _) \<Rightarrow> (st\<lparr>ig_world := w, ig_sent := ig_sent st @ [ev]\<rparr>, Inr ()))"

definition key_label_of ::
  "file_view \<Rightarrow> string option \<Rightarrow> key_store \<Rightarrow> key_store \<times> string option result" where
  "key_label_of fv fp ks = (case fp of
      None \<Rightarrow> (ks, Inr None)
    | Some f \<Rightarrow> if f = [] then (ks, Inr None) else (case label_for_fingerprint fv f ks of
        (ks', Inl e) \<Rightarrow> (ks', Inl e)
      | (ks', Inr l) \<Rightarrow> (ks', Inr (Some l))))"

definition handle_message ::
  "alert_env \<Rightarrow> file_view \<Rightarrow> timestamp \<Rightarrow> string \<Rightarrow> ingest \<Rightarrow> ingest \<times> unit result" where
  "handle_message env fv ts message st = (case parse_sshd_message message of
      Inl e \<Rightarrow> (st, Inl e)
    | Inr None \<Rightarrow> (st, Inr ())
    | Inr (Some p) \<Rightarrow> (case key_label_of fv (pl_key_fingerprint p) (ig_keys st) of
        (ks, Inl e) \<Rightarrow> (st\<lparr>ig_keys := ks\<rparr>, Inl e)
      | (ks, Inr lbl) \<Rightarrow>
          (let ev = event_row ts p lbl; st1 = st\<lparr>ig_keys := ks\<rparr> in
           case insert_login_event ev (ig_db st1) of
             Inl e \<Rightarrow> (st1, Inl e)
           | Inr db \<Rightarrow> on_event env ev (with_db db st1))))"

fun handle_all ::
  "alert_env \<Rightarrow> file_view \<Rightarrow> (timestamp \<times> string) list \<Rightarrow> ingest \<Rightarrow> ingest \<times> unit result" where
  "handle_all env fv [] st = (st, Inr ())"
| "handle_all env fv ((ts, m) # ms) st = (case handle_message env fv ts m st of
      (st', Inl e) \<Rightarrow> (st', Inl e)
    | (st', Inr _) \<Rightarrow> handle_all env fv ms st')"

fun run_journald ::
  "alert_env \<Rightarrow> file_view \<Rightarrow> timestamp \<Rightarrow> string list \<Rightarrow> ingest \<Rightarrow> ingest \<times> string list \<times> exn" where
  \<comment> \<open>the loop over the lines \<open>journalctl\<close> prints before it exits: the state, the lines not reached
    and the error that ends the source\<close>
  "run_journald env fv now [] st = (st, [], ConnectionError ''journalctl --follow exited'')"
| "run_journald env fv now (l # ls) st = (case journald_line now l (ig_db st) of
      (db, Inl e) \<Rightarrow> (with_db db st, ls, e)
    | (db, Inr None) \<Rightarrow> run_journald env fv now ls (with_db db st)
    | (db, Inr (Some (ts, m))) \<Rightarrow> (case handle_message env fv ts m (with_db db st) of
        (st', Inl e) \<Rightarrow> (st', ls, e)
      | (st', Inr _) \<Rightarrow> run_journald env fv now ls st'))"

definition tail_step ::
  "alert_env \<Rightarrow> file_view \<Rightarrow> log_clock \<Rightarrow> file_poll \<Rightarrow> string \<times> ingest \<Rightarrow> (string \<times> ingest) \<times> exn option" where
  \<comment> \<open>one turn of the loop of \<open>_tail_auth_log\<close> with the consumer handling what it yields\<close>
  "tail_step env fv lc fp bst = (case bst of (buffer, st) \<Rightarrow>
     (case tail_poll lc fp buffer (ig_db st) of ((db, buffer'), ys, r) \<Rightarrow>
       (case handle_all env fv ys (with_db db st) of
          (st', Inl e) \<Rightarrow> ((buffer', st'), Some e)
        | (st', Inr _) \<Rightarrow> ((buffer', st'), r))))"

subsection \<open>Retrying\<close>

definition retry_delay :: "bool \<Rightarrow> rat \<Rightarrow> rat" where
  \<comment> \<open>the delay slept after a source that failed: every message it had yielded reset it\<close>
  "retry_delay yielded backoff = (if yielded then 1 else backoff)"

definition next_backoff :: "bool \<Rightarrow> rat \<Rightarrow> rat" where
  "next_backoff yielded backoff = min (retry_delay yielded backoff * 2) MAX_BACKOFF_SECONDS"

fun retry_delays :: "bool list \<Rightarrow> rat \<Rightarrow> rat list" where
  \<comment> \<open>the delays of \<open>run_ssh_ingest\<close> over a sequence of failing sources\<close>
  "retry_delays [] backoff = []"
| "retry_delays (y # ys) backoff = retry_delay y backoff # retry_delays ys (next_backoff y backoff)"

end
