(* ===== verification/Alert_Facts.thy ===== *)
theory Alert_Facts
  imports Alerts
begin

section \<open>When an alert is raised\<close>

text \<open>
  The alert rules as a contract: a store that remembers the last alert of each key (the locale
  \<open>alert_history\<close>, interpreted on the database) keeps the alerts of one key a cooldown apart,
  and the manager's methods only ever write to it that way. Then what each rule decides, and
  the order of the SMTP commands.
\<close>

subsection \<open>Cooldown\<close>

locale alert_history =
  fixes last_of :: "string \<Rightarrow> 's \<Rightarrow> timestamp option"
    and add_alert :: "timestamp \<Rightarrow> string \<Rightarrow> string \<Rightarrow> 's \<Rightarrow> 's"
  assumes last_same: "last_of k (add_alert t k d s) =
      Some (case last_of k s of None \<Rightarrow> t | Some l \<Rightarrow> max t l)"
    and last_other: "k \<noteq> k' \<Longrightarrow> last_of k (add_alert t k' d s) = last_of k s"
begin

definition cooled :: "rat \<Rightarrow> string \<Rightarrow> timestamp \<Rightarrow> 's \<Rightarrow> bool" where
  "cooled gap k t s \<longleftrightarrow> (\<forall>l. last_of k s = Some l \<longrightarrow> gap \<le> t - l)"

inductive raised :: "rat \<Rightarrow> 's \<Rightarrow> (string \<times> timestamp) list \<Rightarrow> 's \<Rightarrow> bool" for gap s where
  raised_none: "raised gap s [] s"
| raised_more: "raised gap s fs s' \<Longrightarrow> cooled gap k t s' \<Longrightarrow>
    raised gap s (fs @ [(k, t)]) (add_alert t k d s')"

lemma raised_last:
  "raised gap s fs s' \<Longrightarrow> (k, t) \<in> set fs \<Longrightarrow> \<exists>l. last_of k s' = Some l \<and> t \<le> l"
proof (induction arbitrary: k t rule: raised.induct)
  case (raised_more fs s' k' t' d)
  show ?case
  proof (cases "k = k'")
    case True
    show ?thesis
    proof (cases "(k, t) \<in> set fs")
      case t: True
      with raised_more.IH obtain l where "last_of k s' = Some l" "t \<le> l" by blast
      then show ?thesis using True by (auto simp: last_same)
    qed (use True raised_more.prems in \<open>auto simp: last_same split: option.split\<close>)
  next
    case False
    with raised_more.prems have "(k, t) \<in> set fs" by simp
    with raised_more.IH False show ?thesis by (simp add: last_other)
  qed
qed simp

lemma raised_spaced:
  "raised gap s fs s' \<Longrightarrow> sorted_wrt (\<lambda>(k, a) (k', b). k = k' \<longrightarrow> gap \<le> b - a) fs"
proof (induction rule: raised.induct)
  case (raised_more fs s' k t d)
  have "gap \<le> t - a" if "(k, a) \<in> set fs" for a
  proof -
    from raised_last [OF raised_more.hyps(1) that] obtain l where "last_of k s' = Some l" "a \<le> l"
      by blast
    with raised_more.hyps(2) have "gap \<le> t - l" by (auto simp: cooled_def)
    with \<open>a \<le> l\<close> show ?thesis by linarith
  qed
  with raised_more.IH show ?case by (auto simp: sorted_wrt_append)
qed simp

lemma raised_trans:
  "raised gap s' gs s'' \<Longrightarrow> raised gap s fs s' \<Longrightarrow> raised gap s (fs @ gs) s''"
proof (induction rule: raised.induct)
  case (raised_more gs s'' k t d)
  then have "raised gap s ((fs @ gs) @ [(k, t)]) (add_alert t k d s'')"
    by (intro raised.raised_more)
  then show ?case by simp
qed simp

lemma raised_one: "cooled gap k t s \<Longrightarrow> raised gap s [(k, t)] (add_alert t k d s)"
  using raised_more [OF raised_none, of gap k t s d] by simp

end

interpretation alerts: alert_history last_alert_ts insert_alert
  by unfold_locales (simp_all add: last_alert_insert_same last_alert_insert_other)

subsection \<open>Single steps\<close>

lemma maybe_fire_db:
  "w_db (fst (maybe_fire env k sub body w)) =
     (if fst (should_fire env k w)
      then insert_alert (ae_clock env (w_ticks (snd (should_fire env k w)))) k body (w_db w)
      else w_db w)"
proof -
  have db: "w_db (snd (should_fire env k w)) = w_db w"
    by (auto simp: should_fire_def read_clock_def split: option.split)
  show ?thesis
    by (cases "should_fire env k w") (use db in \<open>auto simp: maybe_fire_def fire_def read_clock_def Let_def
      split: prod.split bool.split\<close>)
qed

lemma maybe_fire_ticks: "w_ticks w \<le> w_ticks (fst (maybe_fire env k sub body w))"
  by (auto simp: maybe_fire_def should_fire_def fire_def read_clock_def Let_def
      split: option.splits prod.splits bool.splits)

lemma should_fire_iff:
  "fst (should_fire env k w) \<longleftrightarrow> alerts.cooled (cooldown_seconds env) k (ae_clock env (w_ticks w)) (w_db w)"
  by (auto simp: should_fire_def read_clock_def alerts.cooled_def split: option.split)

lemma should_fire_ticks:
  "w_ticks (snd (should_fire env k w)) = (if last_alert_ts k (w_db w) = None then w_ticks w else Suc (w_ticks w))"
  by (auto simp: should_fire_def read_clock_def split: option.split)

lemma cooled_mono: "alerts.cooled gap k t db \<Longrightarrow> t \<le> t' \<Longrightarrow> alerts.cooled gap k t' db"
  by (fastforce simp: alerts.cooled_def)

lemma maybe_fire_raised:
  assumes "mono (ae_clock env)"
  shows "\<exists>fs. alerts.raised (cooldown_seconds env) (w_db w) fs (w_db (fst (maybe_fire env k sub body w)))"
proof (cases "fst (should_fire env k w)")
  case True
  let ?t = "ae_clock env (w_ticks (snd (should_fire env k w)))"
  have "ae_clock env (w_ticks w) \<le> ?t"
    using assms by (simp add: mono_def should_fire_ticks)
  with True have "alerts.cooled (cooldown_seconds env) k ?t (w_db w)"
    unfolding should_fire_iff by (rule cooled_mono)
  from alerts.raised_one [OF this] True show ?thesis by (auto simp: maybe_fire_db)
next
  case False
  then show ?thesis using alerts.raised_none by (auto simp: maybe_fire_db)
qed

lemma check_disks_raised:
  assumes "mono (ae_clock env)"
  shows "\<exists>fs. alerts.raised (cooldown_seconds env) (w_db w) fs (w_db (fst (check_disks env ds w)))"
proof (induction ds arbitrary: w)
  case Nil
  then show ?case using alerts.raised_none by auto
next
  case (Cons d ds)
  show ?case
  proof (cases "dk_percent d < of_int (disk_usage_percent_threshold (ae_alerts env))")
    case True
    then show ?thesis using Cons.IH by simp
  next
    case False
    obtain k sub body where m: "check_disks env (d # ds) w = (case maybe_fire env k sub body w of
        (w', Inl e) \<Rightarrow> (w', Inl e) | (w', Inr _) \<Rightarrow> check_disks env ds w')"
      using False by auto
    obtain w' r where r: "maybe_fire env k sub body w = (w', r)" by (cases "maybe_fire env k sub body w")
    obtain fs where fs: "alerts.raised (cooldown_seconds env) (w_db w) fs (w_db w')"
      using maybe_fire_raised [OF assms, of w k sub body] r by auto
    show ?thesis
    proof (cases r)
      case (Inl e)
      then show ?thesis using fs m r by auto
    next
      case (Inr u)
      then show ?thesis using Cons.IH [of w'] fs m r by (auto intro: alerts.raised_trans)
    qed
  qed
qed

lemma on_metrics_raised:
  "mono (ae_clock env) \<Longrightarrow>
   \<exists>fs. alerts.raised (cooldown_seconds env) (w_db w) fs (w_db (fst (on_metrics_snapshot env ds w)))"
  using check_disks_raised [of env w ds] alerts.raised_none by (auto simp: on_metrics_snapshot_def)

lemma on_ssh_raised:
  assumes "mono (ae_clock env)"
  shows "\<exists>fs. alerts.raised (cooldown_seconds env) (w_db w) fs (w_db (fst (on_ssh_event env ev w)))"
proof -
  have "fst (on_ssh_event env ev w) = w \<or>
      (\<exists>k sub body. fst (on_ssh_event env ev w) = fst (maybe_fire env k sub body w))"
    unfolding on_ssh_event_def check_failed_login_def check_new_key_def Let_def
    by (auto split: option.split)
  then show ?thesis using maybe_fire_raised [OF assms] alerts.raised_none by metis
qed

subsection \<open>Histories\<close>

inductive daemon_step :: "alert_env \<Rightarrow> world \<Rightarrow> world \<Rightarrow> bool" for env where
  ssh: "daemon_step env w (fst (on_ssh_event env ev w))"
| metrics: "daemon_step env w (fst (on_metrics_snapshot env disks w))"
| other: "db_step (w_db w) db' \<Longrightarrow> alert_log db' = alert_log (w_db w) \<Longrightarrow> daemon_step env w (w\<lparr>w_db := db'\<rparr>)"
| wait: "daemon_step env w (w\<lparr>w_ticks := Suc (w_ticks w)\<rparr>)"

definition alert_rows :: "database \<Rightarrow> alert_row list" where
  "alert_rows db = select_rows (\<lambda>r. True) (alert_log db)"

lemma raised_rows:
  "alerts.raised gap db fs db' \<Longrightarrow>
   map (\<lambda>r. (ar_alert_type r, ar_ts r)) (alert_rows db') = map (\<lambda>r. (ar_alert_type r, ar_ts r)) (alert_rows db) @ fs"
  by (induction rule: alerts.raised.induct) (simp_all add: alert_rows_def insert_alert_def select_insert)

definition log_state :: "database \<Rightarrow> database" where
  \<comment> \<open>the part of the database the alert rules' memory is\<close>
  "log_state db = new_database\<lparr>alert_log := alert_log db\<rparr>"

lemma log_state_simps [simp]:
  "alert_log (log_state db) = alert_log db"
  "last_alert_ts k (log_state db) = last_alert_ts k db"
  "log_state (insert_alert t k d db) = insert_alert t k d (log_state db)"
  by (simp_all add: log_state_def last_alert_ts_def insert_alert_def new_database_def)

lemma raised_log_state: "alerts.raised gap db fs db' \<Longrightarrow> alerts.raised gap (log_state db) fs (log_state db')"
  by (induction rule: alerts.raised.induct)
    (auto simp: alerts.cooled_def intro: alerts.raised.intros)

lemma daemon_raised:
  assumes "(daemon_step env)\<^sup>*\<^sup>* w w'" "mono (ae_clock env)"
  shows "\<exists>fs. alerts.raised (cooldown_seconds env) (log_state (w_db w)) fs (log_state (w_db w'))"
  using assms(1)
proof (induction rule: rtranclp_induct)
  case base
  show ?case using alerts.raised_none by blast
next
  case (step y z)
  have "\<exists>gs. alerts.raised (cooldown_seconds env) (log_state (w_db y)) gs (log_state (w_db z))"
    using step.hyps(2)
  proof cases
    case (ssh ev)
    with on_ssh_raised [OF assms(2), of y ev] raised_log_state show ?thesis by metis
  next
    case (metrics disks)
    with on_metrics_raised [OF assms(2), of y disks] raised_log_state show ?thesis by metis
  next
    case (other db')
    then have "log_state (w_db z) = log_state (w_db y)" by (simp add: log_state_def)
    then show ?thesis using alerts.raised_none by metis
  next
    case wait
    then show ?thesis using alerts.raised_none by auto
  qed
  with step.IH show ?case by (meson alerts.raised_trans)
qed

lemma daemon_spaced:
  assumes "(daemon_step env)\<^sup>*\<^sup>* w w'" "mono (ae_clock env)" "alert_rows (w_db w) = []"
  shows "sorted_wrt (\<lambda>r r'. ar_alert_type r = ar_alert_type r' \<longrightarrow> cooldown_seconds env \<le> ar_ts r' - ar_ts r)
    (alert_rows (w_db w'))"
proof -
  obtain fs where fs: "alerts.raised (cooldown_seconds env) (log_state (w_db w)) fs (log_state (w_db w'))"
    using daemon_raised [OF assms(1,2)] by blast
  have "map (\<lambda>r. (ar_alert_type r, ar_ts r)) (alert_rows (w_db w')) = fs"
    using raised_rows [OF fs] assms(3) by (simp add: alert_rows_def)
  with alerts.raised_spaced [OF fs] show ?thesis by (auto simp: sorted_wrt_map)
qed

subsection \<open>What the rules decide\<close>

lemma alert_rows_insert [table_simps]:
  "alert_rows (insert_alert t k d db) = alert_rows db @ [\<lparr>ar_ts = t, ar_alert_type = k, ar_detail = d\<rparr>]"
  by (simp add: alert_rows_def insert_alert_def select_insert)

lemma maybe_fire_rows:
  "\<exists>t. map ar_alert_type (alert_rows (w_db (fst (maybe_fire env k sub body w)))) =
     map ar_alert_type (alert_rows (w_db w)) @
       (if alerts.cooled (cooldown_seconds env) k (ae_clock env (w_ticks w)) (w_db w) then [k] else [])
   \<and> (alerts.cooled (cooldown_seconds env) k (ae_clock env (w_ticks w)) (w_db w) \<longrightarrow>
       alert_rows (w_db (fst (maybe_fire env k sub body w))) =
         alert_rows (w_db w) @ [\<lparr>ar_ts = t, ar_alert_type = k, ar_detail = body\<rparr>])"
  by (simp add: maybe_fire_db should_fire_iff alert_rows_insert)

definition raises :: "alert_env \<Rightarrow> string \<Rightarrow> world \<Rightarrow> world \<Rightarrow> bool" where
  \<comment> \<open>\<open>w'\<close> differs from \<open>w\<close> in the alert log by one row of the key \<open>k\<close>, exactly when its cooldown is over\<close>
  "raises env k w w' \<longleftrightarrow> map ar_alert_type (alert_rows (w_db w')) = map ar_alert_type (alert_rows (w_db w)) @
     (if alerts.cooled (cooldown_seconds env) k (ae_clock env (w_ticks w)) (w_db w) then [k] else [])"

lemma maybe_fire_raises: "raises env k w (fst (maybe_fire env k sub body w))"
  using maybe_fire_rows [of env k sub body w] by (auto simp: raises_def)

lemma failed_login_decision:
  assumes "ac_enabled (ae_alerts env)" "le_event_type ev \<in> FAILED_EVENT_TYPES"
    "le_source_ip ev = Some ip" "ip \<noteq> []"
  shows "int (count_failed_logins_since ip
      (le_ts ev - of_int (failed_login_window_minutes (ae_alerts env) * 60)) (w_db w))
        < failed_login_threshold (ae_alerts env) \<Longrightarrow> on_ssh_event env ev w = (w, Inr ())"
    and "failed_login_threshold (ae_alerts env) \<le> int (count_failed_logins_since ip
      (le_ts ev - of_int (failed_login_window_minutes (ae_alerts env) * 60)) (w_db w)) \<Longrightarrow>
      raises env (''failed_login:'' @ ip) w (fst (on_ssh_event env ev w))"
  using assms by (simp_all add: on_ssh_event_def check_failed_login_def Let_def maybe_fire_raises)

lemma new_key_decision:
  assumes "ac_enabled (ae_alerts env)" "alert_on_new_key (ae_alerts env)"
    "le_event_type ev = ''accepted_publickey''" "le_key_fingerprint ev = Some fp" "fp \<noteq> []"
  shows "0 < count_accepted_with_key_before fp (le_ts ev) (w_db w) \<Longrightarrow> on_ssh_event env ev w = (w, Inr ())"
    and "count_accepted_with_key_before fp (le_ts ev) (w_db w) = 0 \<Longrightarrow>
      raises env (''new_key:'' @ fp) w (fst (on_ssh_event env ev w))"
  using assms by (simp_all add: on_ssh_event_def check_new_key_def FAILED_EVENT_TYPES_def Let_def
      maybe_fire_raises)

lemma count_insert:
  "insert_login_event e db = Inr db' \<Longrightarrow> count_failed_logins_since ip since db' =
     count_failed_logins_since ip since db + (if is_failed_row ip since e then 1 else 0)"
  by (auto simp: insert_login_event_Inr count_failed_logins_since_def select_insert)

text \<open>A burst: each event is stored and then handed to the manager, as \<open>run_ssh_ingest\<close> does.\<close>

fun store_and_check :: "alert_env \<Rightarrow> login_event list \<Rightarrow> world \<Rightarrow> world result" where
  "store_and_check env [] w = Inr w"
| "store_and_check env (e # es) w = (case insert_login_event e (w_db w) of
      Inl x \<Rightarrow> Inl x
    | Inr db' \<Rightarrow> (case on_ssh_event env e (w\<lparr>w_db := db'\<rparr>) of
        (w', Inl x) \<Rightarrow> Inl x
      | (w', Inr _) \<Rightarrow> store_and_check env es w'))"

definition password_failure :: "timestamp \<Rightarrow> string \<Rightarrow> string \<Rightarrow> int \<Rightarrow> login_event" where
  "password_failure t user ip port = \<lparr>le_ts = t, le_event_type = ''failed_other'', le_username = Some user,
     le_source_ip = Some ip, le_source_port = Some port, le_key_type = None, le_key_fingerprint = None,
     le_key_label = None, le_detail = None\<rparr>"

lemma password_failures_silent:
  assumes "\<forall>(t, user, port)\<in>set tries. sql_int port" "0 < failed_login_threshold (ae_alerts env)"
    "\<forall>since. count_failed_logins_since ip since (w_db w) = 0"
  shows "\<exists>w'. store_and_check env (map (\<lambda>(t, user, port). password_failure t user ip port) tries) w = Inr w'
    \<and> alert_log (w_db w') = alert_log (w_db w) \<and> w_mail w' = w_mail w
    \<and> length (tb_rows (login_events (w_db w'))) = length (tb_rows (login_events (w_db w))) + length tries"
  using assms(1,3)
proof (induction tries arbitrary: w)
  case (Cons x tries)
  obtain t user port where x: "x = (t, user, port)" by (cases x)
  let ?e = "password_failure t user ip port"
  let ?db = "w_db w\<lparr>login_events := insert_row ?e (login_events (w_db w))\<rparr>"
  have ins: "insert_login_event ?e (w_db w) = Inr ?db"
    using Cons.prems(1) x by (simp add: insert_login_event_Inr password_failure_def)
  have c0: "\<forall>since. count_failed_logins_since ip since ?db = 0"
    using count_insert [OF ins] Cons.prems(2) by (simp add: is_failed_row_def password_failure_def)
  let ?w = "w\<lparr>w_db := ?db\<rparr>"
  have ev: "on_ssh_event env ?e ?w = (?w, Inr ())"
    using c0 assms(2) by (simp add: on_ssh_event_def password_failure_def FAILED_EVENT_TYPES_def
        check_failed_login_def Let_def)
  have "\<forall>since. count_failed_logins_since ip since (w_db ?w) = 0" using c0 by simp
  from Cons.IH [OF _ this] Cons.prems(1) obtain w' where
    "store_and_check env (map (\<lambda>(t, user, port). password_failure t user ip port) tries) ?w = Inr w'"
    "alert_log (w_db w') = alert_log (w_db ?w)" "w_mail w' = w_mail ?w"
    "length (tb_rows (login_events (w_db w'))) = length (tb_rows (login_events (w_db ?w))) + length tries"
    by auto
  then show ?case using x ins ev by (simp add: insert_row_def)
qed simp

subsection \<open>SMTP\<close>

lemma send_email_login_after_tls:
  assumes "send_email srv cfg subject body = (tr, r)" "Login u p \<in> set tr" "sc_use_tls cfg"
  shows "\<exists>rest. tr = Connect (sc_host cfg) (sc_port cfg) # StartTls # Login u p # rest \<and> srv StartTls = None
    \<and> u = sc_username cfg \<and> p = sc_password cfg"
  using assms
  by (auto simp: send_email_def smtp_session_def smtp_body_def Let_def
      split: if_splits option.splits prod.splits)

lemma send_email_contained:
  assumes "\<forall>a e. srv a = Some e \<longrightarrow> is_smtp_error e"
    "\<not> bad_header subject" "\<not> bad_header (sc_from_addr cfg)" "\<not> bad_header (join '', '' (sc_to_addrs cfg))"
  shows "snd (send_email srv cfg subject body) = Inr ()"
proof -
  have run: "run_actions srv as = (tr, Some e) \<Longrightarrow> is_smtp_error e" for as tr e
  proof (induction as arbitrary: tr)
    case (Cons a as)
    then show ?case using assms(1) by (auto split: option.splits prod.splits)
  qed simp
  have "smtp_session srv h p b = (tr, Some e) \<Longrightarrow> is_smtp_error e" for h p b tr e
    using assms(1) run by (auto simp: smtp_session_def split: option.splits prod.splits)
  then show ?thesis
    using assms by (auto simp: send_email_def Let_def split: prod.split option.split)
qed

end
