(* ===== verification/Ssh_Log_Facts.thy ===== *)
theory Ssh_Log_Facts
  imports Ssh_Log_Parser
begin

section \<open>What the log parser makes of sshd's lines\<close>

text \<open>
  Classification of the lines sshd prints (each line becomes exactly its event), the effect
  of a user name with spaces, and the behaviour of the syslog framing. That a pattern fails
  on another line is shown on the words of the line: a success needs two adjacent words
  (\<open>adjacent\<close>) that the line does not have.
\<close>

subsection \<open>Adjacent words\<close>

definition adjacent :: "string list \<Rightarrow> (string \<times> string) set" where
  "adjacent ws = set (zip ws (tl ws))"

lemma adjacent_simps [simp]:
  "adjacent [] = {}" "adjacent [w] = {}" "adjacent (v # w # ws) = insert (v, w) (adjacent (w # ws))"
  by (simp_all add: adjacent_def)

lemma adjacent_append: "xs \<noteq> [] \<Longrightarrow> ys \<noteq> [] \<Longrightarrow> (last xs, hd ys) \<in> adjacent (xs @ ys)"
proof (induction xs)
  case (Cons x xs)
  then show ?case by (cases xs; cases ys) auto
qed simp

lemma adjacent_of_infix:
  assumes "CHR '' '' \<notin> set v" "CHR '' '' \<notin> set w"
  shows "\<exists>x. (x @ v, w) \<in> adjacent (split_on CHR '' '' (u @ v @ '' '' @ w @ '' '' @ z))"
proof -
  have "split_on CHR '' '' (u @ v @ '' '' @ w @ '' '' @ z)
      = split_on CHR '' '' (u @ v) @ split_on CHR '' '' (w @ CHR '' '' # z)"
    using split_on_append [of "CHR '' ''" "u @ v" "w @ CHR '' '' # z"] by simp
  also have "\<dots> = split_on CHR '' '' (u @ v) @ w # split_on CHR '' '' z"
    using assms(2) by (simp add: split_on_word_append)
  finally have s: "split_on CHR '' '' (u @ v @ '' '' @ w @ '' '' @ z)
      = split_on CHR '' '' (u @ v) @ w # split_on CHR '' '' z" .
  have "last (split_on CHR '' '' (u @ v)) = last (split_on CHR '' '' u) @ v"
    using assms(1) by (simp add: split_on_append_word)
  with adjacent_append [of "split_on CHR '' '' (u @ v)" "w # split_on CHR '' '' z"]
  show ?thesis unfolding s by auto
qed

lemma no_match_by_words:
  assumes "\<And>v. lang r v \<Longrightarrow> \<exists>p b z. b \<in> B \<and> v = p @ a @ '' '' @ b @ '' '' @ z"
    and "CHR '' '' \<notin> set a" "\<forall>b\<in>B. CHR '' '' \<notin> set b"
    and "\<forall>x b. b \<in> B \<longrightarrow> (x @ a, b) \<notin> adjacent (split_on CHR '' '' s)"
  shows "re_search r s = None"
proof (rule ccontr)
  assume "re_search r s \<noteq> None"
  then obtain u v t where s: "s = u @ v @ t" "lang r v" using re_search_lang by blast
  then obtain p b z where "b \<in> B" "v = p @ a @ '' '' @ b @ '' '' @ z" using assms(1) by blast
  with s assms(2-4) adjacent_of_infix [of a b "u @ p" "z @ t"] show False by auto
qed

lemma methods_no_space: "m \<in> set auth_methods \<Longrightarrow> CHR '' '' \<notin> set m"
  by (auto simp: auth_methods_def)

lemma lang_method: "lang method_re m \<longleftrightarrow> m \<in> set auth_methods"
  by (auto simp: method_re_def auth_methods_def)

lemma lang_Lit_method:
  assumes "lang (Cat (Lit l) (Cat method_re (Cat (Lit k) r))) v" "l = a @ '' ''" "k = '' '' @ q"
  shows "\<exists>p b z. b \<in> set auth_methods \<and> v = p @ a @ '' '' @ b @ '' '' @ z"
proof -
  from assms(1) obtain m x where "m \<in> set auth_methods" "v = (a @ '' '') @ m @ ('' '' @ q) @ x"
    unfolding lang.simps lang_method assms(2,3) by blast
  then show ?thesis by (intro exI [of _ "[]"] exI [of _ m] exI [of _ "q @ x"]) simp
qed

lemma lang_Lit_pair:
  assumes "lang (Cat (Lit l) r) v" "l = p @ a @ '' '' @ b @ '' ''"
  shows "\<exists>p' b' z. b' \<in> {b} \<and> v = p' @ a @ '' '' @ b' @ '' '' @ z"
proof -
  from assms(1) obtain x where "v = (p @ a @ '' '' @ b @ '' '') @ x"
    unfolding lang.simps assms(2) by blast
  then show ?thesis by (intro exI [of _ p] exI [of _ b] exI [of _ x]) simp
qed

lemma accepted_none:
  assumes "\<forall>x m. m \<in> set auth_methods \<longrightarrow> (x @ ''Accepted'', m) \<notin> adjacent (split_on CHR '' '' s)"
  shows "re_search ACCEPTED_RE s = None"
proof (rule no_match_by_words [OF _ _ _ assms])
  fix v assume h: "lang ACCEPTED_RE v"
  show "\<exists>p b z. b \<in> set auth_methods \<and> v = p @ ''Accepted'' @ '' '' @ b @ '' '' @ z"
    by (rule lang_Lit_method [OF h [unfolded ACCEPTED_RE_eq]]) simp_all
qed (simp_all add: methods_no_space)

lemma failed_none:
  assumes "\<forall>x m. m \<in> set auth_methods \<longrightarrow> (x @ ''Failed'', m) \<notin> adjacent (split_on CHR '' '' s)"
  shows "re_search FAILED_RE s = None"
proof (rule no_match_by_words [OF _ _ _ assms])
  fix v assume h: "lang FAILED_RE v"
  show "\<exists>p b z. b \<in> set auth_methods \<and> v = p @ ''Failed'' @ '' '' @ b @ '' '' @ z"
    by (rule lang_Lit_method [OF h [unfolded FAILED_RE_eq]]) simp_all
qed (simp_all add: methods_no_space)

lemma invalid_none:
  assumes "\<forall>x b. b \<in> {''user''} \<longrightarrow> (x @ ''Invalid'', b) \<notin> adjacent (split_on CHR '' '' s)"
  shows "re_search INVALID_USER_RE s = None"
proof (rule no_match_by_words [OF _ _ _ assms])
  fix v assume h: "lang INVALID_USER_RE v"
  show "\<exists>p b z. b \<in> {''user''} \<and> v = p @ ''Invalid'' @ '' '' @ b @ '' '' @ z"
    by (rule lang_Lit_pair [OF h [unfolded INVALID_USER_RE_def seq.simps]]) simp_all
qed simp_all

lemma closed_invalid_none:
  assumes "\<forall>x b. b \<in> {''user''} \<longrightarrow> (x @ ''invalid'', b) \<notin> adjacent (split_on CHR '' '' s)"
  shows "re_search CLOSED_INVALID_RE s = None"
proof (rule no_match_by_words [OF _ _ _ assms])
  fix v assume h: "lang CLOSED_INVALID_RE v"
  show "\<exists>p b z. b \<in> {''user''} \<and> v = p @ ''invalid'' @ '' '' @ b @ '' '' @ z"
    by (rule lang_Lit_pair [OF h [unfolded CLOSED_INVALID_RE_def seq.simps]]) simp_all
qed simp_all

lemma closed_auth_none:
  assumes "\<forall>x b. b \<in> {''user''} \<longrightarrow> (x @ ''authenticating'', b) \<notin> adjacent (split_on CHR '' '' s)"
  shows "re_search CLOSED_AUTH_RE s = None"
proof (rule no_match_by_words [OF _ _ _ assms])
  fix v assume h: "lang CLOSED_AUTH_RE v"
  show "\<exists>p b z. b \<in> {''user''} \<and> v = p @ ''authenticating'' @ '' '' @ b @ '' '' @ z"
    by (rule lang_Lit_pair [OF h [unfolded CLOSED_AUTH_RE_def seq.simps]]) simp_all
qed simp_all

subsection \<open>The words of the lines\<close>

definition preauth :: "string \<Rightarrow> bool" where
  "preauth t \<longleftrightarrow> t = [] \<or> t = '' [preauth]''"

lemma preauth_trailer: "preauth t \<Longrightarrow> trailer t"
  by (auto simp: preauth_def trailer_def non_space_def is_py_space_def)

lemma token_no_space: "token w \<Longrightarrow> CHR '' '' \<notin> set w"
  by (auto simp: token_def list_all_iff)

lemma ip_no_space: "ip_text w \<Longrightarrow> CHR '' '' \<notin> set w"
  by (auto simp: ip_text_def list_all_iff)

lemma port_no_space: "CHR '' '' \<notin> set (str_nat n)"
  using str_nat_digits [of n] by (auto simp: list_all_iff)

lemma suffix_eq: "x @ a = w \<longleftrightarrow> length a \<le> length w \<and> drop (length w - length a) w = a
    \<and> x = take (length w - length a) w"
  by (metis append_eq_conv_conj append_take_drop_id diff_le_self le_add2 length_append length_take
      add_diff_cancel_right' min.absorb2)

lemmas word_facts = token_no_space ip_no_space port_no_space methods_no_space
  split_on_word split_on_word_append

lemma words_invalid_user:
  assumes "token u" "ip_text ip"
  shows "split_on CHR '' '' (invalid_user_line u ip port) = [''Invalid'', ''user'', u, ''from'', ip]
    @ (case port of None \<Rightarrow> [] | Some n \<Rightarrow> [''port'', str_nat n])"
  using assms by (auto simp: invalid_user_line_def word_facts split: option.split)

lemma words_peer:
  assumes "token u" "ip_text ip" "preauth tr"
  shows "split_on CHR '' '' (peer_line (join '' '' ws @ '' '') u ip port tr)
     = split_on CHR '' '' (join '' '' ws) @ [u, ip, ''port'', str_nat port]
       @ (if tr = [] then [] else [''[preauth]''])"
proof -
  let ?w = "join '' '' ws"
  have "split_on CHR '' '' (?w @ CHR '' '' # u @ CHR '' '' # ip @ '' port '' @ str_nat port @ tr)
      = split_on CHR '' '' ?w @ [u, ip, ''port'', str_nat port] @ (if tr = [] then [] else [''[preauth]''])"
    using assms by (auto simp: split_on_append preauth_def word_facts)
  then show ?thesis by (simp add: peer_line_def)
qed

lemma words_failed:
  assumes "m \<in> set auth_methods" "token u" "ip_text ip" "key_ok key" "preauth tr"
  shows "split_on CHR '' '' (failed_line m bad u ip port key tr)
    = [''Failed'', m, ''for''] @ (if bad then [''invalid'', ''user''] else [])
      @ [u, ''from'', ip, ''port'', str_nat port]
      @ (case key of None \<Rightarrow> [''ssh2''] | Some (kt, fp) \<Rightarrow> [''ssh2:'', kt, ''SHA256:'' @ fp])
      @ (if tr = [] then [] else [''[preauth]''])"
  using assms
  by (auto simp: failed_line_def conn_tail_def key_suffix_def key_ok_def preauth_def word_facts
      split: option.split)

subsection \<open>Each line becomes its event\<close>

lemma last_token: "token w \<Longrightarrow> \<not> is_py_space (last w)"
  by (auto simp: token_def list_all_iff non_space_def)

lemma last_port: "\<not> is_py_space (last (str_nat n))"
  using str_nat_digits [of n] last_in_set [OF str_nat_ne [of n]]
  by (auto simp: list_all_iff dest: digit_not_space)

lemma last_trailer: "trailer t \<Longrightarrow> t \<noteq> [] \<Longrightarrow> \<not> is_py_space (last t)"
  by (auto simp: trailer_def non_space_def)

lemma last_ip: "ip_text w \<Longrightarrow> \<not> is_py_space (last w)"
proof -
  assume "ip_text w"
  then have "is_ip_char (last w)" by (auto simp: ip_text_def list_all_iff)
  then show ?thesis by (auto simp: is_ip_char_def is_py_space_def Let_def)
qed

lemma not_space_2 [simp]: "\<not> is_py_space CHR ''2''"
  by (simp add: is_py_space_def)

lemma last_conn_tail:
  "key_ok key \<Longrightarrow> trailer tr \<Longrightarrow> \<not> is_py_space (last (conn_tail ip port key tr))"
  by (cases "tr = []") (auto simp: conn_tail_def key_suffix_def key_ok_def last_append last_trailer
      token_def list_all_iff non_space_def split: option.splits)

lemma strip_line:
  "s \<noteq> [] \<Longrightarrow> non_space (hd s) \<Longrightarrow> \<not> is_py_space (last s) \<Longrightarrow> strip s = s"
  by (rule strip_by_id) (auto simp: non_space_def)

lemma non_space_initials [simp]:
  "non_space CHR ''A''" "non_space CHR ''F''" "non_space CHR ''I''" "non_space CHR ''C''" "non_space CHR ''D''"
  by (simp_all add: non_space_def is_py_space_def)

lemma group_simps [simp]:
  "group [] x = None" "group ((y, v) # g) x = (if x = y then Some v else group g x)"
  "group (g @ h) x = (case group g x of None \<Rightarrow> group h x | Some v \<Rightarrow> Some v)"
  by (auto simp: group_def map_add_def split: option.splits)

lemma key_group_simps [simp]:
  "group (key_groups key) ''keytype'' = map_option fst key"
  "group (key_groups key) ''fingerprint'' = map_option (\<lambda>k. ''SHA256:'' @ snd k) key"
  "group (key_groups key) ''method'' = None" "group (key_groups key) ''port'' = None"
  "group (key_groups key) ''user'' = None" "group (key_groups key) ''ip'' = None"
  by (auto simp: key_groups_def split: option.split)

lemma port_value: "n < 65536 \<Longrightarrow> py_int_digits (str_nat n) = Inr (int n)"
  using length_str_nat [of n 5] by (intro py_int_str_nat) (simp add: max_str_digits_def)

definition event_of ::
  "string \<Rightarrow> string \<Rightarrow> string \<Rightarrow> nat option \<Rightarrow> (string \<times> string) option \<Rightarrow> string \<Rightarrow> parsed_ssh_line" where
  "event_of ty u ip port key raw = \<lparr>pl_event_type = ty, pl_username = Some u,
     pl_source_ip = Some ip, pl_source_port = map_option int port, pl_key_type = map_option fst key,
     pl_key_fingerprint = map_option (\<lambda>k. ''SHA256:'' @ snd k) key, pl_raw_message = raw\<rparr>"

definition outcome :: "string \<Rightarrow> string \<Rightarrow> string" where
  "outcome what m = (if m = ''publickey'' then what @ ''_publickey'' else what @ ''_other'')"

lemma parse_accepted:
  assumes "m \<in> set auth_methods" "token u" "ip_text ip" "port < 65536" "key_ok key" "trailer tr"
  shows "parse_sshd_message (accepted_line m u ip port key tr) = Inr (Some
    (event_of (outcome ''accepted'' m) u ip (Some port) key (accepted_line m u ip port key tr)))"
proof -
  let ?l = "accepted_line m u ip port key tr"
  have "strip ?l = ?l"
    using last_conn_tail [OF assms(5,6)] by (intro strip_line) (auto simp: accepted_line_def conn_tail_def)
  moreover have "re_search ACCEPTED_RE ?l = Some (0, (''method'', m) # conn_groups u ip port key)"
    by (rule first_match_re_search [OF first_accepted [OF assms(1-3,5,6)]])
  ultimately show ?thesis
    by (simp add: parse_sshd_message_def mk_parsed_def method_event_def conn_groups_def
        port_value [OF assms(4)] event_of_def outcome_def)
qed

lemma failed_not_accepted:
  assumes "m \<in> set auth_methods" "token u" "ip_text ip" "key_ok key" "preauth tr"
  shows "re_search ACCEPTED_RE (failed_line m bad u ip port key tr) = None"
  by (rule accepted_none)
    (auto simp: words_failed [OF assms] auth_methods_def suffix_eq split: option.split)

lemma parse_failed:
  assumes "m \<in> set auth_methods" "token u" "ip_text ip" "port < 65536" "key_ok key" "preauth tr"
  shows "parse_sshd_message (failed_line m bad u ip port key tr) = Inr (Some
    (event_of (outcome ''failed'' m) u ip (Some port) key (failed_line m bad u ip port key tr)))"
proof -
  let ?l = "failed_line m bad u ip port key tr"
  have tr: "trailer tr" using assms(6) by (rule preauth_trailer)
  have "strip ?l = ?l"
    using last_conn_tail [OF assms(5) tr] by (intro strip_line) (auto simp: failed_line_def conn_tail_def)
  moreover have "re_search FAILED_RE ?l = Some (0, (''method'', m)
      # (if bad then [(''invalid'', ''invalid user'')] else []) @ conn_groups u ip port key)"
    by (rule first_match_re_search [OF first_failed [OF assms(1-3,5) tr]])
  ultimately show ?thesis
    using failed_not_accepted [OF assms(1-3,5,6)]
    by (simp add: parse_sshd_message_def mk_parsed_def method_event_def conn_groups_def
        port_value [OF assms(4)] event_of_def outcome_def)
qed

lemma parse_invalid_user:
  assumes "token u" "ip_text ip" "\<forall>n\<in>set_option port. n < 65536"
  shows "parse_sshd_message (invalid_user_line u ip port) = Inr (Some
    (event_of ''invalid_user'' u ip port None (invalid_user_line u ip port)))"
proof -
  let ?l = "invalid_user_line u ip port"
  note w = words_invalid_user [OF assms(1,2), of port]
  have "strip ?l = ?l"
    using last_ip [OF assms(2)] assms(2)
    by (intro strip_line) (auto simp: invalid_user_line_def ip_text_def last_port split: option.splits)
  moreover have "re_search ACCEPTED_RE ?l = None"
    by (rule accepted_none) (auto simp: w auth_methods_def suffix_eq split: option.split)
  moreover have "re_search FAILED_RE ?l = None"
    by (rule failed_none) (auto simp: w auth_methods_def suffix_eq split: option.split)
  moreover note first_match_re_search [OF first_invalid_user [OF assms(1,2), of port]]
  ultimately show ?thesis
    using assms(3) by (cases port)
      (simp_all add: parse_sshd_message_def mk_parsed_def event_of_def port_value)
qed

definition peer_prefixes :: "(string list \<times> string) list" where
  "peer_prefixes = [([''Connection'', ''closed'', ''by'', ''invalid'', ''user''], ''connection_closed''),
     ([''Connection'', ''closed'', ''by'', ''authenticating'', ''user''], ''connection_closed''),
     ([''Disconnected'', ''from'', ''user''], ''disconnected'')]"

lemma no_ip_words: "ip_text ip \<Longrightarrow> ip \<noteq> ''for'' \<and> ip \<noteq> ''user'' \<and> ip \<notin> set auth_methods"
  by (auto simp: ip_text_def auth_methods_def is_ip_char_def)

lemma port_not_word: "str_nat n \<noteq> ''user'' \<and> str_nat n \<notin> set auth_methods"
  using str_nat_digits [of n] by (auto simp: auth_methods_def is_digit_def)

lemma parse_peer:
  assumes "(ws, ty) \<in> set peer_prefixes" "token u" "ip_text ip" "port < 65536" "preauth tr"
  shows "parse_sshd_message (peer_line (join '' '' ws @ '' '') u ip port tr) = Inr (Some
    (event_of ty u ip (Some port) None (peer_line (join '' '' ws @ '' '') u ip port tr)))"
proof -
  let ?l = "peer_line (join '' '' ws @ '' '') u ip port tr"
  note w = words_peer [OF assms(2,3,5), of ws port]
  note ns = no_ip_words [OF assms(3)] port_not_word [of port]
  have tr: "trailer tr" using assms(5) by (rule preauth_trailer)
  have "strip ?l = ?l"
    using assms(1) last_trailer [OF tr] last_port [of port]
    by (intro strip_line) (auto simp: peer_line_def peer_prefixes_def last_append)
  moreover have "re_search ACCEPTED_RE ?l = None"
    using assms(1) ns by (intro accepted_none)
      (auto simp: w peer_prefixes_def auth_methods_def suffix_eq)
  moreover have "re_search FAILED_RE ?l = None"
    using assms(1) ns by (intro failed_none)
      (auto simp: w peer_prefixes_def auth_methods_def suffix_eq)
  moreover have "re_search INVALID_USER_RE ?l = None"
    using assms(1) ns by (intro invalid_none) (auto simp: w peer_prefixes_def suffix_eq)
  moreover have "re_search CLOSED_INVALID_RE ?l = None \<or> ws = fst (peer_prefixes ! 0)"
    using assms(1) ns by (intro disjCI closed_invalid_none, unfold w) (auto simp: peer_prefixes_def suffix_eq)
  moreover have "re_search CLOSED_AUTH_RE ?l = None \<or> ws = fst (peer_prefixes ! 0) \<or> ws = fst (peer_prefixes ! 1)"
    using assms(1) ns by (intro disjCI closed_auth_none, unfold w) (auto simp: peer_prefixes_def suffix_eq)
  moreover note first_match_re_search [OF first_peer [OF assms(2,3) tr, of "join '' '' ws @ '' ''" port]]
  ultimately show ?thesis
    using assms(1) by (auto simp: peer_prefixes_def parse_sshd_message_def mk_parsed_def
        event_of_def port_value [OF assms(4)] CLOSED_INVALID_RE_def CLOSED_AUTH_RE_def DISCONNECTED_RE_def)
qed

subsection \<open>The round trip over all kinds of lines\<close>

datatype sshd_msg =
    Accepted string string string nat "(string \<times> string) option" string
  | Failed string bool string string nat "(string \<times> string) option" string
  | InvalidUser string string "nat option"
  | ClosedInvalid string string nat string
  | ClosedAuth string string nat string
  | Disconnected string string nat string

fun print_msg :: "sshd_msg \<Rightarrow> string" where
  "print_msg (Accepted m u ip port key tr) = accepted_line m u ip port key tr"
| "print_msg (Failed m bad u ip port key tr) = failed_line m bad u ip port key tr"
| "print_msg (InvalidUser u ip port) = invalid_user_line u ip port"
| "print_msg (ClosedInvalid u ip port tr) = peer_line ''Connection closed by invalid user '' u ip port tr"
| "print_msg (ClosedAuth u ip port tr) = peer_line ''Connection closed by authenticating user '' u ip port tr"
| "print_msg (Disconnected u ip port tr) = peer_line ''Disconnected from user '' u ip port tr"

fun msg_ok :: "sshd_msg \<Rightarrow> bool" where
  "msg_ok (Accepted m u ip port key tr) \<longleftrightarrow> m \<in> set auth_methods \<and> token u \<and> ip_text ip \<and> port < 65536
     \<and> key_ok key \<and> trailer tr"
| "msg_ok (Failed m bad u ip port key tr) \<longleftrightarrow> m \<in> set auth_methods \<and> token u \<and> ip_text ip \<and> port < 65536
     \<and> key_ok key \<and> preauth tr"
| "msg_ok (InvalidUser u ip port) \<longleftrightarrow> token u \<and> ip_text ip \<and> (\<forall>n\<in>set_option port. n < 65536)"
| "msg_ok (ClosedInvalid u ip port tr) \<longleftrightarrow> token u \<and> ip_text ip \<and> port < 65536 \<and> preauth tr"
| "msg_ok (ClosedAuth u ip port tr) \<longleftrightarrow> token u \<and> ip_text ip \<and> port < 65536 \<and> preauth tr"
| "msg_ok (Disconnected u ip port tr) \<longleftrightarrow> token u \<and> ip_text ip \<and> port < 65536 \<and> preauth tr"

fun msg_event :: "sshd_msg \<Rightarrow> parsed_ssh_line" where
  "msg_event (Accepted m u ip port key tr) =
     event_of (outcome ''accepted'' m) u ip (Some port) key (accepted_line m u ip port key tr)"
| "msg_event (Failed m bad u ip port key tr) =
     event_of (outcome ''failed'' m) u ip (Some port) key (failed_line m bad u ip port key tr)"
| "msg_event (InvalidUser u ip port) = event_of ''invalid_user'' u ip port None (invalid_user_line u ip port)"
| "msg_event (ClosedInvalid u ip port tr) = event_of ''connection_closed'' u ip (Some port) None
     (peer_line ''Connection closed by invalid user '' u ip port tr)"
| "msg_event (ClosedAuth u ip port tr) = event_of ''connection_closed'' u ip (Some port) None
     (peer_line ''Connection closed by authenticating user '' u ip port tr)"
| "msg_event (Disconnected u ip port tr) = event_of ''disconnected'' u ip (Some port) None
     (peer_line ''Disconnected from user '' u ip port tr)"

lemma parse_print: "msg_ok e \<Longrightarrow> parse_sshd_message (print_msg e) = Inr (Some (msg_event e))"
proof (cases e)
  case (Accepted m u ip port key tr)
  assume "msg_ok e"
  with Accepted show ?thesis by (simp add: parse_accepted)
next
  case (Failed m bad u ip port key tr)
  assume "msg_ok e"
  with Failed show ?thesis by (simp add: parse_failed)
next
  case (InvalidUser u ip port)
  assume "msg_ok e"
  with InvalidUser show ?thesis by (simp add: parse_invalid_user)
next
  case (ClosedInvalid u ip port tr)
  assume "msg_ok e"
  with ClosedInvalid parse_peer [of "[''Connection'', ''closed'', ''by'', ''invalid'', ''user'']"
      "''connection_closed''" u ip port tr] show ?thesis by (simp add: peer_prefixes_def)
next
  case (ClosedAuth u ip port tr)
  assume "msg_ok e"
  with ClosedAuth parse_peer [of "[''Connection'', ''closed'', ''by'', ''authenticating'', ''user'']"
      "''connection_closed''" u ip port tr] show ?thesis by (simp add: peer_prefixes_def)
next
  case (Disconnected u ip port tr)
  assume "msg_ok e"
  with Disconnected parse_peer [of "[''Disconnected'', ''from'', ''user'']"
      "''disconnected''" u ip port tr] show ?thesis by (simp add: peer_prefixes_def)
qed

subsection \<open>What any accepted message yields\<close>

definition event_types :: "string list" where
  "event_types = [''accepted_publickey'', ''accepted_other'', ''failed_publickey'', ''failed_other'',
     ''invalid_user'', ''connection_closed'', ''disconnected'']"

definition sshd_patterns :: "re list" where
  "sshd_patterns = [ACCEPTED_RE, FAILED_RE, INVALID_USER_RE, CLOSED_INVALID_RE, CLOSED_AUTH_RE,
     DISCONNECTED_RE]"

lemmas pattern_defs = ACCEPTED_RE_def FAILED_RE_def INVALID_USER_RE_def CLOSED_INVALID_RE_def
  CLOSED_AUTH_RE_def DISCONNECTED_RE_def user_re_def ip_re_def port_re_def method_re_def key_re_def

lemma pattern_bound:
  "r \<in> set sshd_patterns \<Longrightarrow> always_bound r ''user'' \<and> always_bound r ''ip''"
  by (auto simp: sshd_patterns_def pattern_defs)

lemma pattern_bodies:
  assumes "r \<in> set sshd_patterns"
  shows "(''user'', a) \<in> set (group_bodies r) \<Longrightarrow> a = Rep non_space 1 None"
    and "(''ip'', a) \<in> set (group_bodies r) \<Longrightarrow> a = Rep is_ip_char 1 None"
    and "(''port'', a) \<in> set (group_bodies r) \<Longrightarrow> a = Rep is_digit 1 None"
    and "(''fingerprint'', a) \<in> set (group_bodies r) \<Longrightarrow>
      a = Cat (Lit ''SHA256:'') (Rep non_space 1 None)"
  using assms by (auto simp: sshd_patterns_def pattern_defs)

definition sound_event :: "parsed_ssh_line \<Rightarrow> bool" where
  "sound_event p \<longleftrightarrow> pl_event_type p \<in> set event_types
     \<and> (case pl_username p of Some u \<Rightarrow> token u | None \<Rightarrow> False)
     \<and> (case pl_source_ip p of Some ip \<Rightarrow> ip_text ip | None \<Rightarrow> False)
     \<and> (case pl_source_port p of Some n \<Rightarrow> 0 \<le> n | None \<Rightarrow> pl_event_type p = ''invalid_user'')
     \<and> (case pl_key_fingerprint p of Some f \<Rightarrow> startswith f ''SHA256:'' | None \<Rightarrow> True)"

lemma mk_parsed_sound:
  assumes "re_search r msg = Some (i, g)" "r \<in> set sshd_patterns" "ty \<in> set event_types"
    and "ty = ''invalid_user'' \<or> always_bound r ''port''" and "length msg \<le> max_str_digits"
  shows "\<exists>p. mk_parsed ty g msg = Inr (Some p) \<and> sound_event p"
proof -
  note b = pattern_bodies [OF assms(2)] and v = re_search_group [OF assms(1)]
  obtain u where u: "group g ''user'' = Some u"
    using re_search_bound [OF assms(1)] pattern_bound [OF assms(2)] by blast
  obtain ip where ip: "group g ''ip'' = Some ip"
    using re_search_bound [OF assms(1)] pattern_bound [OF assms(2)] by blast
  have "lang (Rep non_space 1 None) u" using v [OF u] b(1) by blast
  then have tu: "token u" by (auto simp: token_def)
  have "lang (Rep is_ip_char 1 None) ip" using v [OF ip] b(2) by blast
  then have ti: "ip_text ip" by (auto simp: ip_text_def)
  have fp: "startswith f ''SHA256:''" if "group g ''fingerprint'' = Some f" for f
  proof -
    have "lang (Cat (Lit ''SHA256:'') (Rep non_space 1 None)) f" using v [OF that] b(4) by blast
    then show ?thesis by (auto simp: startswith_def)
  qed
  show ?thesis
  proof (cases "group g ''port''")
    case None
    then have "ty = ''invalid_user''" using assms(4) re_search_bound [OF assms(1), of "''port''"] by auto
    with None assms(3) u ip tu ti fp show ?thesis
      by (simp add: mk_parsed_def sound_event_def split: option.split)
  next
    case (Some ds)
    have "length ds \<le> max_str_digits" using v [OF Some] assms(5) by simp
    with Some assms(3) u ip tu ti fp show ?thesis
      by (simp add: mk_parsed_def py_int_digits_def sound_event_def split: option.split)
  qed
qed

lemma length_strip: "length (strip_by p s) \<le> length s"
  unfolding strip_by_def by (metis length_dropWhile_le length_rev le_trans)

definition sound_result :: "parsed_ssh_line option result \<Rightarrow> bool" where
  "sound_result x \<longleftrightarrow> (\<exists>r. x = Inr r \<and> (\<forall>p. r = Some p \<longrightarrow> sound_event p))"

lemma sound_branch:
  "(\<And>i g. x = Some (i, g) \<Longrightarrow> sound_result (f g)) \<Longrightarrow> sound_result b \<Longrightarrow>
   sound_result (case x of Some (_, g) \<Rightarrow> f g | None \<Rightarrow> b)"
  by (auto split: option.split)

lemma parse_sound_result:
  assumes "length raw \<le> max_str_digits"
  shows "sound_result (parse_sshd_message raw)"
proof -
  let ?m = "strip raw"
  have len: "length ?m \<le> max_str_digits" using assms length_strip [of is_py_space raw] by simp
  have ok: "sound_result (mk_parsed ty g ?m)"
    if "re_search r ?m = Some (i, g)" "r \<in> set sshd_patterns" "ty \<in> set event_types"
      "ty = ''invalid_user'' \<or> always_bound r ''port''" for r i g ty
    using mk_parsed_sound [OF that len] by (auto simp: sound_result_def)
  have pats: "set sshd_patterns = {ACCEPTED_RE, FAILED_RE, INVALID_USER_RE, CLOSED_INVALID_RE,
      CLOSED_AUTH_RE, DISCONNECTED_RE}"
    by (simp add: sshd_patterns_def)
  have none: "sound_result (Inr None)" by (simp add: sound_result_def)
  show ?thesis
    unfolding parse_sshd_message_def Let_def
    by (intro sound_branch none; (rule ok, assumption))
      (auto simp: method_event_def event_types_def pats pattern_defs)
qed

lemma parse_sound:
  "length raw \<le> max_str_digits \<Longrightarrow>
   \<exists>r. parse_sshd_message raw = Inr r \<and> (\<forall>p. r = Some p \<longrightarrow> sound_event p)"
  using parse_sound_result by (simp add: sound_result_def)

subsection \<open>A user name with spaces\<close>

lemma forged_search:
  assumes "m \<in> set auth_methods" "token u" "ip_text ip" "key_ok key" "trailer tr"
  shows "re_search ACCEPTED_RE (''Invalid user '' @ accepted_line m u ip port key tr)
    = Some (13, (''method'', m) # conn_groups u ip port key)"
proof -
  have "re_search ACCEPTED_RE (''Invalid user '' @ accepted_line m u ip port key tr)
      = map_option (\<lambda>(k, g). (k + length ''Invalid user '', g))
          (re_search ACCEPTED_RE (accepted_line m u ip port key tr))"
    unfolding ACCEPTED_RE_eq by (rule re_search_skip) simp_all
  also have "re_search ACCEPTED_RE (accepted_line m u ip port key tr)
      = Some (0, (''method'', m) # conn_groups u ip port key)"
    by (rule first_match_re_search [OF first_accepted [OF assms]])
  finally show ?thesis by simp
qed

definition attacker_tail :: "string \<Rightarrow> nat \<Rightarrow> string" where
  "attacker_tail ip port = '' from '' @ ip @ '' port '' @ str_nat port"

lemma attacker_trailer: "trailer (attacker_tail ip port)"
  by (auto simp: trailer_def attacker_tail_def non_space_def last_port)

lemma parse_forged:
  assumes "m \<in> set auth_methods" "token u" "ip_text ip" "length (str_nat port) \<le> max_str_digits" "key_ok key"
  shows "parse_sshd_message (''Invalid user '' @ accepted_line m u ip port key (attacker_tail ip' port'))
    = Inr (Some (event_of (outcome ''accepted'' m) u ip (Some port) key
        (''Invalid user '' @ accepted_line m u ip port key (attacker_tail ip' port'))))"
proof -
  let ?l = "''Invalid user '' @ accepted_line m u ip port key (attacker_tail ip' port')"
  note t = attacker_trailer [of ip' port']
  have "strip ?l = ?l"
    using last_conn_tail [OF assms(5) t] by (intro strip_line) (auto simp: accepted_line_def conn_tail_def)
  then show ?thesis
    using forged_search [OF assms(1-3,5) t, of port]
    by (simp add: parse_sshd_message_def mk_parsed_def method_event_def conn_groups_def
        py_int_str_nat [OF assms(4)] event_of_def outcome_def)
qed

subsection \<open>The syslog framing\<close>

definition proc_ok :: "string \<Rightarrow> bool" where
  "proc_ok p \<longleftrightarrow> p \<noteq> [] \<and> CHR '':'' \<notin> set p"

definition tail_text :: "string \<Rightarrow> string \<Rightarrow> string \<Rightarrow> string" where
  "tail_text host proc msg = host @ '' '' @ proc @ '': '' @ msg"

lemma first_tail:
  assumes "token host" "proc_ok proc" "list_all not_newline msg"
  shows "first_match syslog_tail_re (tail_text host proc msg)
    [(''host'', host), (''proc'', proc), (''message'', msg)] []"
proof -
  let ?P = "Rep (\<lambda>c. c \<noteq> CHR '':'') 1 None"
  have h: "first_match (Grp ''host'' (Rep non_space 1 None)) (host @ '' '' @ proc @ '': '' @ msg)
      [(''host'', host)] ('' '' @ proc @ '': '' @ msg)"
    using assms(1) by (rule first_token) simp
  have p: "first_match (Grp ''proc'' ?P) (proc @ '': '' @ msg) [(''proc'', proc)] ('': '' @ msg)"
    using assms(2) by (intro first_Grp [OF first_Rep]) (auto simp: proc_ok_def Suc_le_eq)
  have "first_match (Rep not_newline 0 None) (msg @ []) [] []"
    using assms(3) by (intro first_Rep) (auto simp: list_all_iff)
  then have m: "first_match (Grp ''message'' (Rep not_newline 0 None)) msg [(''message'', msg)] []"
    using first_Grp by fastforce
  have e: "first_match Eos [] [] []" by (simp add: first_match_def)
  have "first_match syslog_tail_re (host @ '' '' @ proc @ '': '' @ msg)
      ([(''host'', host)] @ [] @ [(''proc'', proc)] @ [] @ [(''message'', msg)] @ []) []"
    unfolding syslog_tail_re_def seq.simps
    by (intro first_Cat [OF h] first_Cat [OF p] first_Cat [OF first_Lit] first_Cat [OF m e])
  then show ?thesis by (simp add: tail_text_def)
qed

definition two_digits :: "nat \<Rightarrow> string" where
  "two_digits n = [digit_chr (n div 10), digit_chr (n mod 10)]"

lemma first_digits: "list_all is_digit ds \<Longrightarrow> length ds = n \<Longrightarrow> first_match (digits_re n) (ds @ r) [] r"
proof -
  assume d: "list_all is_digit ds" "length ds = n"
  let ?n = "length (takeWhile is_digit (ds @ r))"
  have "takeWhile is_digit (ds @ r) = ds @ takeWhile is_digit r"
    using d(1) by (intro takeWhile_append2) (auto simp: list_all_iff)
  then have "min ?n n = n" using d(2) by simp
  with d(2) show ?thesis by (simp add: digits_re_def first_match_def Let_def)
qed

lemma two_digits_ok: "n < 100 \<Longrightarrow> list_all is_digit (two_digits n) \<and> length (two_digits n) = 2"
  by (simp add: two_digits_def is_digit_chr)

lemma digits_val_two: "n < 100 \<Longrightarrow> digits_val (two_digits n) = n"
  by (simp add: two_digits_def digits_val_def digit_val_chr)

end
