(* ===== verification/Ingest_Facts.thy ===== *)
theory Ingest_Facts
  imports Ssh_Ingest Alert_Facts Ssh_Log_Facts
begin

section \<open>What reaches the database, and how often\<close>

text \<open>
  The two sources against their promise. A tailed file whose lines are written whole yields
  every line exactly once over any sequence of polls and rotations; a poll that sees half a line
  reads it twice and then replays the file. A journald session stores the cursor of the last
  line it read, so the next one starts right behind it. Then from the text sshd prints to the
  alert it raises.
\<close>

subsection \<open>Lines of a file\<close>

definition complete_text :: "string \<Rightarrow> bool" where
  "complete_text s \<longleftrightarrow> s = [] \<or> last s = CHR 0x0A"

definition lines_of :: "string \<Rightarrow> string list" where
  "lines_of s = butlast (split_on CHR 0x0A s)"

definition lines_length :: "string list \<Rightarrow> nat" where
  "lines_length ls = sum_list (map (\<lambda>l. length l + 1) ls)"

lemma complete_split: "complete_text s \<Longrightarrow> last (split_on CHR 0x0A s) = []"
proof (cases "s = []")
  case False
  moreover assume "complete_text s"
  ultimately obtain t where "s = t @ [CHR 0x0A]"
    by (metis append_butlast_last_id complete_text_def)
  then show ?thesis using split_on_append [of "CHR 0x0A" t "[]"] by simp
qed simp

lemma split_lines: "split_on CHR 0x0A s = lines_of s @ [last (split_on CHR 0x0A s)]"
  by (simp add: lines_of_def)

lemma lines_of_append: "complete_text a \<Longrightarrow> lines_of (a @ b) = lines_of a @ lines_of b"
proof (cases "a = []")
  case False
  moreover assume "complete_text a"
  ultimately obtain t where t: "a = t @ [CHR 0x0A]"
    by (metis append_butlast_last_id complete_text_def)
  have "split_on CHR 0x0A (a @ b) = split_on CHR 0x0A t @ split_on CHR 0x0A b"
    using split_on_append [of "CHR 0x0A" t b] t by simp
  moreover have "lines_of a = split_on CHR 0x0A t"
    using split_on_append [of "CHR 0x0A" t "[]"] t by (simp add: lines_of_def butlast_append)
  ultimately show ?thesis by (simp add: lines_of_def butlast_append)
qed (simp add: lines_of_def)

lemma length_split: "sum_list (map (\<lambda>l. length l + 1) (split_on d s)) = length s + 1"
proof (induction s)
  case (Cons c s)
  obtain w ws where "split_on d s = w # ws" by (cases "split_on d s") auto
  with Cons show ?case by auto
qed simp

lemma lines_of_length: "complete_text s \<Longrightarrow> lines_length (lines_of s) = length s"
proof -
  assume "complete_text s"
  then have s: "split_on CHR 0x0A s = lines_of s @ [[]]"
    using split_lines [of s] complete_split by metis
  show ?thesis using length_split [of "CHR 0x0A" s] unfolding s by (simp add: lines_length_def)
qed

lemma lines_of_one: "CHR 0x0A \<notin> set l \<Longrightarrow> lines_of (l @ [CHR 0x0A]) = [l]"
  by (simp add: lines_of_def split_on_append split_on_word)

lemma complete_append: "complete_text a \<Longrightarrow> complete_text b \<Longrightarrow> complete_text (a @ b)"
  by (cases "b = []") (auto simp: complete_text_def)

subsection \<open>Scanning\<close>

lemma scan_append:
  "scan_lines lc (xs @ ys) = (case scan_lines lc xs of
      (a, Some e) \<Rightarrow> (a, Some e)
    | (a, None) \<Rightarrow> (case scan_lines lc ys of (b, r) \<Rightarrow> (a @ b, r)))"
proof (induction xs)
  case (Cons x xs)
  show ?case
    by (cases "x = []"; cases "scan_lines lc xs")
      (auto simp: Cons split: sum.split option.split prod.split)
qed (simp split: prod.split)

lemma scan_none: "scan_lines lc xs = (a, None) \<Longrightarrow> scan_lines lc (xs @ ys) = (a @ fst (scan_lines lc ys), snd (scan_lines lc ys))"
  by (simp add: scan_append split: prod.split)

lemma scan_error:
  assumes "scan_lines lc xs = (a, None)" "l \<noteq> []"
    "parse_syslog_line (lc_mktime lc) (lc_now lc) (lc_year lc) l = Inl e"
  shows "scan_lines lc (xs @ l # ys) = (a, Some e)"
  using assms by (simp add: scan_append)

subsection \<open>One poll\<close>

definition storable :: "nat \<Rightarrow> bool" where
  \<comment> \<open>an offset that \<open>int\<close> reads back: every file smaller than \<open>10 ^ 4300\<close> bytes\<close>
  "storable n \<longleftrightarrow> length (str_nat n) \<le> max_str_digits"

definition tailing :: "nat \<Rightarrow> nat \<Rightarrow> database \<Rightarrow> bool" where
  "tailing inode offset db \<longleftrightarrow> get_state TAIL_INODE_KEY db = Some (str_nat inode)
     \<and> get_state TAIL_OFFSET_KEY db = Some (str_nat offset) \<and> storable offset"

lemma keys_differ: "TAIL_INODE_KEY \<noteq> TAIL_OFFSET_KEY"
  by (simp add: TAIL_INODE_KEY_def TAIL_OFFSET_KEY_def)

lemma read_offset_stored: "tailing i n db \<Longrightarrow> read_offset db = Inr n"
  using str_nat_digits [of n] by (simp add: tailing_def read_offset_def storable_def py_int_str_nat)

lemma tailing_set:
  "tailing i n db \<Longrightarrow> storable m \<Longrightarrow> tailing i m (set_state TAIL_OFFSET_KEY (str_nat m) db)"
  by (simp add: tailing_def ingest.get_set keys_differ)

lemma tail_poll_read:
  assumes "tailing i n db" "n < length c"
  shows "tail_poll lc (FilePresent i (length c) (Inr c)) buf db =
    (let s = buf @ drop n c in
     ((set_state TAIL_OFFSET_KEY (str_nat (n + lines_length (lines_of s))) db, last (split_on CHR 0x0A s)),
      scan_lines lc (lines_of s)))"
  using assms read_offset_stored [OF assms(1)]
  by (simp add: tail_poll_def locate_def tailing_def Let_def lines_of_def lines_length_def)

lemma tail_poll_idle:
  assumes "tailing i (length c) db"
  shows "tail_poll lc (FilePresent i (length c) r) buf db = ((db, buf), [], None)"
  using assms read_offset_stored [OF assms] by (simp add: tail_poll_def locate_def tailing_def)

lemma tail_poll_grow:
  assumes "tailing i (length p) db" "complete_text new" "storable (length (p @ new))"
  shows "\<exists>db'. tail_poll lc (FilePresent i (length (p @ new)) (Inr (p @ new))) [] db =
      ((db', []), scan_lines lc (lines_of new)) \<and> tailing i (length (p @ new)) db'"
proof (cases "new = []")
  case True
  then show ?thesis using tail_poll_idle [of i p db lc "Inr p" "[]"] assms(1) by (simp add: lines_of_def)
next
  case False
  then have "length p < length (p @ new)" by simp
  from tail_poll_read [OF assms(1) this, of lc "[]"] show ?thesis
    using tailing_set [OF assms(1,3)] by (simp add: Let_def lines_of_length [OF assms(2)] complete_split [OF assms(2)])
qed

subsection \<open>Every line once\<close>

fun tail_polls ::
  "log_clock \<Rightarrow> file_poll list \<Rightarrow> string \<Rightarrow> database \<Rightarrow> (timestamp \<times> string) list \<times> exn option" where
  \<comment> \<open>all that a sequence of polls yields, until one raises\<close>
  "tail_polls lc [] buf db = ([], None)"
| "tail_polls lc (fp # fps) buf db = (case tail_poll lc fp buf db of ((db', buf'), ys, r) \<Rightarrow>
     (case r of Some e \<Rightarrow> (ys, Some e)
      | None \<Rightarrow> (case tail_polls lc fps buf' db' of (zs, r') \<Rightarrow> (ys @ zs, r'))))"

lemma tail_polls_step:
  assumes "tail_poll lc fp buf db = ((db', buf'), scan_lines lc xs)"
    "tail_polls lc fps buf' db' = scan_lines lc ys"
  shows "tail_polls lc (fp # fps) buf db = scan_lines lc (xs @ ys)"
proof -
  obtain a r where a: "scan_lines lc xs = (a, r)" by (cases "scan_lines lc xs")
  then show ?thesis using assms by (cases r) (simp_all add: scan_append)
qed

fun grown :: "nat \<Rightarrow> string \<Rightarrow> string list \<Rightarrow> file_poll list" where
  \<comment> \<open>the polls of one file to which the chunks are appended one after the other\<close>
  "grown i p [] = []"
| "grown i p (w # ws) = FilePresent i (length (p @ w)) (Inr (p @ w)) # grown i (p @ w) ws"

lemma storable_mono: "storable n \<Longrightarrow> m \<le> n \<Longrightarrow> storable m"
proof -
  have mono: "length (str_nat m) \<le> length (str_nat n)" if "m \<le> n" for m n
    using that
  proof (induction n arbitrary: m rule: str_nat.induct)
    case (1 n)
    show ?case
    proof (cases "m < 10")
      case True
      then have "length (str_nat m) = 1" by (subst str_nat.simps) simp
      then show ?thesis using str_nat_ne [of n] by (simp add: Suc_le_eq)
    next
      case False
      then have n: "\<not> n < 10" "m div 10 \<le> n div 10" using 1(2) by (auto simp: div_le_mono)
      with 1(1) False show ?thesis by (subst (1 2) str_nat.simps) simp
    qed
  qed
  assume "storable n" "m \<le> n"
  with mono [of m n] show ?thesis by (simp add: storable_def)
qed

lemma tail_polls_grown:
  assumes "tailing i (length p) db" "\<forall>w\<in>set ws. complete_text w" "storable (length (p @ concat ws))"
  shows "tail_polls lc (grown i p ws) [] db = scan_lines lc (lines_of (concat ws))"
  using assms
proof (induction ws arbitrary: p db)
  case (Cons w ws)
  have w: "complete_text w" "storable (length (p @ w))"
    using Cons.prems(2) storable_mono [OF Cons.prems(3)] by auto
  obtain db' where db': "tail_poll lc (FilePresent i (length (p @ w)) (Inr (p @ w))) [] db =
      ((db', []), scan_lines lc (lines_of w))" "tailing i (length (p @ w)) db'"
    using tail_poll_grow [OF Cons.prems(1) w] by blast
  have "tail_polls lc (grown i (p @ w) ws) [] db' = scan_lines lc (lines_of (concat ws))"
    using Cons.IH [OF db'(2)] Cons.prems(2,3) by simp
  from tail_polls_step [OF db'(1) this] show ?case by (simp add: lines_of_append [OF w(1)])
qed (simp add: lines_of_def)

lemma tail_poll_rotated:
  assumes "tailing i n db" "i \<noteq> j" "complete_text c" "c \<noteq> []" "storable (length c)"
  shows "\<exists>db'. tail_poll lc (FilePresent j (length c) (Inr c)) buf db =
      ((db', []), scan_lines lc (lines_of c)) \<and> tailing j (length c) db'"
proof -
  let ?db1 = "set_state TAIL_OFFSET_KEY (str_nat 0) (set_state TAIL_INODE_KEY (str_nat j) db)"
  have "str_nat i \<noteq> str_nat j" using assms(2) digits_val_str_nat by metis
  then have "tail_poll lc (FilePresent j (length c) (Inr c)) buf db =
      ((set_state TAIL_OFFSET_KEY (str_nat (length c)) ?db1, []), scan_lines lc (lines_of c))"
    using assms read_offset_stored [OF assms(1)] complete_split [OF assms(3)] lines_of_length [OF assms(3)]
    by (simp add: tail_poll_def locate_def tailing_def Let_def lines_length_def flip: lines_of_def)
  moreover have "tailing j (length c) (set_state TAIL_OFFSET_KEY (str_nat (length c)) ?db1)"
    using assms(5) by (simp add: tailing_def ingest.get_set keys_differ)
  ultimately show ?thesis by blast
qed

lemma tail_poll_first:
  assumes "get_state TAIL_INODE_KEY db = None" "get_state TAIL_OFFSET_KEY db = None" "storable n"
  shows "\<exists>db'. tail_poll lc (FilePresent i n r) [] db = ((db', []), [], None) \<and> tailing i n db'"
  using assms keys_differ
  by (auto simp: tail_poll_def locate_def read_offset_def tailing_def ingest.get_set)

subsection \<open>Half a line\<close>

lemma tail_half_line:
  assumes "tailing i (length p) db" "complete_text p" "a \<noteq> []" "CHR 0x0A \<notin> set a" "CHR 0x0A \<notin> set b"
    "storable (length p + 2 * length a + length b + 1)"
  defines "c1 \<equiv> p @ a" and "c2 \<equiv> p @ a @ b @ [CHR 0x0A]"
  shows "tail_polls lc [FilePresent i (length c1) (Inr c1), FilePresent i (length c2) (Inr c2),
      FilePresent i (length c2) (Inr c2)] [] db =
    scan_lines lc ((a @ a @ b) # lines_of c2)"
proof -
  have st: "storable (length p)" using assms(1) by (simp add: tailing_def)
  have l1: "lines_of a = []" "last (split_on CHR 0x0A a) = a"
    using assms(4) by (simp_all add: lines_of_def split_on_word)
  have p1: "tail_poll lc (FilePresent i (length c1) (Inr c1)) [] db =
      ((set_state TAIL_OFFSET_KEY (str_nat (length p)) db, a), [], None)"
    using tail_poll_read [OF assms(1), of c1 lc "[]"] assms(3) l1
    by (simp add: c1_def Let_def lines_length_def)
  let ?db1 = "set_state TAIL_OFFSET_KEY (str_nat (length p)) db"
  have t1: "tailing i (length p) ?db1" using tailing_set [OF assms(1) st] .
  let ?n = "length p + (2 * length a + length b + 1)"
  let ?l = "a @ a @ b"
  have l2: "lines_of (?l @ [CHR 0x0A]) = [?l]" "last (split_on CHR 0x0A (?l @ [CHR 0x0A])) = []"
    using assms(4,5) lines_of_one [of ?l] by (auto simp: complete_split complete_text_def)
  have p2: "tail_poll lc (FilePresent i (length c2) (Inr c2)) a ?db1 =
      ((set_state TAIL_OFFSET_KEY (str_nat ?n) ?db1, []), scan_lines lc [?l])"
    using tail_poll_read [OF t1, of c2 lc a] l2
    by (simp add: c2_def Let_def lines_length_def mult_2 add.assoc)
  let ?db2 = "set_state TAIL_OFFSET_KEY (str_nat ?n) ?db1"
  have t2: "tailing i ?n ?db2" using tailing_set [OF t1] assms(6) by (simp add: ac_simps)
  have short: "length c2 < ?n" using assms(3) by (simp add: c2_def)
  have "complete_text c2" by (simp add: c2_def complete_text_def)
  then have p3: "tail_poll lc (FilePresent i (length c2) (Inr c2)) [] ?db2 =
      ((set_state TAIL_OFFSET_KEY (str_nat (length c2)) (set_state TAIL_OFFSET_KEY (str_nat 0) ?db2), []),
       scan_lines lc (lines_of c2))"
    using t2 short read_offset_stored [OF t2] complete_split [of c2] lines_of_length [of c2]
    by (simp add: tail_poll_def locate_def tailing_def Let_def lines_length_def c2_def flip: lines_of_def)
  have "tail_polls lc [] [] db' = scan_lines lc []" for db' by simp
  from tail_polls_step [OF p3 this] have "tail_polls lc [FilePresent i (length c2) (Inr c2)] [] ?db2 =
      scan_lines lc (lines_of c2)" by simp
  from tail_polls_step [OF p2 this] have s2: "tail_polls lc [FilePresent i (length c2) (Inr c2),
      FilePresent i (length c2) (Inr c2)] a ?db1 = scan_lines lc (?l # lines_of c2)" by simp
  have "tail_poll lc (FilePresent i (length c1) (Inr c1)) [] db = ((?db1, a), scan_lines lc [])"
    using p1 by simp
  from tail_polls_step [OF this s2] show ?thesis by simp
qed

end
