(* ===== verification/Delivery.thy ===== *)
theory Delivery
  imports Ingest_Facts Json_Facts
begin

section \<open>From a log line to an alert\<close>

text \<open>
  The consumer of \<open>ssh_ingest.py\<close> end to end: what handling one message changes, that a
  journald session stores the cursor of the last line it read, and that a burst of failed
  logins in the log becomes an alert.
\<close>

subsection \<open>What an event leaves alone\<close>

lemma maybe_fire_frame:
  "login_events (w_db (fst (maybe_fire env k sub body w))) = login_events (w_db w)"
  "get_state key (w_db (fst (maybe_fire env k sub body w))) = get_state key (w_db w)"
  by (simp_all add: maybe_fire_db table_simps)

lemma maybe_fire_extends: "\<exists>xs. alert_rows (w_db (fst (maybe_fire env k sub body w))) = alert_rows (w_db w) @ xs"
  by (simp add: maybe_fire_db table_simps)

definition mail_ok :: "alert_env \<Rightarrow> bool" where
  \<comment> \<open>no email raises out of \<open>_send_email\<close>\<close>
  "mail_ok env \<longleftrightarrow> (\<forall>s b. snd (send_email (ae_smtp env) (ae_smtp_cfg env) s b) = Inr ())"

lemma maybe_fire_returns: "mail_ok env \<Longrightarrow> snd (maybe_fire env k sub body w) = Inr ()"
proof -
  assume "mail_ok env"
  then have "snd (send_email (ae_smtp env) (ae_smtp_cfg env) sub body) = Inr ()" by (simp add: mail_ok_def)
  then show ?thesis
    by (auto simp: maybe_fire_def fire_def read_clock_def Let_def split: prod.split bool.split)
qed

lemma on_ssh_event_cases:
  "on_ssh_event env ev w = (w, Inr ()) \<or> (\<exists>k sub body. on_ssh_event env ev w = maybe_fire env k sub body w)"
  unfolding on_ssh_event_def check_failed_login_def check_new_key_def Let_def
  by (auto split: option.split)

lemma on_ssh_event_frame:
  "login_events (w_db (fst (on_ssh_event env ev w))) = login_events (w_db w)"
  "get_state key (w_db (fst (on_ssh_event env ev w))) = get_state key (w_db w)"
  "\<exists>xs. alert_rows (w_db (fst (on_ssh_event env ev w))) = alert_rows (w_db w) @ xs"
  using on_ssh_event_cases [of env ev w] maybe_fire_frame maybe_fire_extends by (metis append_Nil2 fst_conv)+

lemma on_ssh_event_returns: "mail_ok env \<Longrightarrow> snd (on_ssh_event env ev w) = Inr ()"
  using on_ssh_event_cases [of env ev w] maybe_fire_returns by (metis snd_conv)

lemma on_event_db: "ig_db (fst (on_event env ev st)) = w_db (fst (on_ssh_event env ev (ig_world st)))"
  by (cases "on_ssh_event env ev (ig_world st)") (auto simp: on_event_def ig_db_def split: sum.split)

lemma on_event_returns:
  "mail_ok env \<Longrightarrow> snd (on_event env ev st) = Inr () \<and> ig_sent (fst (on_event env ev st)) = ig_sent st @ [ev]"
  using on_ssh_event_returns [of env ev "ig_world st"]
  by (cases "on_ssh_event env ev (ig_world st)") (auto simp: on_event_def split: sum.split)

lemma with_db_simps [simp]:
  "ig_db (with_db db st) = db" "ig_keys (with_db db st) = ig_keys st" "ig_sent (with_db db st) = ig_sent st"
  "w_db (ig_world (with_db db st)) = db" "w_mail (ig_world (with_db db st)) = w_mail (ig_world st)"
  by (simp_all add: ig_db_def with_db_def)

lemma ig_db_keys [simp]: "ig_db (st\<lparr>ig_keys := ks\<rparr>) = ig_db st" by (simp add: ig_db_def)

subsection \<open>Handling one message\<close>

lemma handle_message_state: "get_state k (ig_db (fst (handle_message env fv ts m st))) = get_state k (ig_db st)"
proof -
  have "get_state k (ig_db (fst (on_event env ev (with_db db st1)))) = get_state k (ig_db st)"
    if "insert_login_event ev (ig_db st) = Inr db" for ev db st1
    using insert_login_event_state [OF that] by (simp add: on_event_db on_ssh_event_frame)
  then show ?thesis
    by (auto simp: handle_message_def Let_def split: sum.split option.split prod.split)
qed

definition readable :: "file_view \<Rightarrow> bool" where
  "readable fv \<longleftrightarrow> fv = NoFile \<or> (\<exists>m t. fv = File m (Inr t))"

lemma key_label_readable: "readable fv \<Longrightarrow> \<exists>ks' l. key_label_of fv fp ks = (ks', Inr l)"
  by (auto simp: readable_def key_label_of_def label_for_fingerprint_def reload_if_needed_def
      split: option.split)

lemma handle_message_stores:
  assumes "parse_sshd_message m = Inr (Some p)" "readable fv"
    "\<forall>n. pl_source_port p = Some n \<longrightarrow> sql_int n" "mail_ok env"
  shows "\<exists>ks lbl db. insert_login_event (event_row ts p lbl) (ig_db st) = Inr db
    \<and> handle_message env fv ts m st =
        (fst (on_event env (event_row ts p lbl) (with_db db (st\<lparr>ig_keys := ks\<rparr>))), Inr ())
    \<and> ig_sent (fst (handle_message env fv ts m st)) = ig_sent st @ [event_row ts p lbl]"
proof -
  obtain ks lbl where l: "key_label_of fv (pl_key_fingerprint p) (ig_keys st) = (ks, Inr lbl)"
    using key_label_readable [OF assms(2)] by blast
  obtain db where db: "insert_login_event (event_row ts p lbl) (ig_db st) = Inr db"
    using assms(3) insert_login_event_Inr [of "event_row ts p lbl"] by (simp add: event_row_def)
  let ?r = "on_event env (event_row ts p lbl) (with_db db (st\<lparr>ig_keys := ks\<rparr>))"
  have "handle_message env fv ts m st = ?r"
    using assms(1) l db by (simp add: handle_message_def Let_def)
  moreover have "?r = (fst ?r, Inr ())" "ig_sent (fst ?r) = ig_sent st @ [event_row ts p lbl]"
    using on_event_returns [OF assms(4)] by (simp_all add: prod_eq_iff)
  ultimately show ?thesis using db by auto
qed

lemma handle_message_overflow:
  assumes "parse_sshd_message m = Inr (Some p)" "readable fv" "pl_source_port p = Some n" "\<not> sql_int n"
  shows "\<exists>ks e. handle_message env fv ts m st = (st\<lparr>ig_keys := ks\<rparr>, Inl e)"
proof -
  obtain ks lbl where l: "key_label_of fv (pl_key_fingerprint p) (ig_keys st) = (ks, Inr lbl)"
    using key_label_readable [OF assms(2)] by blast
  then show ?thesis
    using assms by (auto simp: handle_message_def Let_def insert_login_event_def event_row_def overflow_def)
qed

subsection \<open>A journald session\<close>

definition cursor_of :: "string \<Rightarrow> string option" where
  "cursor_of raw = (case loads raw of
      Inr e \<Rightarrow> (case obj_get e ''__CURSOR'' of Some (JStr c) \<Rightarrow> Some c | _ \<Rightarrow> None)
    | Inl _ \<Rightarrow> None)"

definition journal_entry :: "string \<Rightarrow> bool" where
  \<comment> \<open>an entry with a text message and a cursor, as \<open>journalctl -o json\<close> prints it\<close>
  "journal_entry raw \<longleftrightarrow> (\<exists>e m c. loads raw = Inr e \<and> obj_get e ''MESSAGE'' = Some (JStr m)
     \<and> obj_get e ''__CURSOR'' = Some (JStr c) \<and> c \<noteq> [])"

definition after_cursor :: "string \<Rightarrow> string list \<Rightarrow> string list" where
  \<comment> \<open>what \<open>journalctl --after-cursor\<close> prints of a journal\<close>
  "after_cursor c journal = drop 1 (dropWhile (\<lambda>r. cursor_of r \<noteq> Some c) journal)"

lemma journald_line_entry:
  assumes "journal_entry raw"
  shows "\<exists>c r. cursor_of raw = Some c \<and> c \<noteq> [] \<and>
    journald_line now raw db = (set_state CURSOR_STATE_KEY c db, r) \<and> r \<noteq> Inr None"
proof -
  obtain e m c where e: "loads raw = Inr e" "obj_get e ''MESSAGE'' = Some (JStr m)"
    "obj_get e ''__CURSOR'' = Some (JStr c)" "c \<noteq> []"
    using assms unfolding journal_entry_def by blast
  then have "is_obj e" by (cases e) auto
  with e show ?thesis
    by (auto simp: journald_line_def cursor_of_def split: sum.split)
qed

lemma run_journald_cursor:
  assumes "run_journald env fv now js st = (st', rest, e)" "\<forall>j\<in>set js. journal_entry j"
  shows "\<exists>done. js = done @ rest \<and> get_state CURSOR_STATE_KEY (ig_db st') =
    (if done = [] then get_state CURSOR_STATE_KEY (ig_db st) else cursor_of (last done))"
  using assms
proof (induction js arbitrary: st)
  case (Cons j js)
  obtain c r where j: "cursor_of j = Some c" "c \<noteq> []"
    "journald_line now j (ig_db st) = (set_state CURSOR_STATE_KEY c (ig_db st), r)" "r \<noteq> Inr None"
    using journald_line_entry [of j now "ig_db st"] Cons.prems(2) by auto
  let ?st = "with_db (set_state CURSOR_STATE_KEY c (ig_db st)) st"
  have cur: "get_state CURSOR_STATE_KEY (ig_db ?st) = Some c" by (simp add: ingest.get_same)
  have one: ?case if "rest = js" "get_state CURSOR_STATE_KEY (ig_db st') = Some c"
    using that j(1) by (intro exI [of _ "[j]"]) simp
  show ?case
  proof (cases r)
    case (Inl x)
    then show ?thesis using Cons.prems(1) j(3) cur one by simp
  next
    case (Inr y)
    with j(4) obtain ts m where y: "y = Some (ts, m)" by (cases y) auto
    obtain st1 q where h: "handle_message env fv ts m ?st = (st1, q)"
      by (cases "handle_message env fv ts m ?st")
    have cur1: "get_state CURSOR_STATE_KEY (ig_db st1) = Some c"
      using handle_message_state [of CURSOR_STATE_KEY env fv ts m ?st] h cur by simp
    show ?thesis
    proof (cases q)
      case (Inl x)
      then show ?thesis using Cons.prems(1) j(3) Inr y h cur1 one by simp
    next
      case q: (Inr u)
      then have run: "run_journald env fv now js st1 = (st', rest, e)"
        using Cons.prems(1) j(3) Inr y h by simp
      from Cons.IH [OF run] Cons.prems(2) obtain ds where ds: "js = ds @ rest"
        "get_state CURSOR_STATE_KEY (ig_db st') = (if ds = [] then Some c else cursor_of (last ds))"
        using cur1 by auto
      then show ?thesis using j(1) by (intro exI [of _ "j # ds"]) auto
    qed
  qed
qed simp

lemma after_cursor_split:
  assumes "distinct (map cursor_of (pre @ j # post))" "cursor_of j = Some c"
  shows "after_cursor c (pre @ j # post) = post"
proof -
  have "\<forall>r\<in>set pre. cursor_of r \<noteq> Some c" using assms by (auto simp: image_iff)
  then have "dropWhile (\<lambda>r. cursor_of r \<noteq> Some c) (pre @ j # post) = j # post"
    using assms(2) by (intro dropWhile_split) auto
  then show ?thesis by (simp add: after_cursor_def)
qed

lemma journald_resumes:
  assumes "run_journald env fv now js st = (st', rest, e)" "\<forall>j\<in>set js. journal_entry j"
    "distinct (map cursor_of (pre @ js @ new))" "rest \<noteq> js"
  shows "\<exists>c. get_state CURSOR_STATE_KEY (ig_db st') = Some c \<and> after_cursor c (pre @ js @ new) = rest @ new"
proof -
  obtain ds where ds: "js = ds @ rest" "get_state CURSOR_STATE_KEY (ig_db st') =
      (if ds = [] then get_state CURSOR_STATE_KEY (ig_db st) else cursor_of (last ds))"
    using run_journald_cursor [OF assms(1,2)] by blast
  with assms(4) have ne: "ds \<noteq> []" by auto
  then have "last ds \<in> set js" using ds(1) by simp
  then obtain c where c: "cursor_of (last ds) = Some c"
    using assms(2) journald_line_entry by blast
  have split: "pre @ js @ new = (pre @ butlast ds) @ last ds # (rest @ new)" using ds(1) ne by simp
  have "after_cursor c (pre @ js @ new) = rest @ new"
    using assms(3) after_cursor_split [of "pre @ butlast ds" "last ds" "rest @ new" c] c unfolding split by simp
  with ds(2) ne c show ?thesis by simp
qed

subsection \<open>A brute-force burst\<close>

definition failed_key_msg :: "string \<Rightarrow> sshd_msg \<Rightarrow> bool" where
  "failed_key_msg ip msg \<longleftrightarrow> msg_ok msg \<and> ip \<noteq> [] \<and> ((\<exists>bad u port key tr. msg = Failed ''publickey'' bad u ip port key tr)
     \<or> (\<exists>u port. msg = InvalidUser u ip port))"

lemma failed_key_parsed:
  assumes "failed_key_msg ip msg"
  shows "\<exists>p. parse_sshd_message (print_msg msg) = Inr (Some p) \<and> pl_source_ip p = Some ip
    \<and> pl_event_type p \<in> {''failed_publickey'', ''invalid_user''}
    \<and> (\<forall>n. pl_source_port p = Some n \<longrightarrow> sql_int n)"
  using assms parse_print [of msg]
  by (auto simp: failed_key_msg_def event_of_def outcome_def sql_int_def split: option.splits)

lemma burst_step:
  assumes "failed_key_msg ip msg" "readable fv" "mail_ok env" "ac_enabled (ae_alerts env)"
  shows "\<exists>st'. handle_message env fv ts (print_msg msg) st = (st', Inr ())
    \<and> count_failed_logins_since ip since (ig_db st') =
        count_failed_logins_since ip since (ig_db st) + (if since \<le> ts then 1 else 0)
    \<and> (\<exists>xs. alert_rows (ig_db st') = alert_rows (ig_db st) @ xs)
    \<and> (failed_login_threshold (ae_alerts env) \<le> int (count_failed_logins_since ip
          (ts - of_int (failed_login_window_minutes (ae_alerts env) * 60)) (ig_db st'))
       \<longrightarrow> (\<exists>r\<in>set (alert_rows (ig_db st')). ar_alert_type r = ''failed_login:'' @ ip))"
proof -
  obtain p where p: "parse_sshd_message (print_msg msg) = Inr (Some p)" "pl_source_ip p = Some ip"
    "pl_event_type p \<in> {''failed_publickey'', ''invalid_user''}"
    "\<forall>n. pl_source_port p = Some n \<longrightarrow> sql_int n"
    using failed_key_parsed [OF assms(1)] by blast
  obtain ks lbl db where h: "insert_login_event (event_row ts p lbl) (ig_db st) = Inr db"
    "handle_message env fv ts (print_msg msg) st =
       (fst (on_event env (event_row ts p lbl) (with_db db (st\<lparr>ig_keys := ks\<rparr>))), Inr ())"
    using handle_message_stores [OF p(1) assms(2) p(4) assms(3)] by blast
  let ?ev = "event_row ts p lbl" and ?w = "ig_world (with_db db (st\<lparr>ig_keys := ks\<rparr>))"
  let ?st' = "fst (on_event env ?ev (with_db db (st\<lparr>ig_keys := ks\<rparr>)))"
  let ?w' = "fst (on_ssh_event env ?ev ?w)"
  have db': "ig_db ?st' = w_db ?w'" by (simp add: on_event_db)
  have cnt: "count_failed_logins_since ip s (ig_db ?st') = count_failed_logins_since ip s db" for s
    by (simp add: db' count_failed_logins_since_def on_ssh_event_frame)
  have frow: "is_failed_row ip s ?ev \<longleftrightarrow> s \<le> ts" for s
    using p(2,3) by (auto simp: is_failed_row_def event_row_def)
  have al: "alert_rows db = alert_rows (ig_db st)"
    using h(1) by (auto simp: insert_login_event_Inr alert_rows_def)
  have ev: "le_event_type ?ev \<in> FAILED_EVENT_TYPES" "le_source_ip ?ev = Some ip" "ip \<noteq> []" "le_ts ?ev = ts"
    using p(2,3) assms(1) by (auto simp: event_row_def FAILED_EVENT_TYPES_def failed_key_msg_def)
  have ext: "\<exists>xs. alert_rows (ig_db ?st') = alert_rows (ig_db st) @ xs"
    using on_ssh_event_frame(3) [of env ?ev ?w] by (simp add: db' al)
  have alert: "\<exists>r\<in>set (alert_rows (ig_db ?st')). ar_alert_type r = ''failed_login:'' @ ip"
    if th: "failed_login_threshold (ae_alerts env) \<le> int (count_failed_logins_since ip
        (ts - of_int (failed_login_window_minutes (ae_alerts env) * 60)) (ig_db ?st'))"
  proof (cases "last_alert_ts (''failed_login:'' @ ip) db")
    case None
    have "raises env (''failed_login:'' @ ip) ?w ?w'"
      using failed_login_decision(2) [OF assms(4) ev(1-3)] th unfolding cnt ev(4) by simp
    moreover have "alerts.cooled (cooldown_seconds env) (''failed_login:'' @ ip) (ae_clock env (w_ticks ?w)) (w_db ?w)"
      using None by (simp add: alerts.cooled_def)
    ultimately have "map ar_alert_type (alert_rows (w_db ?w')) =
        map ar_alert_type (alert_rows (w_db ?w)) @ [''failed_login:'' @ ip]" by (simp add: raises_def)
    then have "''failed_login:'' @ ip \<in> ar_alert_type ` set (alert_rows (w_db ?w'))"
      by (metis in_set_conv_decomp set_map)
    then show ?thesis unfolding db' by auto
  next
    case (Some l)
    then have "select_rows (\<lambda>r. ar_alert_type r = ''failed_login:'' @ ip) (alert_log db) \<noteq> []"
      using last_alert_ts_None by (metis option.distinct(1))
    then obtain r where "r \<in> set (alert_rows db)" "ar_alert_type r = ''failed_login:'' @ ip"
      by (auto simp: alert_rows_def select_rows_def filter_empty_conv)
    with ext al show ?thesis by auto
  qed
  show ?thesis
    using h(2) cnt [of since] count_insert [OF h(1), of ip since] frow ext alert by auto
qed

lemma burst_counts:
  assumes "\<forall>(ts, msg)\<in>set ms. failed_key_msg ip msg \<and> since \<le> ts" "readable fv" "mail_ok env"
    "ac_enabled (ae_alerts env)"
  shows "\<exists>st'. handle_all env fv (map (\<lambda>(ts, msg). (ts, print_msg msg)) ms) st = (st', Inr ())
    \<and> count_failed_logins_since ip since (ig_db st') =
        count_failed_logins_since ip since (ig_db st) + length ms"
  using assms(1)
proof (induction ms arbitrary: st)
  case (Cons x ms)
  obtain ts msg where x: "x = (ts, msg)" by (cases x)
  obtain st1 where st1: "handle_message env fv ts (print_msg msg) st = (st1, Inr ())"
    "count_failed_logins_since ip since (ig_db st1) = count_failed_logins_since ip since (ig_db st) + 1"
    using burst_step [OF _ assms(2-4), of ip msg ts st since] Cons.prems x by auto
  from Cons.IH [of st1] Cons.prems obtain st' where
    "handle_all env fv (map (\<lambda>(ts, msg). (ts, print_msg msg)) ms) st1 = (st', Inr ())"
    "count_failed_logins_since ip since (ig_db st') = count_failed_logins_since ip since (ig_db st1) + length ms"
    by auto
  with st1 x show ?case by simp
qed simp

lemma handle_all_snoc:
  "handle_all env fv (xs @ [(ts, m)]) st = (case handle_all env fv xs st of
      (st1, Inl e) \<Rightarrow> (st1, Inl e) | (st1, Inr _) \<Rightarrow> handle_message env fv ts m st1)"
  by (induction xs arbitrary: st) (auto split: prod.split sum.split)

lemma burst_alert:
  assumes "\<forall>(t, msg)\<in>set (ms @ [(ts, msg)]). failed_key_msg ip msg
      \<and> ts - of_int (failed_login_window_minutes (ae_alerts env) * 60) \<le> t"
    and "failed_login_threshold (ae_alerts env) \<le> int (length (ms @ [(ts, msg)]))"
    and "readable fv" "mail_ok env" "ac_enabled (ae_alerts env)"
  shows "\<exists>st'. handle_all env fv (map (\<lambda>(t, msg). (t, print_msg msg)) (ms @ [(ts, msg)])) st = (st', Inr ())
    \<and> (\<exists>r\<in>set (alert_rows (ig_db st')). ar_alert_type r = ''failed_login:'' @ ip)"
proof -
  let ?since = "ts - of_int (failed_login_window_minutes (ae_alerts env) * 60)"
  obtain st1 where st1: "handle_all env fv (map (\<lambda>(t, msg). (t, print_msg msg)) ms) st = (st1, Inr ())"
    "count_failed_logins_since ip ?since (ig_db st1) =
       count_failed_logins_since ip ?since (ig_db st) + length ms"
    using burst_counts [OF _ assms(3-5), of ms ip ?since st] assms(1) by auto
  obtain st' where st': "handle_message env fv ts (print_msg msg) st1 = (st', Inr ())"
    "count_failed_logins_since ip ?since (ig_db st') =
       count_failed_logins_since ip ?since (ig_db st1) + (if ?since \<le> ts then 1 else 0)"
    "failed_login_threshold (ae_alerts env) \<le> int (count_failed_logins_since ip ?since (ig_db st'))
       \<longrightarrow> (\<exists>r\<in>set (alert_rows (ig_db st')). ar_alert_type r = ''failed_login:'' @ ip)"
    using burst_step [OF _ assms(3-5), of ip msg ts st1 ?since] assms(1) by auto
  have "?since \<le> ts" using assms(1) by auto
  with st'(2) st1(2) assms(2) have "failed_login_threshold (ae_alerts env)
      \<le> int (count_failed_logins_since ip ?since (ig_db st'))" by simp
  with st' st1(1) show ?thesis by (simp add: handle_all_snoc)
qed

end
