(* ===== verification/Scheduler.thy ===== *)
theory Scheduler
  imports Server_Facts Gpu_Intel Delivery
begin

section \<open>scheduler.py: the daemon's tasks\<close>

text \<open>
  \<open>daemon/src/omnia_daemon/scheduler.py\<close>. Each task is an endless loop; a definition here is one turn
  of it, between two waits, on the server's state (which holds the database, the alert manager's
  effects and the key store). The metrics task also keeps its collector, the buffer of snapshots
  and the time of the last flush. A turn that raises answers the exception; the metrics loop has
  no handler, so its task then ends, the others log and go on. A task that \<open>create_task\<close> starts to
  broadcast an event runs before the next turn. What the clocks and tools answer is a parameter.
\<close>

subsection \<open>The metrics loop\<close>

definition disk_json :: "disk_info \<Rightarrow> json" where
  "disk_json d = JObj [(''mountpoint'', JStr (dk_mountpoint d)), (''device'', JStr (dk_device d)),
     (''fstype'', JStr (dk_fstype d)), (''total_bytes'', JInt (dk_total_bytes d)),
     (''used_bytes'', JInt (dk_used_bytes d)), (''percent'', JFloat (dk_percent d))]"

definition process_json :: "process_info \<Rightarrow> json" where
  "process_json p = JObj [(''pid'', JInt (pi_pid p)), (''name'', JStr (pi_name p)),
     (''cpu_percent'', JFloat (pi_cpu_percent p)), (''mem_percent'', JFloat (pi_mem_percent p))]"

definition temperature_json :: "(string \<times> (string \<times> rat) list) list \<Rightarrow> json" where
  "temperature_json ts = JObj (map (\<lambda>(name, es). (name, JArr (map (\<lambda>(l, c).
     JObj [(''label'', JStr l), (''current'', JFloat c)]) es))) ts)"

definition snapshot_json :: "metrics_snapshot \<Rightarrow> json \<Rightarrow> json" where
  \<comment> \<open>the dict of \<open>MetricsCollector.snapshot\<close> with \<open>snapshot["gpu"]\<close> set\<close>
  "snapshot_json s gpu = JObj [(''ts'', JFloat (sn_ts s)), (''cpu_percent'', JFloat (sn_cpu_percent s)),
     (''cpu_per_core'', JArr (map JFloat (sn_cpu_per_core s))), (''ram_percent'', JFloat (sn_ram_percent s)),
     (''ram_used_bytes'', JInt (sn_ram_used_bytes s)), (''ram_total_bytes'', JInt (sn_ram_total_bytes s)),
     (''swap_percent'', JFloat (sn_swap_percent s)), (''net_rx_bytes_per_sec'', JFloat (sn_net_rx s)),
     (''net_tx_bytes_per_sec'', JFloat (sn_net_tx s)), (''disks'', JArr (map disk_json (sn_disks s))),
     (''top_processes'', JArr (map process_json (sn_top_processes s))),
     (''uptime_seconds'', JFloat (sn_uptime_seconds s)), (''temperatures'', temperature_json (sn_temperatures s)),
     (''gpu'', gpu)]"

type_synonym sample = "metrics_snapshot \<times> json"

definition mean_of :: "(metrics_snapshot \<Rightarrow> rat) \<Rightarrow> sample list \<Rightarrow> rat" where
  "mean_of f buffer = fmean (map (f \<circ> fst) buffer)"

definition flush_row :: "sample list \<Rightarrow> snapshot_row" where
  "flush_row buffer = (let latest = fst (last buffer) in
     \<lparr>rs_ts = sn_ts latest, rs_cpu_percent = mean_of sn_cpu_percent buffer, rs_ram_percent = mean_of sn_ram_percent buffer,
      rs_ram_used_bytes = sn_ram_used_bytes latest, rs_ram_total_bytes = sn_ram_total_bytes latest,
      rs_swap_percent = mean_of sn_swap_percent buffer, rs_net_rx_bytes_per_sec = mean_of sn_net_rx buffer,
      rs_net_tx_bytes_per_sec = mean_of sn_net_tx buffer, rs_disk_json = JArr (map disk_json (sn_disks latest)),
      rs_gpu_json = snd (last buffer)\<rparr>)"

definition flush_snapshot_buffer :: "sample list \<Rightarrow> database \<Rightarrow> database result" where
  "flush_snapshot_buffer buffer db = (if buffer = [] then Inl IndexError
     else insert_resource_snapshot (flush_row buffer) db)"

record 'h metrics_task =
  mt_collector :: "'h collector"
  mt_buffer :: "sample list"
  mt_last_flush :: rat

definition start_metrics :: "'h collector \<Rightarrow> rat \<Rightarrow> 'h metrics_task" where
  "start_metrics col now = \<lparr>mt_collector = col, mt_buffer = [], mt_last_flush = now\<rparr>"

definition flush_turn :: "rat \<Rightarrow> rat \<Rightarrow> 'h metrics_task \<Rightarrow> database \<Rightarrow> ('h metrics_task \<times> database) result" where
  \<comment> \<open>from \<open>now = time.monotonic()\<close> on\<close>
  "flush_turn interval now mt db = (if mt_buffer mt \<noteq> [] \<and> now - mt_last_flush mt \<ge> interval
     then (case flush_snapshot_buffer (mt_buffer mt) db of Inl e \<Rightarrow> Inl e
       | Inr db' \<Rightarrow> Inr (mt\<lparr>mt_buffer := [], mt_last_flush := now\<rparr>, db'))
     else Inr (mt, db))"

definition metrics_turn ::
  "alert_env \<Rightarrow> (rat \<Rightarrow> string) \<Rightarrow> rat \<Rightarrow> 'h psutil_poll \<Rightarrow> json \<Rightarrow> rat \<Rightarrow>
   'h metrics_task \<times> server \<Rightarrow> ('h metrics_task \<times> server) \<times> exn option" where
  "metrics_turn env ft interval pp gpu now st = (case st of (mt, sv) \<Rightarrow>
     (case snapshot pp (mt_collector mt) of
        (col, Inl e) \<Rightarrow> ((mt\<lparr>mt_collector := col\<rparr>, sv), Some e)
      | (col, Inr s) \<Rightarrow> (let j = snapshot_json s gpu; mt1 = mt\<lparr>mt_collector := col\<rparr>;
            sv1 = broadcast ft ''metrics'' j (set_latest_snapshot j sv) in
          case on_metrics_snapshot env (sn_disks s) (sv_world sv1) of
            (w, Inl e) \<Rightarrow> ((mt1, sv1\<lparr>sv_world := w\<rparr>), Some e)
          | (w, Inr _) \<Rightarrow> (let mt2 = mt1\<lparr>mt_buffer := mt_buffer mt1 @ [(s, gpu)]\<rparr>; sv2 = sv1\<lparr>sv_world := w\<rparr> in
              case flush_turn interval now mt2 (sv_db sv2) of
                Inl e \<Rightarrow> ((mt2, sv2), Some e)
              | Inr (mt3, db) \<Rightarrow> ((mt3, with_sv_db db sv2), None)))))"

subsection \<open>The ingest loop\<close>

definition ingest_of :: "server \<Rightarrow> ingest" where
  "ingest_of sv = \<lparr>ig_world = sv_world sv, ig_keys = sv_keys sv, ig_sent = []\<rparr>"

definition deliver :: "(rat \<Rightarrow> string) \<Rightarrow> ingest \<Rightarrow> server \<Rightarrow> server" where
  \<comment> \<open>the state the callback leaves, and the broadcasts it started\<close>
  "deliver ft st sv = foldl (\<lambda>s ev. broadcast ft ''login_event'' (event_dict ev) s)
     (sv\<lparr>sv_world := ig_world st, sv_keys := ig_keys st\<rparr>) (ig_sent st)"

definition message_turn ::
  "alert_env \<Rightarrow> (rat \<Rightarrow> string) \<Rightarrow> file_view \<Rightarrow> timestamp \<Rightarrow> string \<Rightarrow> server \<Rightarrow> server \<times> unit result" where
  "message_turn env ft fv ts message sv = (case handle_message env fv ts message (ingest_of sv) of
     (st, r) \<Rightarrow> (deliver ft st sv, r))"

subsection \<open>The other tasks\<close>

definition speedtest_turn :: "(rat \<Rightarrow> string) \<Rightarrow> speedtest_dict result \<Rightarrow> timestamp \<Rightarrow> server \<Rightarrow> server" where
  "speedtest_turn = run_speedtest_and_broadcast"

fun speedtest_schedule :: "(rat \<Rightarrow> string) \<Rightarrow> bool \<Rightarrow> (speedtest_dict result \<times> timestamp) list \<Rightarrow> server \<Rightarrow> server" where
  \<comment> \<open>the turns of \<open>run_speedtest_schedule\<close>, which returns at once when disabled\<close>
  "speedtest_schedule ft enabled [] sv = sv"
| "speedtest_schedule ft enabled ((lib, ts) # rest) sv = (if \<not> enabled then sv
     else speedtest_schedule ft enabled rest (speedtest_turn ft lib ts sv))"

definition KEY_SERVICE_UNITS :: "string list" where
  "KEY_SERVICE_UNITS = [''ssh.service'', ''sshd.service'', ''docker.service'', ''fail2ban.service'']"

fun texts :: "json list \<Rightarrow> string list result" where
  \<comment> \<open>\<open>[d["device"] for d in ...]\<close>, which the regular expression then reads as text\<close>
  "texts [] = Inr []"
| "texts (d # ds) = (case subscript d ''device'' of Inl e \<Rightarrow> Inl e
     | Inr (JStr s) \<Rightarrow> (case texts ds of Inl e \<Rightarrow> Inl e | Inr ss \<Rightarrow> Inr (s # ss))
     | Inr _ \<Rightarrow> Inl (TypeError ''expected string or bytes-like object''))"

definition disk_devices :: "json \<Rightarrow> string list result" where
  "disk_devices latest = (case args_get latest ''disks'' (JArr []) of Inl e \<Rightarrow> Inl e
     | Inr (JArr ds) \<Rightarrow> texts ds
     | Inr _ \<Rightarrow> Inl (TypeError ''object is not iterable''))"

definition smart_status :: "(string \<Rightarrow> bool) \<Rightarrow> exec \<Rightarrow> json \<Rightarrow> json result" where
  "smart_status which exec latest = (case disk_devices latest of Inl e \<Rightarrow> Inl e
     | Inr devs \<Rightarrow> disk_smart_health which exec (guess_base_devices devs))"

fun collect_status :: "(string \<times> bool \<times> json result) list \<Rightarrow> (string \<times> json) list" where
  \<comment> \<open>the body of the \<open>try\<close>: the first section that raises ends it, what was collected stays\<close>
  "collect_status [] = []"
| "collect_status ((name, on, r) # rest) = (if \<not> on then collect_status rest
     else (case r of Inl e \<Rightarrow> [] | Inr j \<Rightarrow> (name, j) # collect_status rest))"

definition status_sections ::
  "features_config \<Rightarrow> (string \<Rightarrow> bool) \<Rightarrow> exec \<Rightarrow> json \<Rightarrow> (string \<times> bool \<times> json result) list" where
  "status_sections f which exec latest =
     [(''services'', True, map_sum id JArr (service_statuses exec KEY_SERVICE_UNITS)),
      (''docker'', ft_docker f, docker_containers which exec),
      (''fail2ban'', ft_fail2ban f, fail2ban_banned_ips which exec),
      (''updates'', ft_pending_updates f, pending_updates which exec),
      (''smart'', ft_smart_health f, smart_status which exec latest)]"

definition extra_status_turn :: "features_config \<Rightarrow> (string \<Rightarrow> bool) \<Rightarrow> exec \<Rightarrow> server \<Rightarrow> server" where
  "extra_status_turn f which exec sv = set_extra_status_cache
     (JObj ((''available'', JBool True) # collect_status (status_sections f which exec (sv_latest sv)))) sv"

definition retention_turn :: "timestamp \<Rightarrow> int \<Rightarrow> int \<Rightarrow> server \<Rightarrow> server" where
  "retention_turn now login_days snapshot_days sv =
     with_sv_db (cleanup_retention now login_days snapshot_days (sv_db sv)) sv"

subsection \<open>Averages\<close>

lemma mean_of_bounds:
  assumes "buffer \<noteq> []" "\<forall>(s, g)\<in>set buffer. a \<le> f s \<and> f s \<le> b"
  shows "a \<le> mean_of f buffer \<and> mean_of f buffer \<le> b"
  unfolding mean_of_def by (rule fmean_bounds) (use assms in auto)

lemma flush_row_latest:
  "rs_ts (flush_row (xs @ [(s, g)])) = sn_ts s" "rs_gpu_json (flush_row (xs @ [(s, g)])) = g"
  "rs_ram_used_bytes (flush_row (xs @ [(s, g)])) = sn_ram_used_bytes s"
  by (simp_all add: flush_row_def Let_def)

subsection \<open>Every snapshot ends in one row\<close>

type_synonym 'h metrics_input = "'h psutil_poll \<times> json \<times> rat"

definition sampled :: "'h psutil_poll \<Rightarrow> json \<Rightarrow> 'h metrics_task \<Rightarrow> sample list" where
  "sampled pp gpu mt = (case snapshot pp (mt_collector mt) of (_, Inr s) \<Rightarrow> [(s, gpu)] | _ \<Rightarrow> [])"

fun metrics_run ::
  "alert_env \<Rightarrow> (rat \<Rightarrow> string) \<Rightarrow> rat \<Rightarrow> 'h metrics_input list \<Rightarrow> 'h metrics_task \<times> server \<Rightarrow>
   ('h metrics_task \<times> server) \<times> sample list \<times> exn option" where
  \<comment> \<open>the turns of the loop until one raises, with the snapshots taken\<close>
  "metrics_run env ft interval [] st = (st, [], None)"
| "metrics_run env ft interval ((pp, gpu, now) # ins) st = (case metrics_turn env ft interval pp gpu now st of
      (st', Some e) \<Rightarrow> (st', sampled pp gpu (fst st), Some e)
    | (st', None) \<Rightarrow> (case metrics_run env ft interval ins st' of
        (st'', xs, e) \<Rightarrow> (st'', sampled pp gpu (fst st) @ xs, e)))"

definition snapshot_rows :: "server \<Rightarrow> snapshot_row list" where
  "snapshot_rows sv = map snd (tb_rows (resource_snapshots (sv_db sv)))"

lemma maybe_fire_snapshots: "resource_snapshots (w_db (fst (maybe_fire env k sub body w))) = resource_snapshots (w_db w)"
  by (simp add: maybe_fire_db insert_alert_def)

lemma check_disks_snapshots: "resource_snapshots (w_db (fst (check_disks env ds w))) = resource_snapshots (w_db w)"
proof (induction ds arbitrary: w)
  case (Cons d ds)
  then show ?case
    using maybe_fire_snapshots
    by (auto split: prod.split sum.split) (metis fst_conv)+
qed simp

lemma on_metrics_snapshots:
  "on_metrics_snapshot env ds w = (w', r) \<Longrightarrow> resource_snapshots (w_db w') = resource_snapshots (w_db w)"
  using check_disks_snapshots [of env ds w] by (auto simp: on_metrics_snapshot_def split: if_splits)

lemma flush_turn_rows:
  assumes "flush_turn interval now mt db = Inr (mt', db')"
  shows "\<exists>gs. mt_buffer mt = concat gs @ mt_buffer mt' \<and> [] \<notin> set gs
    \<and> map snd (tb_rows (resource_snapshots db')) = map snd (tb_rows (resource_snapshots db)) @ map flush_row gs"
proof (cases "mt_buffer mt \<noteq> [] \<and> now - mt_last_flush mt \<ge> interval")
  case True
  with assms have "insert_resource_snapshot (flush_row (mt_buffer mt)) db = Inr db'" "mt_buffer mt' = []"
    by (auto simp: flush_turn_def flush_snapshot_buffer_def split: sum.splits)
  with True show ?thesis
    by (intro exI [of _ "[mt_buffer mt]"]) (auto simp: insert_resource_snapshot_Inr insert_row_def)
next
  case False
  with assms show ?thesis by (intro exI [of _ "[]"]) (auto simp: flush_turn_def)
qed

lemma metrics_turn_rows:
  assumes "metrics_turn env ft interval pp gpu now (mt, sv) = ((mt', sv'), None)"
  shows "\<exists>gs. mt_buffer mt @ sampled pp gpu mt = concat gs @ mt_buffer mt' \<and> [] \<notin> set gs
    \<and> snapshot_rows sv' = snapshot_rows sv @ map flush_row gs"
proof -
  obtain col s where s: "snapshot pp (mt_collector mt) = (col, Inr s)"
    using assms by (auto simp: metrics_turn_def split: prod.splits sum.splits)
  let ?sv1 = "broadcast ft ''metrics'' (snapshot_json s gpu) (set_latest_snapshot (snapshot_json s gpu) sv)"
  obtain w where w: "on_metrics_snapshot env (sn_disks s) (sv_world ?sv1) = (w, Inr ())"
    using assms s by (auto simp: metrics_turn_def Let_def split: prod.splits sum.splits)
  obtain db where f: "flush_turn interval now (mt\<lparr>mt_collector := col, mt_buffer := mt_buffer mt @ [(s, gpu)]\<rparr>)
      (sv_db (?sv1\<lparr>sv_world := w\<rparr>)) = Inr (mt', db)" and sv': "sv' = with_sv_db db (?sv1\<lparr>sv_world := w\<rparr>)"
    using assms s w by (auto simp: metrics_turn_def Let_def split: prod.splits sum.splits)
  have "resource_snapshots (w_db w) = resource_snapshots (sv_db sv)"
    using on_metrics_snapshots [OF w] by (simp add: server_simps set_latest_snapshot_def sv_db_def)
  with flush_turn_rows [OF f] sv' s show ?thesis
    by (auto simp: snapshot_rows_def sampled_def sv_db_def with_sv_db_def)
qed

lemma metrics_run_rows:
  assumes "metrics_run env ft interval ins (mt, sv) = ((mt', sv'), xs, None)"
  shows "\<exists>gs. mt_buffer mt @ xs = concat gs @ mt_buffer mt' \<and> [] \<notin> set gs
    \<and> snapshot_rows sv' = snapshot_rows sv @ map flush_row gs"
  using assms
proof (induction ins arbitrary: mt sv xs)
  case Nil
  then show ?case by (intro exI [of _ "[]"]) simp
next
  case (Cons i ins)
  obtain pp gpu now where i: "i = (pp, gpu, now)" by (cases i)
  obtain mt1 sv1 e where t: "metrics_turn env ft interval pp gpu now (mt, sv) = ((mt1, sv1), e)" by (metis surj_pair)
  with Cons.prems i obtain ys where e: "e = None" and r: "metrics_run env ft interval ins (mt1, sv1) = ((mt', sv'), ys, None)"
    and xs: "xs = sampled pp gpu mt @ ys" by (auto split: option.splits prod.splits)
  obtain g where g: "mt_buffer mt @ sampled pp gpu mt = concat g @ mt_buffer mt1" "[] \<notin> set g"
    "snapshot_rows sv1 = snapshot_rows sv @ map flush_row g" using metrics_turn_rows t e by blast
  obtain gs where gs: "mt_buffer mt1 @ ys = concat gs @ mt_buffer mt'" "[] \<notin> set gs"
    "snapshot_rows sv' = snapshot_rows sv1 @ map flush_row gs" using Cons.IH [OF r] by blast
  have "mt_buffer mt @ xs = concat (g @ gs) @ mt_buffer mt'" using g(1) gs(1) xs by (metis append.assoc concat_append)
  then show ?case using g gs by (intro exI [of _ "g @ gs"]) simp
qed

subsection \<open>Status\<close>

lemma collect_status_all:
  "\<forall>(n, on, r)\<in>set secs. on \<longrightarrow> (\<exists>j. r = Inr j) \<Longrightarrow> map fst (collect_status secs) = map fst (filter (\<lambda>(n, on, r). on) secs)"
  by (induction secs) auto

lemma smart_status_ok: "exec_ok exec \<Longrightarrow> disk_devices latest = Inr devs \<Longrightarrow> \<exists>j. smart_status which exec latest = Inr j"
  using smart_ok by (simp add: smart_status_def)

lemma texts_disks: "texts (map disk_json ds) = Inr (map dk_device ds)"
  by (induction ds) (simp_all add: disk_json_def)

lemma disk_devices_snapshot: "disk_devices (snapshot_json s gpu) = Inr (map dk_device (sn_disks s))"
  by (simp add: disk_devices_def args_get_def snapshot_json_def texts_disks)

end
