(* ===== verification/Daemon.thy ===== *)
theory Daemon
  imports Scheduler Alert_Facts
begin

section \<open>The daemon as a whole\<close>

text \<open>
  The tasks \<open>main.py\<close> starts share one event loop: a history of the daemon is a sequence of turns of
  the metrics loop, log messages, positions stored by the log source, client inputs, speed tests,
  status refreshes and retention runs in any order, raising ones included. The lemmas project
  such a history to the histories of its components, so that what is proved of the alert rules,
  the tables and the handlers holds of the running daemon.
\<close>

inductive omnia_step ::
  "alert_env \<Rightarrow> features_config \<Rightarrow> 'h metrics_task \<times> server \<Rightarrow> 'h metrics_task \<times> server \<Rightarrow> bool" for env f where
  metrics: "metrics_turn env ft interval pp gpu now st = (st', e) \<Longrightarrow> omnia_step env f st st'"
| message: "message_turn env ft fv ts m sv = (sv', r) \<Longrightarrow> omnia_step env f (mt, sv) (mt, sv')"
| position: "omnia_step env f (mt, sv) (mt, with_sv_db (set_state k v (sv_db sv)) sv)"
| input: "se_features senv = f \<Longrightarrow> handle_input senv cid inp sv = (sv', e) \<Longrightarrow> omnia_step env f (mt, sv) (mt, sv')"
| accept: "omnia_step env f (mt, sv) (mt, accept_client cid sv)"
| speedtest: "omnia_step env f (mt, sv) (mt, run_speedtest_and_broadcast ft lib ts sv)"
| status: "omnia_step env f (mt, sv) (mt, extra_status_turn f which exec sv)"
| retention: "omnia_step env f (mt, sv) (mt, retention_turn now ld sd sv)"

definition omnia_start :: "database \<Rightarrow> 'h psutil_poll \<Rightarrow> rat \<Rightarrow> 'h metrics_task \<times> server" where
  \<comment> \<open>the components \<open>_main_async\<close> creates over an opened database\<close>
  "omnia_start db pp now = (start_metrics (new_collector pp) now,
     new_server \<lparr>w_db = db, w_ticks = 0, w_mail = []\<rparr> new_key_store)"

definition start_gpu :: "bool \<Rightarrow> rat \<Rightarrow> gpu_monitor" where
  "start_gpu enabled retry_minutes = (if enabled then new_gpu_monitor retry_minutes else disable (new_gpu_monitor retry_minutes))"

subsection \<open>The alert rules' view\<close>

lemma with_sv_db_world [server_simps]:
  "sv_world (with_sv_db db sv) = (sv_world sv)\<lparr>w_db := db\<rparr>" "sv_ran (with_sv_db db sv) = sv_ran sv"
  "client_at i (with_sv_db db sv) = client_at i sv"
  by (simp_all add: with_sv_db_def client_at_def)

lemma latest_world [server_simps]:
  "sv_world (set_latest_snapshot j sv) = sv_world sv" "sv_world (set_extra_status_cache j sv) = sv_world sv"
  "sv_world (accept_client cid sv) = sv_world sv"
  by (simp_all add: set_latest_snapshot_def set_extra_status_cache_def accept_client_def)

lemma daemon_db:
  "db_step (w_db w) db' \<Longrightarrow> alert_log db' = alert_log (w_db w) \<Longrightarrow> (daemon_step env)\<^sup>*\<^sup>* w (w\<lparr>w_db := db'\<rparr>)"
  by (intro r_into_rtranclp daemon_step.other)

lemma flush_turn_steps:
  assumes "flush_turn interval now mt (w_db w) = Inr (mt', db)"
  shows "(daemon_step env)\<^sup>*\<^sup>* w (w\<lparr>w_db := db\<rparr>)"
proof (cases "mt_buffer mt \<noteq> [] \<and> now - mt_last_flush mt \<ge> interval")
  case True
  with assms have "insert_resource_snapshot (flush_row (mt_buffer mt)) (w_db w) = Inr db"
    by (auto simp: flush_turn_def flush_snapshot_buffer_def split: sum.splits)
  then show ?thesis by (intro daemon_db db_step.snapshot) (auto simp: insert_resource_snapshot_Inr)
next
  case False
  with assms show ?thesis by (auto simp: flush_turn_def)
qed

lemma metrics_turn_steps:
  assumes "metrics_turn env ft interval pp gpu now (mt, sv) = ((mt', sv'), e)"
  shows "(daemon_step env)\<^sup>*\<^sup>* (sv_world sv) (sv_world sv')"
proof (cases "snapshot pp (mt_collector mt)")
  case (Pair col r)
  show ?thesis
  proof (cases r)
    case (Inl x)
    with assms Pair show ?thesis by (simp add: metrics_turn_def)
  next
    case (Inr s)
    let ?w = "on_metrics_snapshot env (sn_disks s) (sv_world sv)"
    have step: "(daemon_step env)\<^sup>*\<^sup>* (sv_world sv) (fst ?w)"
      by (rule r_into_rtranclp) (rule daemon_step.metrics)
    show ?thesis
    proof (cases "snd ?w")
      case (Inl x)
      with assms Pair Inr step show ?thesis
        by (auto simp: metrics_turn_def Let_def server_simps split: prod.splits)
    next
      case (Inr u)
      then obtain w where w: "?w = (w, Inr ())" by (cases ?w) auto
      let ?mt = "mt\<lparr>mt_collector := col, mt_buffer := mt_buffer mt @ [(s, gpu)]\<rparr>"
      show ?thesis
      proof (cases "flush_turn interval now ?mt (w_db w)")
        case (Inl x)
        with assms Pair \<open>r = Inr s\<close> w step show ?thesis
          by (auto simp: metrics_turn_def Let_def server_simps sv_db_def)
      next
        case (Inr p)
        then obtain mt1 db where f: "flush_turn interval now ?mt (w_db w) = Inr (mt1, db)" by (cases p) auto
        from flush_turn_steps [OF f] have "(daemon_step env)\<^sup>*\<^sup>* w (w\<lparr>w_db := db\<rparr>)" .
        with assms Pair \<open>r = Inr s\<close> w step f show ?thesis
          by (auto simp: metrics_turn_def Let_def server_simps sv_db_def)
      qed
    qed
  qed
qed

lemma handle_message_steps: "(daemon_step env)\<^sup>*\<^sup>* (ig_world st) (ig_world (fst (handle_message env fv ts m st)))"
proof -
  have ins: "(daemon_step env)\<^sup>*\<^sup>* (ig_world st) ((ig_world st)\<lparr>w_db := db\<rparr>)"
    if "insert_login_event ev (ig_db st) = Inr db" for ev db
    using that by (intro daemon_db) (auto simp: ig_db_def insert_login_event_Inr intro: db_step.login)
  have ev: "(daemon_step env)\<^sup>*\<^sup>* (ig_world st1) (ig_world (fst (on_event env ev st1)))" for ev st1
    using daemon_step.ssh [of env "ig_world st1" ev]
    by (cases "on_ssh_event env ev (ig_world st1)") (auto simp: on_event_def split: sum.split)
  have all: "(daemon_step env)\<^sup>*\<^sup>* (ig_world st) (ig_world (fst (on_event env ev (with_db db (st\<lparr>ig_keys := ks\<rparr>)))))"
    if "insert_login_event ev (ig_db st) = Inr db" for ev db ks
    using ins [OF that] ev [of "with_db db (st\<lparr>ig_keys := ks\<rparr>)" ev] by (simp add: with_db_def)
  show ?thesis
    by (auto simp: handle_message_def Let_def split: sum.split option.split prod.split intro: all)
qed

lemma deliver_world [server_simps]: "sv_world (deliver ft st sv) = ig_world st" "sv_ran (deliver ft st sv) = sv_ran sv"
proof -
  have "sv_world (foldl (\<lambda>s ev. broadcast ft n (event_dict ev) s) sv evs) = sv_world sv
    \<and> sv_ran (foldl (\<lambda>s ev. broadcast ft n (event_dict ev) s) sv evs) = sv_ran sv" for n sv evs
    by (induction evs arbitrary: sv) (simp_all add: server_simps)
  then show "sv_world (deliver ft st sv) = ig_world st" "sv_ran (deliver ft st sv) = sv_ran sv"
    by (simp_all add: deliver_def)
qed

lemma omnia_daemon: "omnia_step env f st st' \<Longrightarrow> (daemon_step env)\<^sup>*\<^sup>* (sv_world (snd st)) (sv_world (snd st'))"
proof (induction rule: omnia_step.induct)
  case (metrics ft interval pp gpu now st st' e)
  then show ?case using metrics_turn_steps by (metis surjective_pairing)
next
  case (message ft fv ts m sv sv' r mt)
  then have "sv_world sv' = ig_world (fst (handle_message env fv ts m (ingest_of sv)))"
    by (auto simp: message_turn_def server_simps split: prod.splits)
  with handle_message_steps [of env "ingest_of sv" fv ts m] show ?case by (simp add: ingest_of_def)
next
  case (position mt sv k v)
  show ?case by (auto simp: server_simps sv_db_def table_simps intro!: daemon_db db_step.set_state)
next
  case (input senv cid inp sv sv' e mt)
  then show ?case using handle_input_ok by (auto simp: step_ok_def)
next
  case (speedtest mt sv ft lib ts)
  show ?case
    by (auto simp: run_speedtest_and_broadcast_def run_speedtest_def Let_def server_simps sv_db_def
        insert_speedtest_result_def intro!: daemon_db db_step.speedtest [unfolded insert_speedtest_result_def])
next
  case (retention mt sv now ld sd)
  show ?case
    by (auto simp: retention_turn_def server_simps sv_db_def intro!: daemon_db db_step.cleanup)
      (simp add: cleanup_retention_def)
qed (simp_all add: server_simps extra_status_turn_def)

lemma omnia_histories:
  "(omnia_step env f)\<^sup>*\<^sup>* st st' \<Longrightarrow> (daemon_step env)\<^sup>*\<^sup>* (sv_world (snd st)) (sv_world (snd st'))"
  by (induction rule: rtranclp_induct) (auto dest: omnia_daemon)

subsection \<open>The tables' view\<close>

lemma db_insert_alert_steps: "w_db (fst (maybe_fire env k sub body w)) = w_db w \<or>
    (\<exists>t. w_db (fst (maybe_fire env k sub body w)) = insert_alert t k body (w_db w))"
  by (auto simp: maybe_fire_db)

lemma maybe_fire_steps: "db_step\<^sup>*\<^sup>* (w_db w) (w_db (fst (maybe_fire env k sub body w)))"
  using db_insert_alert_steps [of env k sub body w] db_step.alert by (metis r_into_rtranclp rtranclp.rtrancl_refl)

lemma chain_steps:
  assumes "db_step\<^sup>*\<^sup>* a (w_db (fst m))" "\<And>w'. db_step\<^sup>*\<^sup>* (w_db w') (w_db (fst (g w')))"
  shows "db_step\<^sup>*\<^sup>* a (w_db (fst (case m of (w', Inl e) \<Rightarrow> (w', Inl e) | (w', Inr u) \<Rightarrow> g w')))"
proof -
  obtain w r where m: "m = (w, r)" by (cases m)
  have "db_step\<^sup>*\<^sup>* a (w_db w)" "db_step\<^sup>*\<^sup>* (w_db w) (w_db (fst (g w)))" using assms by (simp_all add: m)
  then have "db_step\<^sup>*\<^sup>* a (w_db (fst (g w)))" by (rule rtranclp_trans)
  then show ?thesis using assms(1) by (cases r) (simp_all add: m)
qed

lemma check_disks_steps: "db_step\<^sup>*\<^sup>* (w_db w) (w_db (fst (check_disks env ds w)))"
proof (induction ds arbitrary: w)
  case (Cons d ds)
  then show ?case by (simp add: chain_steps [OF maybe_fire_steps])
qed simp

lemma daemon_db_steps: "daemon_step env w w' \<Longrightarrow> db_step\<^sup>*\<^sup>* (w_db w) (w_db w')"
proof (induction rule: daemon_step.induct)
  case (ssh w ev)
  show ?case using on_ssh_event_cases [of env ev w] maybe_fire_steps by (metis fst_conv rtranclp.rtrancl_refl)
next
  case (metrics w disks)
  show ?case using check_disks_steps by (simp add: on_metrics_snapshot_def)
qed auto

lemma omnia_db_steps: "(omnia_step env f)\<^sup>*\<^sup>* st st' \<Longrightarrow> db_step\<^sup>*\<^sup>* (sv_db (snd st)) (sv_db (snd st'))"
proof -
  assume "(omnia_step env f)\<^sup>*\<^sup>* st st'"
  then have "(daemon_step env)\<^sup>*\<^sup>* (sv_world (snd st)) (sv_world (snd st'))" by (rule omnia_histories)
  then show ?thesis unfolding sv_db_def
    by (induction rule: rtranclp_induct) (auto dest: daemon_db_steps intro: rtranclp_trans)
qed

subsection \<open>The handlers' view\<close>

lemma metrics_turn_ran: "metrics_turn env ft interval pp gpu now (mt, sv) = ((mt', sv'), e) \<Longrightarrow> sv_ran sv' = sv_ran sv"
  by (auto simp: metrics_turn_def Let_def server_simps set_latest_snapshot_def split: prod.splits sum.splits)

lemma omnia_ran: "omnia_step env f st st' \<Longrightarrow>
    \<exists>cs. sv_ran (snd st') = sv_ran (snd st) @ cs \<and> (\<forall>c\<in>set cs. allowed f c)"
proof (induction rule: omnia_step.induct)
  case (metrics ft interval pp gpu now st st' e)
  then have "sv_ran (snd st') = sv_ran (snd st)" using metrics_turn_ran by (metis surjective_pairing)
  then show ?case by simp
next
  case (message ft fv ts m sv sv' r mt)
  then have "sv_ran sv' = sv_ran sv" by (auto simp: message_turn_def server_simps split: prod.splits)
  then show ?case by simp
next
  case (input senv cid inp sv sv' e mt)
  then show ?case using handle_input_ok by (auto simp: step_ok_def)
qed (simp_all add: server_simps accept_client_def extra_status_turn_def set_extra_status_cache_def retention_turn_def)

lemma omnia_steps_ran: "(omnia_step env f)\<^sup>*\<^sup>* st st' \<Longrightarrow>
    \<exists>cs. sv_ran (snd st') = sv_ran (snd st) @ cs \<and> (\<forall>c\<in>set cs. allowed f c)"
proof (induction rule: rtranclp_induct)
  case (step y z)
  then obtain a b where "sv_ran (snd y) = sv_ran (snd st) @ a" "\<forall>c\<in>set a. allowed f c"
    "sv_ran (snd z) = sv_ran (snd y) @ b" "\<forall>c\<in>set b. allowed f c" using omnia_ran by meson
  then show ?case by (intro exI [of _ "a @ b"]) auto
qed simp

subsection \<open>Events reach the subscribers\<close>

lemma foldl_broadcast_at:
  "client_at i (foldl (\<lambda>s ev. broadcast ft ''login_event'' (event_dict ev) s) sv evs) =
     map_option (\<lambda>c. foldl (\<lambda>c ev. if JStr ''login_event'' \<in> set (cl_subs c)
        then send_to ft (event_msg ''login_event'' (event_dict ev)) c else c) c evs) (client_at i sv)"
  by (induction evs arbitrary: sv) (simp_all add: broadcast_at option.map_comp comp_def option.map_ident)

lemma message_reaches_subscribers:
  assumes "parse_sshd_message m = Inr (Some p)" "readable fv" "\<forall>n. pl_source_port p = Some n \<longrightarrow> sql_int n"
    "mail_ok env" "client_at i sv = Some c" "JStr ''login_event'' \<in> set (cl_subs c)" "\<not> cl_gone c"
  shows "\<exists>lbl sv' c'. message_turn env ft fv ts m sv = (sv', Inr ()) \<and> client_at i sv' = Some c'
    \<and> cl_out c' = cl_out c @ [frame ft (event_msg ''login_event'' (event_dict (event_row ts p lbl)))]"
proof -
  obtain lbl st where h: "handle_message env fv ts m (ingest_of sv) = (st, Inr ())"
    "ig_sent st = [event_row ts p lbl]"
    using handle_message_stores [OF assms(1-4), of ts "ingest_of sv"] by (auto simp: ingest_of_def)
  have "client_at i (deliver ft st sv) = Some (send_to ft (event_msg ''login_event'' (event_dict (event_row ts p lbl))) c)"
    using assms(5,6) h(2) by (simp add: deliver_def broadcast_at server_simps)
  with h assms(7) show ?thesis by (auto simp: message_turn_def send_to_out)
qed

end
