(* ===== verification/Daemon_Tasks.thy ===== *)
theory Daemon_Tasks
  imports Daemon Gpu_Intel
begin

section \<open>main.py: the daemon's tasks\<close>

text \<open>
  \<open>daemon/src/omnia_daemon/main.py\<close>. \<open>_main_async\<close> starts one task per loop and waits for a signal; a task
  whose loop raises ends, and nobody looks at it before the shutdown. \<open>dm_alive\<close> are the tasks still
  running, \<open>dm_tested\<close> counts the speed tests clients started that are over. A \<open>daemon_event\<close> is one turn of a task, a client's input or the signal; a turn of a task
  that has ended does nothing. After the signal the server takes no new client, and once \<open>wait_closed\<close>
  returns the tasks are cancelled and the database is closed, so nothing changes any more. Since
  Python 3.12 \<open>wait_closed\<close> is documented to wait until the connections have ended, before it
  returned at once; both are supported by the program, so \<open>rc_waits\<close> says which one runs it. The
  retry of the log source is \<open>run_ssh_ingest\<close>'s, which never ends.
\<close>

datatype task = Metrics_Loop | Ssh_Ingest_Loop | Speedtest_Schedule | Extra_Status_Refresh | Retention_Cleanup | Gpu_Monitor_Loop

record run_config =
  rc_flush_interval :: rat
  rc_login_days :: int
  rc_snapshot_days :: int
  rc_features :: features_config
  rc_speedtest :: bool
  rc_gpu :: bool
  rc_retry_minutes :: rat
  rc_waits :: bool

record 'h daemon =
  dm_alive :: "task list"
  dm_metrics :: "'h metrics_task"
  dm_server :: server
  dm_gpu :: gpu_monitor
  dm_tested :: nat
  dm_closing :: bool
  dm_stopped :: bool

datatype 'h daemon_event =
    Metrics_Turn "'h psutil_poll" rat
  | Message_Turn file_view timestamp string
  | Position_Turn string string
  | Speedtest_Turn "speedtest_dict result" timestamp
  | Requested_Test "speedtest_dict result" timestamp
  | Status_Turn "string \<Rightarrow> bool" exec
  | Retention_Turn timestamp
  | Gpu_Turn "string list result"
  | Client_Turn server_env nat client_input
  | Accept_Turn nat
  | Signal

definition start_daemon :: "run_config \<Rightarrow> database \<Rightarrow> 'h psutil_poll \<Rightarrow> rat \<Rightarrow> bool \<Rightarrow> 'h daemon" where
  \<comment> \<open>\<open>installed\<close>: whether the GPU monitor finds its program, without which its loop returns at once; so does
    the speed-test schedule when it is disabled\<close>
  "start_daemon cfg db pp now installed =
     (case gpu_start installed (start_gpu (rc_gpu cfg) (rc_retry_minutes cfg)) of (gm, goes_on) \<Rightarrow>
       \<lparr>dm_alive = [Metrics_Loop, Ssh_Ingest_Loop] @ (if rc_speedtest cfg then [Speedtest_Schedule] else [])
          @ [Extra_Status_Refresh, Retention_Cleanup] @ (if rc_gpu cfg \<and> goes_on then [Gpu_Monitor_Loop] else []),
        dm_metrics = fst (omnia_start db pp now), dm_server = snd (omnia_start db pp now),
        dm_gpu = (if rc_gpu cfg then gm else start_gpu False (rc_retry_minutes cfg)), dm_tested = 0, dm_closing = False, dm_stopped = False\<rparr>)"

definition task_ends :: "task \<Rightarrow> 'h daemon \<Rightarrow> 'h daemon" where
  "task_ends t dm = dm\<lparr>dm_alive := filter (\<lambda>x. x \<noteq> t) (dm_alive dm)\<rparr>"

definition on_server :: "(server \<Rightarrow> server) \<Rightarrow> 'h daemon \<Rightarrow> 'h daemon" where
  "on_server f dm = dm\<lparr>dm_server := f (dm_server dm)\<rparr>"

definition metrics_event :: "alert_env \<Rightarrow> (rat \<Rightarrow> string) \<Rightarrow> run_config \<Rightarrow> 'h psutil_poll \<Rightarrow> rat \<Rightarrow> 'h daemon \<Rightarrow> 'h daemon" where
  "metrics_event env ft cfg pp now dm =
     (case metrics_turn env ft (rc_flush_interval cfg) pp (gm_latest (dm_gpu dm)) now (dm_metrics dm, dm_server dm) of
        ((mt, sv), e) \<Rightarrow> (let dm' = dm\<lparr>dm_metrics := mt, dm_server := sv\<rparr> in
          case e of None \<Rightarrow> dm' | Some x \<Rightarrow> task_ends Metrics_Loop dm'))"

definition gpu_event :: "string list result \<Rightarrow> 'h daemon \<Rightarrow> 'h daemon" where
  "gpu_event proc dm = (case gpu_round proc (dm_gpu dm) of
      Inl e \<Rightarrow> task_ends Gpu_Monitor_Loop dm
    | Inr (gm, wait) \<Rightarrow> dm\<lparr>dm_gpu := gm\<rparr>)"

definition task_of :: "'h daemon_event \<Rightarrow> task option" where
  "task_of ev = (case ev of Metrics_Turn _ _ \<Rightarrow> Some Metrics_Loop | Message_Turn _ _ _ \<Rightarrow> Some Ssh_Ingest_Loop
     | Position_Turn _ _ \<Rightarrow> Some Ssh_Ingest_Loop | Speedtest_Turn _ _ \<Rightarrow> Some Speedtest_Schedule
     | Status_Turn _ _ \<Rightarrow> Some Extra_Status_Refresh | Retention_Turn _ \<Rightarrow> Some Retention_Cleanup
     | Gpu_Turn _ \<Rightarrow> Some Gpu_Monitor_Loop | _ \<Rightarrow> None)"

fun event_turn :: "alert_env \<Rightarrow> (rat \<Rightarrow> string) \<Rightarrow> run_config \<Rightarrow> 'h daemon_event \<Rightarrow> 'h daemon \<Rightarrow> 'h daemon" where
  "event_turn env ft cfg (Metrics_Turn pp now) dm = metrics_event env ft cfg pp now dm"
| "event_turn env ft cfg (Message_Turn fv ts m) dm = on_server (\<lambda>sv. fst (message_turn env ft fv ts m sv)) dm"
| "event_turn env ft cfg (Position_Turn k v) dm = on_server (\<lambda>sv. with_sv_db (set_state k v (sv_db sv)) sv) dm"
| "event_turn env ft cfg (Speedtest_Turn lib ts) dm = on_server (speedtest_turn ft lib ts) dm"
| "event_turn env ft cfg (Requested_Test lib ts) dm = on_server (run_speedtest_and_broadcast ft lib ts) (dm\<lparr>dm_tested := Suc (dm_tested dm)\<rparr>)"
| "event_turn env ft cfg (Status_Turn which exec) dm = on_server (extra_status_turn (rc_features cfg) which exec) dm"
| "event_turn env ft cfg (Retention_Turn now) dm = on_server (retention_turn now (rc_login_days cfg) (rc_snapshot_days cfg)) dm"
| "event_turn env ft cfg (Gpu_Turn proc) dm = gpu_event proc dm"
| "event_turn env ft cfg (Client_Turn senv cid inp) dm =
     on_server (\<lambda>sv. fst (handle_input (senv\<lparr>se_features := rc_features cfg\<rparr>) cid inp sv)) dm"
| "event_turn env ft cfg (Accept_Turn cid) dm = on_server (accept_client cid) dm"
| "event_turn env ft cfg Signal dm = dm\<lparr>dm_closing := True\<rparr>"

definition shut_down :: "run_config \<Rightarrow> 'h daemon \<Rightarrow> 'h daemon" where
  "shut_down cfg dm = (if dm_closing dm \<and> (rc_waits cfg \<longrightarrow> sv_clients (dm_server dm) = [])
     then dm\<lparr>dm_stopped := True, dm_alive := []\<rparr> else dm)"

definition refused :: "'h daemon_event \<Rightarrow> 'h daemon \<Rightarrow> bool" where
  \<comment> \<open>nothing runs any more, the task has ended, or the server is closed to new clients; a requested test ends once for each request\<close>
  "refused ev dm = (dm_stopped dm \<or> (case task_of ev of Some t \<Rightarrow> t \<notin> set (dm_alive dm) | None \<Rightarrow> False)
     \<or> (case ev of Accept_Turn cid \<Rightarrow> dm_closing dm
       | Requested_Test lib ts \<Rightarrow> sv_tasks (dm_server dm) \<le> dm_tested dm | _ \<Rightarrow> False))"

definition daemon_turn :: "alert_env \<Rightarrow> (rat \<Rightarrow> string) \<Rightarrow> run_config \<Rightarrow> 'h daemon_event \<Rightarrow> 'h daemon \<Rightarrow> 'h daemon" where
  "daemon_turn env ft cfg ev dm = (if refused ev dm then dm else shut_down cfg (event_turn env ft cfg ev dm))"

fun daemon_run :: "alert_env \<Rightarrow> (rat \<Rightarrow> string) \<Rightarrow> run_config \<Rightarrow> 'h daemon_event list \<Rightarrow> 'h daemon \<Rightarrow> 'h daemon" where
  "daemon_run env ft cfg [] dm = dm"
| "daemon_run env ft cfg (ev # evs) dm = daemon_run env ft cfg evs (daemon_turn env ft cfg ev dm)"

subsection \<open>A run is a history\<close>

lemma on_server_fields [simp]:
  "dm_server (on_server f dm) = f (dm_server dm)" "dm_metrics (on_server f dm) = dm_metrics dm"
  "dm_alive (on_server f dm) = dm_alive dm" "dm_gpu (on_server f dm) = dm_gpu dm"
  "dm_closing (on_server f dm) = dm_closing dm" "dm_stopped (on_server f dm) = dm_stopped dm"
  by (simp_all add: on_server_def)

lemma task_ends_fields [simp]:
  "dm_server (task_ends t dm) = dm_server dm" "dm_metrics (task_ends t dm) = dm_metrics dm"
  "set (dm_alive (task_ends t dm)) = set (dm_alive dm) - {t}" "dm_gpu (task_ends t dm) = dm_gpu dm"
  "dm_stopped (task_ends t dm) = dm_stopped dm"
  by (auto simp: task_ends_def)

lemma shut_down_fields [simp]:
  "dm_server (shut_down cfg dm) = dm_server dm" "dm_metrics (shut_down cfg dm) = dm_metrics dm" "dm_gpu (shut_down cfg dm) = dm_gpu dm"
  "set (dm_alive (shut_down cfg dm)) \<subseteq> set (dm_alive dm)" "dm_closing (shut_down cfg dm) = dm_closing dm"
  by (simp_all add: shut_down_def)

lemma metrics_event_fields:
  "metrics_turn env ft (rc_flush_interval cfg) pp (gm_latest (dm_gpu dm)) now (dm_metrics dm, dm_server dm) = ((mt, sv), e) \<Longrightarrow>
     dm_metrics (metrics_event env ft cfg pp now dm) = mt \<and> dm_server (metrics_event env ft cfg pp now dm) = sv
     \<and> dm_gpu (metrics_event env ft cfg pp now dm) = dm_gpu dm
     \<and> set (dm_alive (metrics_event env ft cfg pp now dm)) = set (dm_alive dm) - (if e = None then {} else {Metrics_Loop})"
  by (auto simp: metrics_event_def Let_def task_ends_def split: option.splits)

lemma gpu_event_fields [simp]:
  "dm_server (gpu_event proc dm) = dm_server dm" "dm_metrics (gpu_event proc dm) = dm_metrics dm"
  "set (dm_alive (gpu_event proc dm)) \<subseteq> set (dm_alive dm)"
  by (auto simp: gpu_event_def split: sum.split)

lemma event_step:
  "(omnia_step env (rc_features cfg))\<^sup>*\<^sup>* (dm_metrics dm, dm_server dm)
     (dm_metrics (event_turn env ft cfg ev dm), dm_server (event_turn env ft cfg ev dm))"
proof (cases ev)
  case (Metrics_Turn pp now)
  obtain mt sv e where m: "metrics_turn env ft (rc_flush_interval cfg) pp (gm_latest (dm_gpu dm)) now (dm_metrics dm, dm_server dm)
      = ((mt, sv), e)" by (metis surj_pair)
  from omnia_step.metrics [OF m] metrics_event_fields [OF m] Metrics_Turn show ?thesis by auto
next
  case (Message_Turn fv ts m)
  show ?thesis unfolding Message_Turn using omnia_step.message [OF prod.collapse [symmetric]] by fastforce
next
  case (Client_Turn senv cid inp)
  show ?thesis unfolding Client_Turn
    using omnia_step.input [of "senv\<lparr>se_features := rc_features cfg\<rparr>", OF _ prod.collapse [symmetric]] by fastforce
qed (auto intro: omnia_step.intros simp: speedtest_turn_def)

lemma daemon_run_history:
  "(omnia_step env (rc_features cfg))\<^sup>*\<^sup>* (dm_metrics dm, dm_server dm)
     (dm_metrics (daemon_run env ft cfg evs dm), dm_server (daemon_run env ft cfg evs dm))"
proof (induction evs arbitrary: dm)
  case (Cons ev evs)
  have "(omnia_step env (rc_features cfg))\<^sup>*\<^sup>* (dm_metrics dm, dm_server dm)
      (dm_metrics (daemon_turn env ft cfg ev dm), dm_server (daemon_turn env ft cfg ev dm))"
    using event_step [of env cfg dm ft ev] by (simp add: daemon_turn_def)
  with Cons.IH show ?case by (simp add: rtranclp_trans [where r = "omnia_step env (rc_features cfg)"])
qed simp

lemma daemon_run_append: "daemon_run env ft cfg (es @ es') dm = daemon_run env ft cfg es' (daemon_run env ft cfg es dm)"
  by (induction es arbitrary: dm) simp_all

end
