(* ===== verification/Tui_Data.thy ===== *)
theory Tui_Data
  imports Py_Text
begin

section \<open>data.py: the client's data and its simulated backend\<close>

text \<open>
  \<open>tui/omnia_tui/data.py\<close>: the formatting helpers, the dataclasses and \<open>OmniaMockBackend\<close>. A
  dataclass is a record over the type \<open>'s\<close> of its texts and \<open>'n\<close> of its numbers: the simulated
  backend fills them with \<^typ>\<open>string\<close> and \<^typ>\<open>rat\<close>, the real one with whatever JSON value the
  daemon sent. Every random draw is a parameter: \<open>dice\<close> holds the draws of one \<open>tick\<close>, and
  \<open>start_draws\<close> those of \<open>__init__\<close>, with \<open>start_ok\<close> the ranges the code asks for.
\<close>

subsection \<open>Formatting\<close>

definition fmt_bytes :: "rat \<Rightarrow> string" where
  "fmt_bytes mb = (if mb \<ge> 1024 then fmt_fixed 1 (mb / 1024) @ '' GB'' else fmt_fixed 0 mb @ '' MB'')"

definition uptime_parts :: "rat \<Rightarrow> int \<times> int \<times> int" where
  \<comment> \<open>the two \<open>divmod\<close>s: days, hours, minutes\<close>
  "uptime_parts seconds = (let s = truncate seconds; r = s mod 86400 in (s div 86400, r div 3600, r mod 3600 div 60))"

definition fmt_uptime :: "rat \<Rightarrow> string" where
  "fmt_uptime seconds = (case uptime_parts seconds of (days, hours, minutes) \<Rightarrow>
     if days \<noteq> 0 then str_int days @ ''d '' @ str_int hours @ ''h '' @ str_int minutes @ ''min''
     else if hours \<noteq> 0 then str_int hours @ ''h '' @ str_int minutes @ ''min''
     else str_int minutes @ ''min'')"

definition atras :: string where
  "atras = '' atr'' @ [CHR 0xE1] @ ''s''"

definition fmt_ago :: "timestamp \<Rightarrow> timestamp \<Rightarrow> string" where
  "fmt_ago now ts = (let delta = max 0 (truncate (now - ts)) in
     if delta < 60 then str_int delta @ ''s'' @ atras
     else if delta < 3600 then str_int (delta div 60) @ ''min'' @ atras
     else if delta < 86400 then str_int (delta div 3600) @ ''h'' @ atras
     else str_int (delta div 86400) @ ''d'' @ atras)"

definition fake_ip :: "bool \<Rightarrow> int list \<Rightarrow> string" where
  \<comment> \<open>the list holds the draws of \<open>randint\<close>\<close>
  "fake_ip private rs = (if private then ''192.168.'' @ join ''.'' (map str_int rs) else join ''.'' (map str_int rs))"

subsection \<open>The dataclasses\<close>

datatype conn_state = Connected | Reconnecting | Offline

datatype login_result = Success | Failure | Invalid_User | Disconnected

record ('s, 'n) active_session =
  as_user :: 's
  as_ip :: 's
  as_tty :: 's
  as_key_label :: 's
  as_key_type :: 's
  as_connected_since :: 'n

record ('s, 'n) tui_login =
  tl_ts :: 'n
  tl_user :: 's
  tl_ip :: 's
  tl_result :: login_result
  tl_key_label :: 's
  tl_detail :: 's

record ('s, 'n) tui_key =
  tk_label :: 's
  tk_key_type :: 's
  tk_fingerprint :: 's
  tk_last_used :: "'n option"

record 's blocked_ip =
  bi_ip :: 's
  bi_rule :: string
  bi_banned_at :: timestamp

record 's tui_disk =
  td_mount :: 's
  td_device :: 's
  td_fstype :: 's
  td_used_gb :: rat
  td_total_gb :: rat

record 's disk_health =
  dh_device :: string
  dh_status :: 's

record ('s, 'n) tui_process =
  tp_pid :: 'n
  tp_name :: 's
  tp_cpu_pct :: 'n
  tp_mem_pct :: 'n

record ('s, 'n) speed_result =
  sp_ts :: 'n
  sp_download_mbps :: 'n
  sp_upload_mbps :: 'n
  sp_ping_ms :: 'n
  sp_server_name :: 's

record 's tui_service =
  sc_name :: 's
  sc_status :: string

record 's container_info =
  ci_name :: 's
  ci_image :: 's
  ci_status :: 's
  ci_state :: 's

record ('s, 'n) tui_alert =
  ta_ts :: 'n
  ta_kind :: 's
  ta_description :: 's

definition disk_pct :: "'s tui_disk \<Rightarrow> rat" where
  "disk_pct d = (if td_total_gb d \<noteq> 0 then td_used_gb d / td_total_gb d * 100 else 0)"

definition push_history :: "rat list \<Rightarrow> rat \<Rightarrow> rat list" where
  \<comment> \<open>\<open>append\<close> on a \<open>deque(maxlen=40)\<close>\<close>
  "push_history xs x = take_last 40 (xs @ [x])"

definition sort_desc :: "('a \<Rightarrow> 'k::linorder) \<Rightarrow> 'a list \<Rightarrow> 'a list" where
  \<comment> \<open>\<open>sorted(key=..., reverse=True)\<close>: stable\<close>
  "sort_desc key xs = rev (sort_key key (rev xs))"

subsection \<open>The simulated backend\<close>

record mock =
  mk_start_ts :: timestamp
  mk_ready :: bool
  mk_connection :: conn_state
  mk_flip :: int
  mk_sessions :: "(string, rat) active_session list"
  mk_login_history :: "(string, rat) tui_login list"
  mk_ssh_keys :: "(string, rat) tui_key list"
  mk_fail2ban_available :: bool
  mk_blocked_ips :: "string blocked_ip list"
  mk_cpu_per_core :: "rat list"
  mk_mem_total_mb :: rat
  mk_mem_used_mb :: rat
  mk_swap_pct :: rat
  mk_temps :: "(string \<times> rat) list"
  mk_disks :: "string tui_disk list"
  mk_net_upload_kbps :: rat
  mk_net_download_kbps :: rat
  mk_net_history_up :: "rat list"
  mk_net_history_down :: "rat list"
  mk_processes :: "(string, rat) tui_process list"
  mk_speedtest_running :: bool
  mk_speedtest_ticks :: int
  mk_speedtest_error :: "string option"
  mk_speedtest_history :: "(string, rat) speed_result list"
  mk_services :: "string tui_service list"
  mk_updates_count :: int
  mk_restarting :: "string option"
  mk_restart_ticks :: int
  mk_alerts :: "(string, rat) tui_alert list"

record login_draw =
  ld_roll :: rat
  ld_user :: string
  ld_ip :: string
  ld_key :: string
  ld_detail :: string
  ld_ts :: timestamp

definition make_login_event ::
  "rat \<Rightarrow> string \<Rightarrow> string \<Rightarrow> string \<Rightarrow> string \<Rightarrow> timestamp \<Rightarrow> (string, rat) tui_login" where
  \<comment> \<open>the roll, the drawn user, address, key label and detail\<close>
  "make_login_event roll user ip key detail ts =
     (if roll < 55 / 100 then \<lparr>tl_ts = ts, tl_user = user, tl_ip = ip, tl_result = Success, tl_key_label = key, tl_detail = []\<rparr>
      else if roll < 85 / 100 then
        \<lparr>tl_ts = ts, tl_user = user, tl_ip = ip, tl_result = Failure, tl_key_label = [], tl_detail = detail\<rparr>
      else if roll < 95 / 100 then
        \<lparr>tl_ts = ts, tl_user = ''???'', tl_ip = ip, tl_result = Invalid_User, tl_key_label = [],
         tl_detail = ''usu'' @ [CHR 0xE1] @ ''rio inexistente''\<rparr>
      else \<lparr>tl_ts = ts, tl_user = user, tl_ip = ip, tl_result = Disconnected, tl_key_label = [],
         tl_detail = ''conex'' @ [CHR 0xE3] @ ''o encerrada''\<rparr>)"

definition drawn_login :: "login_draw \<Rightarrow> (string, rat) tui_login" where
  "drawn_login l = make_login_event (ld_roll l) (ld_user l) (ld_ip l) (ld_key l) (ld_detail l) (ld_ts l)"

record dice =
  dc_now :: timestamp
  dc_flip :: int
  dc_pick :: conn_state
  dc_login_roll :: rat
  dc_login :: login_draw
  dc_cpu :: "nat \<Rightarrow> rat"
  dc_mem :: rat
  dc_swap :: rat
  dc_temp :: "string \<Rightarrow> rat"
  dc_up :: rat
  dc_down :: rat
  dc_proc_cpu :: "nat \<Rightarrow> rat"
  dc_proc_mem :: "nat \<Rightarrow> rat"
  dc_disk_roll :: rat
  dc_disk_growth :: rat
  dc_disk_alert_roll :: rat
  dc_fail_roll :: rat
  dc_result :: "(string, rat) speed_result"
  dc_updates_roll :: rat
  dc_updates_change :: int

definition clamp :: "rat \<Rightarrow> rat \<Rightarrow> rat \<Rightarrow> rat" where
  \<comment> \<open>\<open>max(lo, min(hi, x))\<close>\<close>
  "clamp lo hi x = max lo (min hi x)"

definition add_mock_alert :: "timestamp \<Rightarrow> string \<Rightarrow> string \<Rightarrow> mock \<Rightarrow> mock" where
  "add_mock_alert ts kind desc m = m\<lparr>mk_alerts := mk_alerts m @ [\<lparr>ta_ts = ts, ta_kind = kind, ta_description = desc\<rparr>]\<rparr>"

definition SPAWNED :: "(string \<times> string) list" where
  "SPAWNED = [(''login_bruteforce'', ''M'' @ [CHR 0xFA] @ ''ltiplas tentativas de login falhas do mesmo IP''),
     (''new_key'', ''Uso de uma chave SSH nunca vista antes''), (''disk_almost_full'', ''Disco /data acima de 85% de uso''),
     (''service_failed'', ''Servi'' @ [CHR 0xE7] @ ''o fail2ban reiniciado ap'' @ [CHR 0xF3] @ ''s falha'')]"

definition spawn_alert :: "nat \<Rightarrow> timestamp \<Rightarrow> mock \<Rightarrow> mock" where
  \<comment> \<open>the drawn index and \<open>time.time() + ts_offset\<close>\<close>
  "spawn_alert k ts m = (case SPAWNED ! (k mod length SPAWNED) of (kind, desc) \<Rightarrow> add_mock_alert ts kind desc m)"

definition tick_connection :: "dice \<Rightarrow> mock \<Rightarrow> mock" where
  "tick_connection d m = (let m1 = m\<lparr>mk_flip := mk_flip m - 1\<rparr> in
     if mk_flip m1 \<le> 0 then m1\<lparr>mk_flip := dc_flip d,
       mk_connection := (case mk_connection m of Offline \<Rightarrow> Reconnecting | _ \<Rightarrow> dc_pick d)\<rparr>
     else m1)"

definition ban_text :: "string \<Rightarrow> string" where
  "ban_text ip = ''IP '' @ ip @ '' banido ap'' @ [CHR 0xF3] @ ''s m'' @ [CHR 0xFA] @ ''ltiplas falhas de login''"

definition tick_login :: "dice \<Rightarrow> mock \<Rightarrow> mock" where
  "tick_login d m = (if dc_login_roll d < 8 / 100 then
     (let e = drawn_login (dc_login d); m1 = m\<lparr>mk_login_history := e # mk_login_history m\<rparr> in
      if tl_result e = Failure then
        (let recent = filter (\<lambda>x. tl_ip x = tl_ip e \<and> tl_result x = Failure) (take 6 (mk_login_history m1)) in
         if 3 \<le> length recent \<and> mk_fail2ban_available m1 \<and> \<not> list_ex (\<lambda>b. bi_ip b = tl_ip e) (mk_blocked_ips m1)
         then add_mock_alert (dc_now d) ''login_bruteforce'' (ban_text (tl_ip e))
           (m1\<lparr>mk_blocked_ips := mk_blocked_ips m1 @ [\<lparr>bi_ip = tl_ip e, bi_rule = ''sshd'', bi_banned_at = dc_now d\<rparr>]\<rparr>)
         else m1)
      else m1)
   else m)"

definition tick_readings :: "dice \<Rightarrow> mock \<Rightarrow> mock" where
  "tick_readings d m = (let up = max 0 (mk_net_upload_kbps m + dc_up d); down = max 0 (mk_net_download_kbps m + dc_down d) in
     m\<lparr>mk_cpu_per_core := map (\<lambda>(i, c). clamp 0 100 (c + dc_cpu d i)) (enumerate 0 (mk_cpu_per_core m)),
       mk_mem_used_mb := clamp 500 (mk_mem_total_mb m * (95 / 100)) (mk_mem_used_mb m + dc_mem d),
       mk_swap_pct := clamp 0 100 (mk_swap_pct m + dc_swap d),
       mk_temps := map (\<lambda>(l, t). (l, clamp 25 85 (t + dc_temp d l))) (mk_temps m),
       mk_net_upload_kbps := up, mk_net_download_kbps := down,
       mk_net_history_up := push_history (mk_net_history_up m) up,
       mk_net_history_down := push_history (mk_net_history_down m) down,
       mk_processes := map (\<lambda>(i, p). p\<lparr>tp_cpu_pct := clamp 0 100 (tp_cpu_pct p + dc_proc_cpu d i),
          tp_mem_pct := clamp 0 100 (tp_mem_pct p + dc_proc_mem d i)\<rparr>) (enumerate 0 (mk_processes m))\<rparr>)"

text \<open>The list of disks is the one \<open>__init__\<close> made, so the second one exists.\<close>

definition tick_disk :: "dice \<Rightarrow> mock \<Rightarrow> mock" where
  "tick_disk d m = (if dc_disk_roll d < 5 / 100 \<and> 1 < length (mk_disks m) then
     (let x = mk_disks m ! 1;
          x' = x\<lparr>td_used_gb := min (td_total_gb x * (98 / 100)) (td_used_gb x + dc_disk_growth d)\<rparr>;
          m1 = m\<lparr>mk_disks := (mk_disks m)[1 := x']\<rparr> in
      if disk_pct x' > 85 \<and> dc_disk_alert_roll d < 3 / 10
      then add_mock_alert (dc_now d) ''disk_almost_full'' ''Disco /data acima de 85% de uso'' m1 else m1)
   else m)"

definition tick_speedtest :: "dice \<Rightarrow> mock \<Rightarrow> mock" where
  "tick_speedtest d m = (if mk_speedtest_running m then
     (let m1 = m\<lparr>mk_speedtest_ticks := mk_speedtest_ticks m - 1\<rparr> in
      if mk_speedtest_ticks m1 \<le> 0 then
        (let m2 = m1\<lparr>mk_speedtest_running := False\<rparr> in
         if dc_fail_roll d < 12 / 100
         then m2\<lparr>mk_speedtest_error := Some ''Falha ao conectar ao servidor de teste. Tente novamente.''\<rparr>
         else m2\<lparr>mk_speedtest_error := None, mk_speedtest_history := mk_speedtest_history m2 @ [dc_result d]\<rparr>)
      else m1)
   else m)"

definition set_service :: "string \<Rightarrow> string \<Rightarrow> string tui_service list \<Rightarrow> string tui_service list" where
  "set_service name st svcs = map (\<lambda>s. if sc_name s = name then s\<lparr>sc_status := st\<rparr> else s) svcs"

definition tick_restart :: "dice \<Rightarrow> mock \<Rightarrow> mock" where
  "tick_restart d m = (case mk_restarting m of None \<Rightarrow> m
     | Some name \<Rightarrow> (let m1 = m\<lparr>mk_restart_ticks := mk_restart_ticks m - 1\<rparr> in
         if mk_restart_ticks m1 \<le> 0
         then m1\<lparr>mk_services := set_service name ''active'' (mk_services m1), mk_restarting := None\<rparr> else m1))"

definition tick_updates :: "dice \<Rightarrow> mock \<Rightarrow> mock" where
  "tick_updates d m = (if dc_updates_roll d < 2 / 100
     then m\<lparr>mk_updates_count := max 0 (mk_updates_count m + dc_updates_change d)\<rparr> else m)"

definition mock_tick :: "dice \<Rightarrow> mock \<Rightarrow> mock" where
  "mock_tick d m = (if \<not> mk_ready m then m\<lparr>mk_ready := True\<rparr>
     else tick_updates d (tick_restart d (tick_speedtest d (tick_disk d (tick_readings d
       (tick_login d (tick_connection d m)))))))"

definition mock_cpu_total_pct :: "mock \<Rightarrow> rat" where
  "mock_cpu_total_pct m = (if mk_cpu_per_core m \<noteq> []
     then sum_list (mk_cpu_per_core m) / of_nat (length (mk_cpu_per_core m)) else 0)"

definition mem_pct_of :: "rat \<Rightarrow> rat \<Rightarrow> rat" where
  "mem_pct_of used whole = (if whole \<noteq> 0 then used / whole * 100 else 0)"

definition mock_mem_pct :: "mock \<Rightarrow> rat" where
  "mock_mem_pct m = mem_pct_of (mk_mem_used_mb m) (mk_mem_total_mb m)"

definition mock_uptime_seconds :: "timestamp \<Rightarrow> mock \<Rightarrow> rat" where
  "mock_uptime_seconds now m = now - mk_start_ts m + 3600 * 240"

definition mock_sorted_processes :: "string \<Rightarrow> mock \<Rightarrow> (string, rat) tui_process list" where
  "mock_sorted_processes by m =
     sort_desc (if by = ''cpu'' then tp_cpu_pct else tp_mem_pct) (mk_processes m)"

definition mock_restart_service :: "int \<Rightarrow> string \<Rightarrow> mock \<Rightarrow> mock" where
  \<comment> \<open>with the drawn number of ticks\<close>
  "mock_restart_service ticks name m = m\<lparr>mk_services := set_service name ''inactive'' (mk_services m),
     mk_restarting := Some name, mk_restart_ticks := ticks\<rparr>"

definition mock_reboot_server :: "timestamp \<Rightarrow> mock \<Rightarrow> mock" where
  "mock_reboot_server now m = add_mock_alert now ''reboot'' ''Servidor reiniciado manualmente via Omnia''
     (m\<lparr>mk_start_ts := now\<rparr>)"

definition mock_start_speed_test :: "int \<Rightarrow> mock \<Rightarrow> mock" where
  "mock_start_speed_test ticks m = (if mk_speedtest_running m then m
     else m\<lparr>mk_speedtest_running := True, mk_speedtest_error := None, mk_speedtest_ticks := ticks\<rparr>)"

subsection \<open>The initial state\<close>

record start_draws =
  sd_now :: timestamp
  sd_flip :: int
  sd_session_ip :: string
  sd_login :: "nat \<Rightarrow> login_draw"
  sd_cpu :: "nat \<Rightarrow> rat"
  sd_mem :: rat
  sd_swap :: rat
  sd_temp_cpu :: rat
  sd_temp_nvme :: rat
  sd_used_root :: rat
  sd_used_data :: rat
  sd_service :: "string \<Rightarrow> string"
  sd_updates :: int
  sd_alert :: "nat \<Rightarrow> nat \<times> timestamp"

definition PROCESS_NAMES :: "string list" where
  "PROCESS_NAMES = [''python3.12'', ''postgres'', ''nginx'', ''sshd'', ''docker'', ''systemd'', ''atlas-worker'',
     ''redis-server'', ''node'', ''cron'']"

definition SERVICE_NAMES :: "string list" where
  "SERVICE_NAMES = [''nginx'', ''postgresql'', ''docker'', ''ssh'', ''fail2ban'', ''cron'', ''atlas-worker'']"

definition mock_keys :: "timestamp \<Rightarrow> (string, rat) tui_key list" where
  "mock_keys now = [\<lparr>tk_label = ''laptop-thinkpad'', tk_key_type = ''ED25519'', tk_fingerprint = ''SHA256:k3n2...ax9'',
       tk_last_used = Some (now - 1800)\<rparr>,
     \<lparr>tk_label = ''desktop-home'', tk_key_type = ''ED25519'', tk_fingerprint = ''SHA256:pz81...q2m'',
       tk_last_used = Some (now - 3600 * 30)\<rparr>,
     \<lparr>tk_label = ''phone-termux'', tk_key_type = ''RSA'', tk_fingerprint = ''SHA256:9fd2...117'',
       tk_last_used = Some (now - 3600 * 24 * 9)\<rparr>,
     \<lparr>tk_label = ''ci-runner'', tk_key_type = ''ED25519'', tk_fingerprint = ''SHA256:aa02...9zz'', tk_last_used = None\<rparr>]"

definition new_mock :: "start_draws \<Rightarrow> mock" where
  "new_mock s = foldl (\<lambda>m i. case sd_alert s i of (k, ts) \<Rightarrow> spawn_alert k ts m) \<lparr>mk_start_ts = sd_now s, mk_ready = False, mk_connection = Connected, mk_flip = sd_flip s,
     mk_sessions = [\<lparr>as_user = ''miguel'', as_ip = sd_session_ip s, as_tty = ''pts/0'', as_key_label = ''laptop-thinkpad'',
        as_key_type = ''ED25519'', as_connected_since = sd_now s - 1800\<rparr>],
     mk_login_history = map (\<lambda>i. drawn_login (sd_login s i)) [0..<80], mk_ssh_keys = mock_keys (sd_now s), mk_fail2ban_available = True, mk_blocked_ips = [],
     mk_cpu_per_core = map (sd_cpu s) [0..<8], mk_mem_total_mb = 16384, mk_mem_used_mb = sd_mem s,
     mk_swap_pct = sd_swap s, mk_temps = [(''CPU'', sd_temp_cpu s), (''NVMe'', sd_temp_nvme s)],
     mk_disks = [\<lparr>td_mount = ''/'', td_device = ''/dev/sda1'', td_fstype = ''ext4'', td_used_gb = sd_used_root s,
          td_total_gb = 118\<rparr>,
        \<lparr>td_mount = ''/data'', td_device = ''/dev/sdb1'', td_fstype = ''ext4'', td_used_gb = sd_used_data s,
          td_total_gb = 2000\<rparr>],
     mk_net_upload_kbps = 0, mk_net_download_kbps = 0, mk_net_history_up = replicate 40 0,
     mk_net_history_down = replicate 40 0,
     mk_processes = map (\<lambda>(i, name). \<lparr>tp_pid = of_nat (2000 + i), tp_name = name, tp_cpu_pct = 0, tp_mem_pct = 0\<rparr>)
        (enumerate 0 PROCESS_NAMES),
     mk_speedtest_running = False, mk_speedtest_ticks = 0, mk_speedtest_error = None, mk_speedtest_history = [],
     mk_services = map (\<lambda>n. \<lparr>sc_name = n, sc_status = sd_service s n\<rparr>) SERVICE_NAMES,
     mk_updates_count = sd_updates s, mk_restarting = None, mk_restart_ticks = 0, mk_alerts = []\<rparr> [0..<6]"

subsection \<open>Ranges\<close>

lemma clamp_range: "lo \<le> hi \<Longrightarrow> lo \<le> clamp lo hi x \<and> clamp lo hi x \<le> hi"
  by (simp add: clamp_def)

lemma push_history_length: "length xs = 40 \<Longrightarrow> length (push_history xs x) = 40"
  by (simp add: push_history_def)

lemma push_history_last: "last (push_history xs x) = x"
  by (simp add: push_history_def take_last_snoc)

lemma mset_sort_desc: "mset (sort_desc k xs) = mset xs"
  by (simp add: sort_desc_def)

lemma sorted_sort_desc: "sorted_wrt (\<lambda>a b. k b \<le> k a) (sort_desc k xs)"
proof -
  have "sorted (map k (sort_key k (rev xs)))" by simp
  then show ?thesis by (simp add: sort_desc_def sorted_wrt_rev sorted_map)
qed

lemma length_sort_desc [simp]: "length (sort_desc k xs) = length xs"
  by (simp add: sort_desc_def)

text \<open>What the panels rely on: percentages are percentages, histories have forty points, an address
  is banned at most once.\<close>

definition mock_ok :: "mock \<Rightarrow> bool" where
  "mock_ok m \<longleftrightarrow> (\<forall>c\<in>set (mk_cpu_per_core m). 0 \<le> c \<and> c \<le> 100)
     \<and> mk_mem_total_mb m = 16384 \<and> 500 \<le> mk_mem_used_mb m \<and> mk_mem_used_mb m \<le> mk_mem_total_mb m
     \<and> 0 \<le> mk_swap_pct m \<and> mk_swap_pct m \<le> 100
     \<and> 0 \<le> mk_net_upload_kbps m \<and> 0 \<le> mk_net_download_kbps m
     \<and> length (mk_net_history_up m) = 40 \<and> length (mk_net_history_down m) = 40
     \<and> (\<forall>p\<in>set (mk_processes m). 0 \<le> tp_cpu_pct p \<and> tp_cpu_pct p \<le> 100 \<and> 0 \<le> tp_mem_pct p \<and> tp_mem_pct p \<le> 100)
     \<and> (\<forall>x\<in>set (mk_disks m). 0 < td_total_gb x \<and> td_used_gb x \<le> td_total_gb x)
     \<and> distinct (map bi_ip (mk_blocked_ips m)) \<and> 0 \<le> mk_updates_count m"

lemma mock_ok_connection: "mock_ok m \<Longrightarrow> mock_ok (tick_connection d m)"
  by (simp add: mock_ok_def tick_connection_def Let_def)

lemma mock_ok_alert: "mock_ok m \<Longrightarrow> mock_ok (add_mock_alert t k x m)"
  by (simp add: mock_ok_def add_mock_alert_def)

definition start_ok :: "start_draws \<Rightarrow> bool" where
  "start_ok s \<longleftrightarrow> list_all (\<lambda>i. 5 \<le> sd_cpu s i \<and> sd_cpu s i \<le> 40) [0..<8] \<and> 4000 \<le> sd_mem s \<and> sd_mem s \<le> 8000
     \<and> 0 \<le> sd_swap s \<and> sd_swap s \<le> 15 \<and> sd_used_root s \<le> 90 \<and> sd_used_data s \<le> 1600 \<and> 0 \<le> sd_updates s"

lemma mock_ok_spawned: "mock_ok m \<Longrightarrow> mock_ok (foldl (\<lambda>m i. case f i of (k, ts) \<Rightarrow> spawn_alert k ts m) m is)"
  by (induction "is" arbitrary: m) (auto simp: spawn_alert_def mock_ok_alert split: prod.split)

lemma mock_ok_new: "start_ok s \<Longrightarrow> mock_ok (new_mock s)"
  unfolding new_mock_def
  by (rule mock_ok_spawned) (auto simp: mock_ok_def start_ok_def list_all_iff set_zip enumerate_eq_zip)

lemma mock_ok_login: "mock_ok m \<Longrightarrow> mock_ok (tick_login d m)"
  by (auto simp: tick_login_def Let_def mock_ok_def add_mock_alert_def list_ex_iff)

lemma clamp_simps [simp]: "0 \<le> clamp 0 100 x" "clamp 0 100 x \<le> 100" "500 \<le> clamp 500 hi x"
  by (simp_all add: clamp_def)

lemma clamp_le: "lo \<le> hi \<Longrightarrow> hi \<le> b \<Longrightarrow> clamp lo hi x \<le> b"
  by (simp add: clamp_def)

lemma mock_ok_readings: "mock_ok m \<Longrightarrow> mock_ok (tick_readings d m)"
  by (auto simp: mock_ok_def tick_readings_def Let_def push_history_length intro!: clamp_le)

lemma mock_ok_disk: "mock_ok m \<Longrightarrow> mock_ok (tick_disk d m)"
proof -
  assume ok: "mock_ok m"
  have "0 < td_total_gb y \<and> td_used_gb y \<le> td_total_gb y"
    if "1 < length (mk_disks m)" "y \<in> set ((mk_disks m)[1 := (mk_disks m ! 1)
        \<lparr>td_used_gb := min (td_total_gb (mk_disks m ! 1) * (98 / 100)) u\<rparr>])" for y u
  proof -
    have "mk_disks m ! 1 \<in> set (mk_disks m)" using that(1) by simp
    then have "0 < td_total_gb (mk_disks m ! 1)" using ok by (simp add: mock_ok_def)
    moreover have "y \<in> set (mk_disks m) \<or> y = (mk_disks m ! 1)
        \<lparr>td_used_gb := min (td_total_gb (mk_disks m ! 1) * (98 / 100)) u\<rparr>"
      using that(2) set_update_subset_insert by fastforce
    ultimately show ?thesis using ok by (auto simp: mock_ok_def min_def)
  qed
  then show ?thesis using ok
    by (auto simp: tick_disk_def Let_def mock_ok_def add_mock_alert_def)
qed

lemma mock_ok_rest: "mock_ok m \<Longrightarrow> mock_ok (tick_speedtest d m)" "mock_ok m \<Longrightarrow> mock_ok (tick_restart d m)"
  "mock_ok m \<Longrightarrow> mock_ok (tick_updates d m)"
  by (auto simp: mock_ok_def tick_speedtest_def tick_restart_def tick_updates_def Let_def split: option.split)

lemma mock_ok_tick: "mock_ok m \<Longrightarrow> mock_ok (mock_tick d m)"
proof (cases "mk_ready m")
  case False
  then show "mock_ok m \<Longrightarrow> ?thesis" by (simp add: mock_tick_def mock_ok_def)
qed (simp add: mock_tick_def mock_ok_rest mock_ok_disk mock_ok_readings mock_ok_login mock_ok_connection)

subsection \<open>A test that was started ends\<close>

definition test_state :: "mock \<Rightarrow> bool \<times> bool \<times> int" where
  "test_state m = (mk_ready m, mk_speedtest_running m, mk_speedtest_ticks m)"

lemma other_ticks_test_state:
  "test_state (tick_connection d m) = test_state m" "test_state (tick_login d m) = test_state m"
  "test_state (tick_readings d m) = test_state m" "test_state (tick_disk d m) = test_state m"
  "test_state (tick_restart d m) = test_state m" "test_state (tick_updates d m) = test_state m"
  by (auto simp: test_state_def tick_connection_def tick_login_def tick_readings_def tick_disk_def tick_restart_def
      tick_updates_def add_mock_alert_def Let_def split: option.split)

lemma test_state_speedtest:
  "test_state (tick_speedtest d m) = (mk_ready m, mk_speedtest_running m \<and> 1 < mk_speedtest_ticks m,
     if mk_speedtest_running m then mk_speedtest_ticks m - 1 else mk_speedtest_ticks m)"
  by (auto simp: test_state_def tick_speedtest_def Let_def)

lemma mock_tick_test_state:
  assumes "mk_ready m"
  shows "test_state (mock_tick d m) = (True, mk_speedtest_running m \<and> 1 < mk_speedtest_ticks m,
     if mk_speedtest_running m then mk_speedtest_ticks m - 1 else mk_speedtest_ticks m)"
proof -
  let ?m = "tick_disk d (tick_readings d (tick_login d (tick_connection d m)))"
  have s: "test_state ?m = test_state m" by (simp add: other_ticks_test_state)
  have "test_state (mock_tick d m) = test_state (tick_speedtest d ?m)"
    using assms by (simp add: mock_tick_def other_ticks_test_state)
  with s assms show ?thesis unfolding test_state_speedtest by (simp add: test_state_def)
qed

lemma mock_test_ends:
  "mk_ready m \<Longrightarrow> mk_speedtest_running m \<Longrightarrow> nat (mk_speedtest_ticks m) \<le> length ds \<Longrightarrow> ds \<noteq> [] \<Longrightarrow>
     \<not> mk_speedtest_running (foldl (\<lambda>m d. mock_tick d m) m ds)"
proof (induction ds arbitrary: m)
  case (Cons d ds)
  from mock_tick_test_state [OF Cons.prems(1), of d]
  have t: "mk_ready (mock_tick d m)" "mk_speedtest_running (mock_tick d m) \<longleftrightarrow> 1 < mk_speedtest_ticks m"
    "mk_speedtest_ticks (mock_tick d m) = mk_speedtest_ticks m - 1"
    using Cons.prems(2) by (simp_all add: test_state_def)
  show ?case
  proof (cases "1 < mk_speedtest_ticks m")
    case True
    then have "nat (mk_speedtest_ticks (mock_tick d m)) \<le> length ds" "ds \<noteq> []" using Cons.prems(3) t(3) by auto
    with Cons.IH [of "mock_tick d m"] t True show ?thesis by simp
  next
    case False
    have stay: "\<not> mk_speedtest_running m' \<Longrightarrow> mk_ready m' \<Longrightarrow> \<not> mk_speedtest_running (foldl (\<lambda>m d. mock_tick d m) m' ds)" for m'
    proof (induction ds arbitrary: m')
      case (Cons e es)
      from mock_tick_test_state [OF Cons.prems(2), of e] Cons.prems(1) Cons.IH [of "mock_tick e m'"]
      show ?case by (simp add: test_state_def)
    qed simp
    with t False show ?thesis by simp
  qed
qed simp

end
