(* ===== verification/Tui_Backend.thy ===== *)
theory Tui_Backend
  imports Tui_Data
begin

section \<open>backend.py: the client of the socket API\<close>

text \<open>
  \<open>tui/omnia_tui/backend.py\<close>. The record \<open>backend\<close> has the attributes of \<open>OmniaBackend\<close>; a value
  taken from a payload stays the JSON value it is. A method that applies a payload is a list of
  assignments, run until one raises: what was assigned before stays (\<open>run_steps\<close>). A coroutine
  waiting in \<open>_send_and_wait\<close> is a \<open>waiter\<close>, the place it continues from; it continues at once when
  its reply is read. \<open>backend_event\<close> is one turn: a connection attempt, what \<open>readline\<close> answers, a
  timeout, a tick or a key press. A text below 256 code points is the model's text; the reply of
  a failed request carries the error as text.
\<close>

subsection \<open>Reading a payload\<close>

definition or_default :: "json \<Rightarrow> json \<Rightarrow> json" where
  \<comment> \<open>\<open>x or d\<close>\<close>
  "or_default j d = (if truthy j then j else d)"

definition get_of :: "json \<Rightarrow> string \<Rightarrow> json result" where
  "get_of j k = (if is_obj j then Inr (field j k) else Inl (AttributeError ''object has no attribute get''))"

definition get_or :: "json \<Rightarrow> string \<Rightarrow> json \<Rightarrow> json result" where
  \<comment> \<open>\<open>d.get(k) or default\<close>\<close>
  "get_or j k d = (case get_of j k of Inl e \<Rightarrow> Inl e | Inr v \<Rightarrow> Inr (or_default v d))"

definition get_default :: "json \<Rightarrow> string \<Rightarrow> json \<Rightarrow> json result" where
  \<comment> \<open>\<open>d.get(k, default)\<close>\<close>
  "get_default j k d = (if is_obj j then Inr (case obj_get j k of Some v \<Rightarrow> v | None \<Rightarrow> d)
     else Inl (AttributeError ''object has no attribute get''))"

fun py_iter :: "json \<Rightarrow> json list result" where
  "py_iter (JArr xs) = Inr xs"
| "py_iter (JStr s) = Inr (map (\<lambda>c. JStr [c]) s)"
| "py_iter (JObj kvs) = Inr (map (JStr \<circ> fst) kvs)"
| "py_iter _ = Inl (TypeError ''object is not iterable'')"

fun py_items :: "json \<Rightarrow> (string \<times> json) list result" where
  "py_items (JObj kvs) = Inr kvs"
| "py_items _ = Inl (AttributeError ''object has no attribute items'')"

definition number :: "json \<Rightarrow> rat result" where
  "number j = (case json_number j of Some x \<Rightarrow> Inr x | None \<Rightarrow> Inl (TypeError ''unsupported operand type(s) for /''))"

definition bind :: "'a result \<Rightarrow> ('a \<Rightarrow> 'b result) \<Rightarrow> 'b result" where
  "bind r f = (case r of Inl e \<Rightarrow> Inl e | Inr x \<Rightarrow> f x)"

fun map_result :: "('a \<Rightarrow> 'b result) \<Rightarrow> 'a list \<Rightarrow> 'b list result" where
  \<comment> \<open>a list comprehension whose expression may raise\<close>
  "map_result f [] = Inr []"
| "map_result f (x # xs) = bind (f x) (\<lambda>y. bind (map_result f xs) (\<lambda>ys. Inr (y # ys)))"

definition each :: "json \<Rightarrow> string \<Rightarrow> (json \<Rightarrow> 'b result) \<Rightarrow> 'b list result" where
  \<comment> \<open>\<open>[f(x) for x in (data.get(k) or [])]\<close>\<close>
  "each data k f = bind (get_or data k (JArr [])) (\<lambda>v. bind (py_iter v) (map_result f))"

subsection \<open>Dicts with any scalar as key\<close>

definition dict_get :: "(json \<times> 'v) list \<Rightarrow> json \<Rightarrow> 'v option" where
  "dict_get d k = map_option snd (find (\<lambda>(k', v). py_eq k' k) d)"

definition dict_put :: "(json \<times> 'v) list \<Rightarrow> json \<Rightarrow> 'v \<Rightarrow> (json \<times> 'v) list" where
  "dict_put d k v = (if dict_get d k = None then d @ [(k, v)]
     else map (\<lambda>(k', w). (k', if py_eq k' k then v else w)) d)"

definition dict_setdefault :: "(json \<times> 'v) list \<Rightarrow> json \<Rightarrow> 'v \<Rightarrow> (json \<times> 'v) list" where
  "dict_setdefault d k v = (if dict_get d k = None then d @ [(k, v)] else d)"

subsection \<open>Single objects\<close>

definition EVENT_TYPE_TO_RESULT :: "(string \<times> login_result) list" where
  "EVENT_TYPE_TO_RESULT = [(''accepted_publickey'', Success), (''accepted_other'', Success),
     (''failed_publickey'', Failure), (''failed_other'', Failure), (''invalid_user'', Invalid_User),
     (''connection_closed'', Disconnected), (''disconnected'', Disconnected)]"

definition result_of_type :: "json \<Rightarrow> login_result" where
  "result_of_type et = (case et of JStr s \<Rightarrow> (case map_of EVENT_TYPE_TO_RESULT s of Some r \<Rightarrow> r | None \<Rightarrow> Disconnected)
     | _ \<Rightarrow> Disconnected)"

definition login_detail :: "login_result \<Rightarrow> json \<Rightarrow> json" where
  "login_detail r detail = (if r = Failure \<and> \<not> truthy detail then JStr ''tentativa de login falhou''
     else if r = Invalid_User \<and> \<not> truthy detail then JStr (''usu'' @ [CHR 0xE1] @ ''rio inexistente'') else detail)"

definition login_event_from_dict :: "json \<Rightarrow> (json, json) tui_login result" where
  "login_event_from_dict row = (if \<not> is_obj row then Inl (AttributeError ''object has no attribute get'')
     else if \<not> hashable (field row ''event_type'') then Inl (TypeError ''unhashable type'')
     else let r = result_of_type (field row ''event_type'') in
       bind (subscript row ''ts'') (\<lambda>ts. Inr \<lparr>tl_ts = ts, tl_user = or_default (field row ''username'') (JStr ''?''),
         tl_ip = or_default (field row ''source_ip'') (JStr ''?''), tl_result = r,
         tl_key_label = or_default (field row ''key_label'') (JStr []),
         tl_detail = login_detail r (or_default (field row ''detail'') (JStr []))\<rparr>))"

definition map_service_state :: "json \<Rightarrow> string" where
  "map_service_state st = (if st = JStr ''active'' then ''active'' else if st = JStr ''failed'' then ''failed'' else ''inactive'')"

definition key_display_label :: "json \<Rightarrow> json result" where
  \<comment> \<open>a fingerprint is text\<close>
  "key_display_label key = bind (get_of key ''comment'') (\<lambda>c. if truthy c then Inr c
     else bind (subscript key ''fingerprint'') (\<lambda>f. case f of JStr s \<Rightarrow> Inr (JStr (''chave-'' @ take_last 8 s))
       | _ \<Rightarrow> Inl (TypeError ''object is not subscriptable'')))"

definition speed_result_of :: "json \<Rightarrow> (json, json) speed_result result" where
  "speed_result_of r = bind (subscript r ''ts'') (\<lambda>ts. Inr \<lparr>sp_ts = ts,
     sp_download_mbps = or_default (field r ''download_mbps'') (JFloat 0),
     sp_upload_mbps = or_default (field r ''upload_mbps'') (JFloat 0),
     sp_ping_ms = or_default (field r ''ping_ms'') (JFloat 0),
     sp_server_name = or_default (field r ''server_name'') (JStr ''-'')\<rparr>)"

definition session_of_dict :: "timestamp \<Rightarrow> json \<Rightarrow> (json, json) active_session result" where
  "session_of_dict now s = (if \<not> is_obj s then Inl (AttributeError ''object has no attribute get'')
     else Inr \<lparr>as_user = or_default (field s ''username'') (JStr ''?''), as_ip = or_default (field s ''source_ip'') (JStr ''?''),
       as_tty = or_default (field s ''terminal'') (JStr ''-''),
       as_key_label = or_default (field s ''key_label'') (JStr ''desconhecida''),
       as_key_type = or_default (field s ''key_type'') (JStr ''-''),
       as_connected_since = or_default (field s ''started_ts'') (JFloat now)\<rparr>)"

definition disk_of_dict :: "json \<Rightarrow> json tui_disk result" where
  "disk_of_dict d = bind (subscript d ''mountpoint'') (\<lambda>m. bind (subscript d ''device'') (\<lambda>dev.
     bind (subscript d ''fstype'') (\<lambda>fs. bind (bind (subscript d ''used_bytes'') number) (\<lambda>u.
     bind (bind (subscript d ''total_bytes'') number) (\<lambda>t.
       Inr \<lparr>td_mount = m, td_device = dev, td_fstype = fs, td_used_gb = u / 1000000000, td_total_gb = t / 1000000000\<rparr>)))))"

definition process_of_dict :: "json \<Rightarrow> (json, json) tui_process result" where
  "process_of_dict p = bind (subscript p ''pid'') (\<lambda>pid. Inr \<lparr>tp_pid = pid,
     tp_name = or_default (field p ''name'') (JStr ''?''), tp_cpu_pct = or_default (field p ''cpu_percent'') (JFloat 0),
     tp_mem_pct = or_default (field p ''mem_percent'') (JFloat 0)\<rparr>)"

definition container_of_dict :: "json \<Rightarrow> json container_info result" where
  "container_of_dict c = (if \<not> is_obj c then Inl (AttributeError ''object has no attribute get'')
     else Inr \<lparr>ci_name = or_default (field c ''name'') (JStr ''?''), ci_image = or_default (field c ''image'') (JStr ''?''),
       ci_status = or_default (field c ''status'') (JStr ''?''), ci_state = or_default (field c ''state'') (JStr ''?'')\<rparr>)"

definition alert_of_dict :: "json \<Rightarrow> (json, json) tui_alert result" where
  "alert_of_dict r = bind (subscript r ''ts'') (\<lambda>ts. bind (subscript r ''alert_type'') (\<lambda>k.
     Inr \<lparr>ta_ts = ts, ta_kind = k, ta_description = or_default (field r ''detail'') (JStr [])\<rparr>))"

subsection \<open>The backend's state\<close>

datatype waiter =
    Subscribe | Load_Snapshot | Load_History | Load_Keys | Load_Tests | Load_Extra | Load_Alerts
  | Refresh | Start_Test | Restart_Cmd | Restart_Status | Reboot_Cmd

datatype phase = Idle | Loading | Running

record backend =
  be_ready :: bool
  be_connection :: conn_state
  be_sessions :: "(json, json) active_session list"
  be_history :: "(json, json) tui_login list"
  be_ssh_keys :: "(json, json) tui_key list"
  be_fail2ban_available :: bool
  be_blocked_ips :: "json blocked_ip list"
  be_cpu_per_core :: "json list"
  be_mem_total_mb :: rat
  be_mem_used_mb :: rat
  be_swap_pct :: json
  be_temps_available :: bool
  be_temps :: "(json \<times> json) list"
  be_disks :: "json tui_disk list"
  be_disk_health :: "json disk_health list"
  be_net_upload_kbps :: rat
  be_net_download_kbps :: rat
  be_net_history_up :: "rat list"
  be_net_history_down :: "rat list"
  be_gpu_available :: bool
  be_gpu_engines :: json
  be_processes :: "(json, json) tui_process list"
  be_speedtest_running :: bool
  be_speedtest_error :: json
  be_speedtest_history :: "(json, json) speed_result list"
  be_services :: "json tui_service list"
  be_containers_available :: bool
  be_containers :: "json container_info list"
  be_updates_count :: json
  be_updates_manager :: json
  be_dangerous :: bool
  be_alerts :: "(json, json) tui_alert list"
  be_cpu_total :: json
  be_uptime :: json
  be_raw_keys :: json
  be_blocked_since :: "(json \<times> timestamp) list"
  be_restarting :: "string option"
  be_tick_count :: nat
  be_inflight :: bool
  be_writer :: "bool option" \<comment> \<open>\<open>Some False\<close>: open, but a write raises\<close>
  be_next_id :: int
  be_pending :: "(int \<times> waiter option) list" \<comment> \<open>\<open>None\<close>: the future is done\<close>
  be_written :: "string list"
  be_phase :: phase
  be_reading :: bool \<comment> \<open>the task of \<open>_read_loop\<close> is alive\<close>

definition new_backend :: backend where
  "new_backend = \<lparr>be_ready = False, be_connection = Offline, be_sessions = [], be_history = [], be_ssh_keys = [],
     be_fail2ban_available = False, be_blocked_ips = [], be_cpu_per_core = [], be_mem_total_mb = 0, be_mem_used_mb = 0,
     be_swap_pct = JFloat 0, be_temps_available = False, be_temps = [], be_disks = [], be_disk_health = [],
     be_net_upload_kbps = 0, be_net_download_kbps = 0, be_net_history_up = replicate 40 0,
     be_net_history_down = replicate 40 0, be_gpu_available = False, be_gpu_engines = JObj [], be_processes = [],
     be_speedtest_running = False, be_speedtest_error = JNull, be_speedtest_history = [], be_services = [],
     be_containers_available = False, be_containers = [], be_updates_count = JInt 0, be_updates_manager = JStr [],
     be_dangerous = False, be_alerts = [], be_cpu_total = JFloat 0, be_uptime = JFloat 0, be_raw_keys = JArr [],
     be_blocked_since = [], be_restarting = None, be_tick_count = 0, be_inflight = False, be_writer = None,
     be_next_id = 1, be_pending = [], be_written = [], be_phase = Idle, be_reading = False\<rparr>"

type_synonym step = "backend \<Rightarrow> backend \<times> exn option"

definition assign :: "('a \<Rightarrow> backend \<Rightarrow> backend) \<Rightarrow> (backend \<Rightarrow> 'a result) \<Rightarrow> step" where
  \<comment> \<open>an assignment whose right-hand side may raise\<close>
  "assign put rhs b = (case rhs b of Inl e \<Rightarrow> (b, Some e) | Inr v \<Rightarrow> (put v b, None))"

fun run_steps :: "step list \<Rightarrow> step" where
  "run_steps [] b = (b, None)"
| "run_steps (s # ss) b = (case s b of (b', None) \<Rightarrow> run_steps ss b' | (b', Some e) \<Rightarrow> (b', Some e))"

subsection \<open>Applying payloads\<close>

fun temp_entries :: "string \<Rightarrow> json list \<Rightarrow> (json \<times> json) list \<Rightarrow> (json \<times> json) list result" where
  "temp_entries sensor [] d = Inr d"
| "temp_entries sensor (e # es) d = bind (get_or e ''label'' (JStr sensor)) (\<lambda>k. bind (get_default e ''current'' (JFloat 0)) (\<lambda>v.
     if hashable k then temp_entries sensor es (dict_put d k v) else Inl (TypeError ''unhashable type'')))"

fun flat_temps :: "(string \<times> json) list \<Rightarrow> (json \<times> json) list \<Rightarrow> (json \<times> json) list result" where
  "flat_temps [] d = Inr d"
| "flat_temps ((sensor, entries) # rest) d =
     bind (py_iter entries) (\<lambda>es. bind (temp_entries sensor es d) (flat_temps rest))"

definition temps_of :: "json \<Rightarrow> (json \<times> json) list result" where
  "temps_of data = bind (get_or data ''temperatures'' (JObj [])) (\<lambda>t. bind (py_items t) (\<lambda>kvs. flat_temps kvs []))"

definition scaled :: "json \<Rightarrow> string \<Rightarrow> json \<Rightarrow> rat \<Rightarrow> rat result" where
  \<comment> \<open>\<open>(data.get(k) or d) / n\<close>\<close>
  "scaled data k d n = bind (bind (get_or data k d) number) (\<lambda>x. Inr (x / n))"

definition unavailable_dict :: json where
  "unavailable_dict = JObj [(''available'', JBool False)]"

definition is_available :: "json \<Rightarrow> bool result" where
  "is_available j = bind (get_of j ''available'') (\<lambda>v. Inr (truthy v))"

definition metrics_steps :: "json \<Rightarrow> step list" where
  "metrics_steps data =
    [assign (\<lambda>v b. b\<lparr>be_uptime := v\<rparr>) (\<lambda>b. get_default data ''uptime_seconds'' (be_uptime b)),
     assign (\<lambda>v b. b\<lparr>be_cpu_per_core := v\<rparr>) (\<lambda>b. each data ''cpu_per_core'' Inr),
     assign (\<lambda>v b. b\<lparr>be_cpu_total := v\<rparr>) (\<lambda>b. get_default data ''cpu_percent'' (be_cpu_total b)),
     assign (\<lambda>v b. b\<lparr>be_mem_total_mb := v\<rparr>) (\<lambda>b. scaled data ''ram_total_bytes'' (JInt 0) 1000000),
     assign (\<lambda>v b. b\<lparr>be_mem_used_mb := v\<rparr>) (\<lambda>b. scaled data ''ram_used_bytes'' (JInt 0) 1000000),
     assign (\<lambda>v b. b\<lparr>be_swap_pct := v\<rparr>) (\<lambda>b. get_or data ''swap_percent'' (JFloat 0)),
     assign (\<lambda>v b. b\<lparr>be_temps_available := v \<noteq> [], be_temps := v\<rparr>) (\<lambda>b. temps_of data),
     assign (\<lambda>v b. b\<lparr>be_disks := v\<rparr>) (\<lambda>b. each data ''disks'' disk_of_dict),
     assign (\<lambda>v b. b\<lparr>be_net_download_kbps := v\<rparr>) (\<lambda>b. scaled data ''net_rx_bytes_per_sec'' (JFloat 0) 1000),
     assign (\<lambda>v b. b\<lparr>be_net_upload_kbps := v\<rparr>) (\<lambda>b. scaled data ''net_tx_bytes_per_sec'' (JFloat 0) 1000),
     (\<lambda>b. (b\<lparr>be_net_history_down := push_history (be_net_history_down b) (be_net_download_kbps b),
          be_net_history_up := push_history (be_net_history_up b) (be_net_upload_kbps b)\<rparr>, None)),
     assign (\<lambda>v b. b\<lparr>be_gpu_available := v\<rparr>) (\<lambda>b. bind (get_or data ''gpu'' unavailable_dict) is_available),
     assign (\<lambda>v b. b\<lparr>be_gpu_engines := v\<rparr>)
       (\<lambda>b. bind (get_or data ''gpu'' unavailable_dict) (\<lambda>g. get_or g ''engines_busy_percent'' (JObj []))),
     assign (\<lambda>v b. b\<lparr>be_processes := v\<rparr>) (\<lambda>b. each data ''top_processes'' process_of_dict)]"

definition apply_metrics :: "json \<Rightarrow> step" where
  "apply_metrics data b = (if \<not> truthy data then (b, None) else run_steps (metrics_steps data) b)"

definition apply_active_sessions :: "timestamp \<Rightarrow> json \<Rightarrow> step" where
  "apply_active_sessions now sessions = assign (\<lambda>v b. b\<lparr>be_sessions := v\<rparr>)
     (\<lambda>b. bind (py_iter sessions) (map_result (session_of_dict now)))"

fun last_used_of :: "(json, json) tui_login list \<Rightarrow> (json \<times> json) list \<Rightarrow> (json \<times> json) list result" where
  "last_used_of [] d = Inr d"
| "last_used_of (e # es) d = (if tl_result e = Success \<and> truthy (tl_key_label e)
     then (if hashable (tl_key_label e) then last_used_of es (dict_setdefault d (tl_key_label e) (tl_ts e))
           else Inl (TypeError ''unhashable type''))
     else last_used_of es d)"

definition ssh_key_of :: "(json \<times> json) list \<Rightarrow> json \<Rightarrow> (json, json) tui_key result" where
  "ssh_key_of last_used k = bind (key_display_label k) (\<lambda>l. bind (subscript k ''key_type'') (\<lambda>t.
     bind (subscript k ''fingerprint'') (\<lambda>f. if hashable l
       then Inr \<lparr>tk_label = l, tk_key_type = t, tk_fingerprint = f, tk_last_used = dict_get last_used l\<rparr>
       else Inl (TypeError ''unhashable type''))))"

definition rebuild_keys :: step where
  "rebuild_keys = assign (\<lambda>v b. b\<lparr>be_ssh_keys := v\<rparr>) (\<lambda>b. bind (last_used_of (be_history b) [])
     (\<lambda>d. bind (py_iter (be_raw_keys b)) (map_result (ssh_key_of d))))"

definition MAX_LOGIN_HISTORY :: nat where
  "MAX_LOGIN_HISTORY = 500"

definition apply_login_history :: "json \<Rightarrow> step" where
  "apply_login_history rows = run_steps [assign (\<lambda>v b. b\<lparr>be_history := v\<rparr>)
     (\<lambda>b. bind (py_iter rows) (map_result login_event_from_dict)), rebuild_keys]"

definition apply_new_login_event :: "json \<Rightarrow> step" where
  "apply_new_login_event data = run_steps [assign (\<lambda>v b. b\<lparr>be_history := take MAX_LOGIN_HISTORY (v # be_history b)\<rparr>)
     (\<lambda>b. login_event_from_dict data), rebuild_keys]"

definition apply_keys :: "json \<Rightarrow> step" where
  "apply_keys keys = run_steps [(\<lambda>b. (b\<lparr>be_raw_keys := keys\<rparr>, None)), rebuild_keys]"

fun successes :: "json list \<Rightarrow> (json, json) speed_result list result" where
  \<comment> \<open>\<open>[SpeedTestResult(...) for r in rows if r.get("success")]\<close>\<close>
  "successes [] = Inr []"
| "successes (r # rs) = bind (get_of r ''success'') (\<lambda>v. if truthy v
     then bind (speed_result_of r) (\<lambda>x. bind (successes rs) (\<lambda>xs. Inr (x # xs))) else successes rs)"

definition failure_text :: json where
  "failure_text = JStr ''Falha desconhecida no teste.''"

definition error_of :: "json \<Rightarrow> json result" where
  "error_of r = bind (get_of r ''success'') (\<lambda>v. if truthy v then Inr JNull else get_or r ''error'' failure_text)"

definition apply_speedtest_history :: "json \<Rightarrow> step" where
  "apply_speedtest_history rows = run_steps
    [assign (\<lambda>v b. b\<lparr>be_speedtest_history := v\<rparr>) (\<lambda>b. bind (py_iter rows) (\<lambda>rs. successes (rev rs))),
     (case rows of JArr (latest # _) \<Rightarrow> assign (\<lambda>v b. b\<lparr>be_speedtest_error := v\<rparr>) (\<lambda>b. error_of latest)
      | _ \<Rightarrow> (\<lambda>b. (b, None)))]"

definition apply_new_speedtest_result :: "json \<Rightarrow> step" where
  "apply_new_speedtest_result data = run_steps
    [(\<lambda>b. (b\<lparr>be_speedtest_running := False\<rparr>, None)),
     assign (\<lambda>v b. b\<lparr>be_speedtest_error := v\<rparr>) (\<lambda>b. error_of data),
     assign (\<lambda>v b. b\<lparr>be_speedtest_history := be_speedtest_history b @ v\<rparr>) (\<lambda>b. successes [data])]"

definition service_of_dict :: "json \<Rightarrow> json tui_service result" where
  "service_of_dict s = bind (subscript s ''unit'') (\<lambda>u. bind (subscript s ''state'') (\<lambda>st.
     Inr \<lparr>sc_name = u, sc_status = map_service_state st\<rparr>))"

fun ban_ips :: "timestamp \<Rightarrow> string \<Rightarrow> json list \<Rightarrow> (json \<times> timestamp) list \<times> json blocked_ip list \<Rightarrow>
    ((json \<times> timestamp) list \<times> json blocked_ip list) \<times> exn option" where
  "ban_ips now jail [] acc = (acc, None)"
| "ban_ips now jail (ip # ips) (since, blocked) = (if \<not> hashable ip then ((since, blocked), Some (TypeError ''unhashable type''))
     else let since' = dict_setdefault since ip now in
       ban_ips now jail ips (since', blocked @ [\<lparr>bi_ip = ip, bi_rule = jail,
         bi_banned_at = (case dict_get since' ip of Some t \<Rightarrow> t | None \<Rightarrow> now)\<rparr>]))"

fun ban_jails :: "timestamp \<Rightarrow> (string \<times> json) list \<Rightarrow> (json \<times> timestamp) list \<times> json blocked_ip list \<Rightarrow>
    ((json \<times> timestamp) list \<times> json blocked_ip list) \<times> exn option" where
  "ban_jails now [] acc = (acc, None)"
| "ban_jails now ((jail, ips) # rest) acc = (case py_iter ips of Inl e \<Rightarrow> (acc, Some e)
     | Inr xs \<Rightarrow> (case ban_ips now jail xs acc of (acc', None) \<Rightarrow> ban_jails now rest acc' | r \<Rightarrow> r))"

definition still_banned :: "json blocked_ip list \<Rightarrow> (json \<times> timestamp) list \<Rightarrow> (json \<times> timestamp) list" where
  "still_banned blocked since = filter (\<lambda>(ip, t). list_ex (\<lambda>x. py_eq (bi_ip x) ip) blocked) since"

definition fail2ban_step :: "timestamp \<Rightarrow> json \<Rightarrow> step" where
  "fail2ban_step now data b = (case bind (get_or data ''fail2ban'' unavailable_dict) (\<lambda>f. bind (get_or f ''banned_by_jail'' (JObj [])) py_items) of
      Inl e \<Rightarrow> (b, Some e)
    | Inr jails \<Rightarrow> (case ban_jails now jails (be_blocked_since b, []) of
        ((since, blocked), Some e) \<Rightarrow> (b\<lparr>be_blocked_since := since\<rparr>, Some e)
      | ((since, blocked), None) \<Rightarrow> (b\<lparr>be_blocked_since := still_banned blocked since, be_blocked_ips := blocked\<rparr>, None)))"

definition updates_step :: "json \<Rightarrow> step" where
  "updates_step data b = (case get_or data ''updates'' unavailable_dict of Inl e \<Rightarrow> (b, Some e)
    | Inr u \<Rightarrow> (case is_available u of Inl e \<Rightarrow> (b, Some e)
      | Inr a \<Rightarrow> if a then run_steps
          [assign (\<lambda>v b. b\<lparr>be_updates_count := v\<rparr>) (\<lambda>b. get_default u ''count'' (JInt 0)),
           assign (\<lambda>v b. b\<lparr>be_updates_manager := v\<rparr>) (\<lambda>b. get_default u ''manager'' (JStr ''?''))] b
        else (b, None)))"

definition disk_health_of :: "json \<Rightarrow> json disk_health list result" where
  "disk_health_of data = bind (get_or data ''smart'' unavailable_dict) (\<lambda>s. bind (is_available s) (\<lambda>a. if a
     then bind (bind (get_or s ''devices'' (JObj [])) py_items) (\<lambda>kvs. Inr (map (\<lambda>(d, st). \<lparr>dh_device = d, dh_status = st\<rparr>) kvs))
     else Inr []))"

definition extra_status_steps :: "timestamp \<Rightarrow> json \<Rightarrow> step list" where
  "extra_status_steps now data =
    [assign (\<lambda>v b. b\<lparr>be_services := v\<rparr>) (\<lambda>b. each data ''services'' service_of_dict),
     assign (\<lambda>v b. b\<lparr>be_containers_available := v\<rparr>) (\<lambda>b. bind (get_or data ''docker'' unavailable_dict) is_available),
     assign (\<lambda>v b. b\<lparr>be_containers := v\<rparr>)
       (\<lambda>b. bind (get_or data ''docker'' unavailable_dict) (\<lambda>d. each d ''containers'' container_of_dict)),
     assign (\<lambda>v b. b\<lparr>be_fail2ban_available := v\<rparr>) (\<lambda>b. bind (get_or data ''fail2ban'' unavailable_dict) is_available),
     fail2ban_step now data, updates_step data,
     assign (\<lambda>v b. b\<lparr>be_disk_health := v\<rparr>) (\<lambda>b. disk_health_of data),
     assign (\<lambda>v b. b\<lparr>be_dangerous := truthy v\<rparr>) (\<lambda>b. get_of data ''dangerous_actions_enabled'')]"

definition apply_extra_status :: "timestamp \<Rightarrow> json \<Rightarrow> step" where
  "apply_extra_status now data b = (if \<not> truthy data then (b, None) else run_steps (extra_status_steps now data) b)"

definition apply_alerts :: "json \<Rightarrow> step" where
  "apply_alerts rows = assign (\<lambda>v b. b\<lparr>be_alerts := v\<rparr>) (\<lambda>b. bind (py_iter rows) (map_result alert_of_dict))"

definition handle_event :: "json \<Rightarrow> json \<Rightarrow> step" where
  "handle_event event data = (if event = JStr ''metrics'' then apply_metrics data
     else if event = JStr ''login_event'' then apply_new_login_event data
     else if event = JStr ''speedtest_result'' then apply_new_speedtest_result data
     else (\<lambda>b. (b, None)))"

subsection \<open>What the screens read\<close>

definition be_mem_pct :: "backend \<Rightarrow> rat" where
  "be_mem_pct b = mem_pct_of (be_mem_used_mb b) (be_mem_total_mb b)"

definition be_sorted_processes :: "string \<Rightarrow> backend \<Rightarrow> (json, json) tui_process list result" where
  "be_sorted_processes by b = (let key = (if by = ''cpu'' then tp_cpu_pct else tp_mem_pct); ps = be_processes b in
     if length ps \<le> 1 then Inr ps
     else if list_all (\<lambda>p. json_number (key p) \<noteq> None) ps then Inr (sort_desc (num_of \<circ> key) ps)
     else if list_all (\<lambda>p. is_str (key p)) ps then Inr (sort_desc (str_of \<circ> key) ps)
     else Inl (TypeError ''< not supported between these instances''))"

end
