(* ===== verification/Tui_Protocol.thy ===== *)
theory Tui_Protocol
  imports Tui_Backend
begin

section \<open>backend.py: requests, replies and reconnection\<close>

text \<open>
  The asynchronous half of \<open>backend.py\<close>: \<open>_send_and_wait\<close> with its table of pending requests,
  \<open>_read_loop\<close>, the loading sequence, the actions and \<open>run_forever\<close>'s handling of a lost
  connection. \<open>resume\<close> is what a coroutine does after its \<open>await _send_and_wait(...)\<close>; only the
  loading coroutine lets an exception out, which ends the connection (\<open>drop\<close>). The exception of
  \<open>_read_loop\<close> is seen at \<open>await read_task\<close>, that is when the loading is over.
\<close>

record tui_env =
  te_ft :: "rat \<Rightarrow> string"
  te_now :: timestamp

subsection \<open>Sending\<close>

definition request_json :: "string \<Rightarrow> int \<Rightarrow> (string \<times> json) list \<Rightarrow> json" where
  "request_json cmd req_id args = JObj [(''cmd'', JStr cmd), (''id'', JInt req_id), (''args'', JObj args)]"

definition send_request :: "tui_env \<Rightarrow> string \<Rightarrow> (string \<times> json) list \<Rightarrow> waiter \<Rightarrow> step" where
  "send_request env cmd args w b = (case be_writer b of
      None \<Rightarrow> (b, Some (ConnectionError ''not connected to omnia daemon''))
    | Some writable \<Rightarrow> (let req_id = be_next_id b;
          b1 = b\<lparr>be_next_id := req_id + 1, be_pending := be_pending b @ [(req_id, Some w)]\<rparr> in
        if writable then (b1\<lparr>be_written := be_written b1 @ [dumps (te_ft env) (request_json cmd req_id args) @ [CHR 0x0A]]\<rparr>, None)
        else (b1\<lparr>be_pending := be_pending b @ [(req_id, None)]\<rparr>, Some (ConnectionResetError ''Connection lost''))))"

definition response_data :: "tui_env \<Rightarrow> json \<Rightarrow> json result" where
  \<comment> \<open>the end of \<open>_send_and_wait\<close>\<close>
  "response_data env response = bind (get_of response ''ok'') (\<lambda>ok. if \<not> truthy ok
     then bind (get_default response ''error'' (JStr ''unknown error'')) (\<lambda>e. Inl (RuntimeError (scalar_text (te_ft env) e)))
     else get_or response ''data'' (JObj []))"

subsection \<open>After the await\<close>

fun and_then :: "backend \<times> exn option \<Rightarrow> step \<Rightarrow> backend \<times> exn option" where
  "and_then (b, None) f = f b"
| "and_then (b, Some e) f = (b, Some e)"

definition from_field :: "json \<Rightarrow> string \<Rightarrow> json \<Rightarrow> (json \<Rightarrow> step) \<Rightarrow> step" where
  \<comment> \<open>\<open>self._apply(data.get(k) or default)\<close>\<close>
  "from_field data k d apply_to b = (case get_or data k d of Inl e \<Rightarrow> (b, Some e) | Inr v \<Rightarrow> apply_to v b)"

definition swallow :: "backend \<times> exn option \<Rightarrow> backend \<times> exn option" where
  \<comment> \<open>\<open>except Exception: pass\<close>\<close>
  "swallow r = (fst r, None)"

fun load_step :: "tui_env \<Rightarrow> waiter \<Rightarrow> json \<Rightarrow> step" where
  \<comment> \<open>the loading coroutine from one await to the next\<close>
  "load_step env Subscribe data b = send_request env ''get_snapshot'' [] Load_Snapshot b"
| "load_step env Load_Snapshot data b = and_then (and_then
     (from_field data ''metrics'' (JObj []) apply_metrics b)
     (from_field data ''active_sessions'' (JArr []) (apply_active_sessions (te_now env))))
     (send_request env ''get_login_history'' [(''limit'', JInt (int MAX_LOGIN_HISTORY))] Load_History)"
| "load_step env Load_History data b = and_then
     (from_field data ''events'' (JArr []) apply_login_history b) (send_request env ''get_keys'' [] Load_Keys)"
| "load_step env Load_Keys data b = and_then
     (from_field data ''keys'' (JArr []) apply_keys b)
     (send_request env ''get_speedtest_history'' [(''limit'', JInt 200)] Load_Tests)"
| "load_step env Load_Tests data b = and_then
     (from_field data ''results'' (JArr []) apply_speedtest_history b)
     (send_request env ''get_extra_status'' [] Load_Extra)"
| "load_step env Load_Extra data b = and_then
     (apply_extra_status (te_now env) data b) (send_request env ''get_alerts'' [(''limit'', JInt 200)] Load_Alerts)"
| "load_step env Load_Alerts data b = and_then
     (from_field data ''alerts'' (JArr []) apply_alerts b) (\<lambda>b. (b\<lparr>be_ready := True, be_phase := Running\<rparr>, None))"
| "load_step env _ data b = (b, None)"

definition is_load :: "waiter \<Rightarrow> bool" where
  "is_load w \<longleftrightarrow> w \<in> {Subscribe, Load_Snapshot, Load_History, Load_Keys, Load_Tests, Load_Extra, Load_Alerts}"

definition resume :: "tui_env \<Rightarrow> waiter \<Rightarrow> json result \<Rightarrow> step" where
  \<comment> \<open>continue with what \<open>_send_and_wait\<close> returned or raised\<close>
  "resume env w r b = (if is_load w then (case r of Inl e \<Rightarrow> (b, Some e) | Inr data \<Rightarrow> load_step env w data b)
     else if w = Refresh then swallow ((case r of Inl e \<Rightarrow> b
         | Inr data \<Rightarrow> fst (from_field data ''active_sessions'' (JArr []) (apply_active_sessions (te_now env)) b))
           \<lparr>be_inflight := False\<rparr>, None)
     else if w = Start_Test then (case r of
         Inl e \<Rightarrow> (b\<lparr>be_speedtest_running := False, be_speedtest_error := JStr (exn_text e)\<rparr>, None)
       | Inr _ \<Rightarrow> (b, None))
     else if w = Restart_Cmd then
       swallow (send_request env ''get_extra_status'' [] Restart_Status (b\<lparr>be_restarting := None\<rparr>))
     else if w = Restart_Status then (case r of Inl e \<Rightarrow> (b, None)
       | Inr data \<Rightarrow> swallow (apply_extra_status (te_now env) data b))
     else (b, None))"

subsection \<open>Losing the connection\<close>

fun fail_waiters :: "tui_env \<Rightarrow> (int \<times> waiter option) list \<Rightarrow> backend \<Rightarrow> backend" where
  "fail_waiters env [] b = b"
| "fail_waiters env ((i, None) # ws) b = fail_waiters env ws b"
| "fail_waiters env ((i, Some w) # ws) b = fail_waiters env ws
     (fst (resume env w (Inl (ConnectionError ''connection to omnia daemon lost'')) b))"

definition drop_connection :: "tui_env \<Rightarrow> backend \<Rightarrow> backend" where
  "drop_connection env b = fail_waiters env (be_pending b)
     (b\<lparr>be_connection := Offline, be_writer := None, be_phase := Idle, be_reading := False, be_pending := []\<rparr>)"

definition continue :: "tui_env \<Rightarrow> waiter \<Rightarrow> json result \<Rightarrow> backend \<Rightarrow> backend" where
  "continue env w r b = (case resume env w r b of (b', None) \<Rightarrow> b' | (b', Some e) \<Rightarrow> drop_connection env b')"

definition reader_failed :: "tui_env \<Rightarrow> backend \<Rightarrow> backend" where
  "reader_failed env b = (if be_phase b = Running then drop_connection env b else b\<lparr>be_reading := False\<rparr>)"

subsection \<open>Reading\<close>

fun contains :: "json \<Rightarrow> string \<Rightarrow> bool result" where
  \<comment> \<open>\<open>key in message\<close>\<close>
  "contains (JObj kvs) k = Inr (k \<in> fst ` set kvs)"
| "contains (JStr s) k = Inr (occurs_in k s)"
| "contains (JArr xs) k = Inr (JStr k \<in> set xs)"
| "contains _ k = Inl (TypeError ''argument is not iterable'')"

definition pending_id :: "json \<Rightarrow> backend \<Rightarrow> (int \<times> waiter option) option" where
  "pending_id i b = find (\<lambda>(n, w). py_eq (JInt n) i) (be_pending b)"

definition take_pending :: "int \<Rightarrow> backend \<Rightarrow> backend" where
  "take_pending n b = b\<lparr>be_pending := filter (\<lambda>(m, w). m \<noteq> n) (be_pending b)\<rparr>"

definition handle_reply :: "tui_env \<Rightarrow> json \<Rightarrow> json \<Rightarrow> step" where
  "handle_reply env message req_id b = (if \<not> hashable req_id then (b, Some (TypeError ''unhashable type''))
     else (case pending_id req_id b of
         None \<Rightarrow> (b, None)
       | Some (n, None) \<Rightarrow> (take_pending n b, None)
       | Some (n, Some w) \<Rightarrow> (continue env w (response_data env message) (take_pending n b), None)))"

definition handle_message_json :: "tui_env \<Rightarrow> json \<Rightarrow> step" where
  "handle_message_json env message b = (case contains message ''event'' of
      Inl e \<Rightarrow> (b, Some e)
    | Inr True \<Rightarrow> (case bind (subscript message ''event'') (\<lambda>ev. bind (get_or message ''data'' (JObj [])) (\<lambda>d. Inr (ev, d))) of
        Inl e \<Rightarrow> (b, Some e)
      | Inr (ev, d) \<Rightarrow> handle_event ev d b)
    | Inr False \<Rightarrow> (case contains message ''id'' of
        Inl e \<Rightarrow> (b, Some e)
      | Inr False \<Rightarrow> (b, None)
      | Inr True \<Rightarrow> (case subscript message ''id'' of Inl e \<Rightarrow> (b, Some e)
          | Inr i \<Rightarrow> handle_reply env message i b)))"

definition read_line :: "tui_env \<Rightarrow> string \<Rightarrow> step" where
  \<comment> \<open>one turn of \<open>_read_loop\<close>; an empty line is the end of the stream\<close>
  "read_line env l b = (if l = [] then (b, Some (ConnectionError ''omnia daemon closed the connection''))
     else (case loads l of
         Inl (JSONDecodeError _) \<Rightarrow> (b, None)
       | Inl e \<Rightarrow> (b, Some e)
       | Inr message \<Rightarrow> handle_message_json env message b))"

subsection \<open>The actions\<close>

definition SESSION_REFRESH_EVERY_TICKS :: nat where
  "SESSION_REFRESH_EVERY_TICKS = 5"

definition start_task :: "tui_env \<Rightarrow> string \<Rightarrow> (string \<times> json) list \<Rightarrow> waiter \<Rightarrow> backend \<Rightarrow> backend" where
  \<comment> \<open>\<open>create_task\<close> of a coroutine that begins with \<open>_send_and_wait\<close>\<close>
  "start_task env cmd args w b = (case send_request env cmd args w b of
      (b', None) \<Rightarrow> b' | (b', Some e) \<Rightarrow> fst (resume env w (Inl e) b'))"

definition be_tick :: "tui_env \<Rightarrow> backend \<Rightarrow> backend" where
  "be_tick env b = (let b1 = b\<lparr>be_tick_count := be_tick_count b + 1\<rparr> in
     if \<not> be_ready b1 \<or> be_inflight b1 then b1
     else if be_tick_count b1 mod SESSION_REFRESH_EVERY_TICKS = 0
       then start_task env ''get_snapshot'' [] Refresh (b1\<lparr>be_inflight := True\<rparr>) else b1)"

definition be_start_speed_test :: "tui_env \<Rightarrow> backend \<Rightarrow> backend" where
  "be_start_speed_test env b = (if be_speedtest_running b then b
     else start_task env ''run_speedtest'' [] Start_Test (b\<lparr>be_speedtest_running := True, be_speedtest_error := JNull\<rparr>))"

definition be_restart_service :: "tui_env \<Rightarrow> string \<Rightarrow> backend \<Rightarrow> backend" where
  "be_restart_service env name b = start_task env ''restart_service'' [(''unit'', JStr name)] Restart_Cmd
     (b\<lparr>be_restarting := Some name\<rparr>)"

definition be_reboot_server :: "tui_env \<Rightarrow> backend \<Rightarrow> backend" where
  "be_reboot_server env b = start_task env ''reboot_system'' [] Reboot_Cmd b"

subsection \<open>Turns\<close>

datatype backend_event =
    Attempt bool | Break_Write | Receive string | Bad_Line exn | Timeout int
  | Tick | Press_Test | Press_Restart string | Press_Reboot

definition connect :: "tui_env \<Rightarrow> bool \<Rightarrow> backend \<Rightarrow> backend" where
  \<comment> \<open>one call of \<open>_connect_and_run\<close>, up to its first wait\<close>
  "connect env ok b = (if \<not> ok then drop_connection env b
     else case send_request env ''subscribe''
         [(''streams'', JArr [JStr ''metrics'', JStr ''login_event'', JStr ''speedtest_result''])] Subscribe
         (b\<lparr>be_writer := Some True, be_connection := Connected, be_phase := Loading, be_reading := True\<rparr>) of
       (b', None) \<Rightarrow> b' | (b', Some e) \<Rightarrow> drop_connection env b')"

definition expire :: "tui_env \<Rightarrow> int \<Rightarrow> backend \<Rightarrow> backend" where
  \<comment> \<open>\<open>wait_for\<close> gives up: the future is cancelled, its entry stays\<close>
  "expire env n b = (case map_of (be_pending b) n of
      Some (Some w) \<Rightarrow> continue env w (Inl TimeoutError)
        (b\<lparr>be_pending := map (\<lambda>(m, x). (m, if m = n then None else x)) (be_pending b)\<rparr>)
    | _ \<Rightarrow> b)"

fun backend_turn :: "tui_env \<Rightarrow> backend_event \<Rightarrow> backend \<Rightarrow> backend" where
  "backend_turn env (Attempt ok) b = (if be_phase b = Idle then connect env ok b else b)"
| "backend_turn env Break_Write b = b\<lparr>be_writer := map_option (\<lambda>_. False) (be_writer b)\<rparr>"
| "backend_turn env (Receive l) b = (if \<not> be_reading b then b
     else (case read_line env l b of (b', None) \<Rightarrow> b' | (b', Some e) \<Rightarrow> reader_failed env b'))"
| "backend_turn env (Bad_Line e) b = (if be_reading b then reader_failed env b else b)"
| "backend_turn env (Timeout n) b = expire env n b"
| "backend_turn env Tick b = be_tick env b"
| "backend_turn env Press_Test b = be_start_speed_test env b"
| "backend_turn env (Press_Restart name) b = be_restart_service env name b"
| "backend_turn env Press_Reboot b = be_reboot_server env b"

end
