(* ===== verification/Tui_Facts.thy ===== *)
theory Tui_Facts
  imports Tui_Protocol
begin

section \<open>What the client promises\<close>

text \<open>
  Applying a payload leaves the connection's state alone (\<open>frames\<close>), whatever the payload is and
  wherever it raises. From that follows the invariant of the request table over every sequence of
  turns (\<open>link_ok\<close>): ids are fresh, an idle client has no request in flight, and a flag that blocks
  the interface (\<open>_sessions_inflight\<close>, \<open>_restarting_service\<close>) is only set while the request that
  clears it is pending.
\<close>

subsection \<open>Steps that leave the connection alone\<close>

definition link :: "backend \<Rightarrow> _" where
  "link b = (be_pending b, be_next_id b, be_writer b, be_phase b, be_reading b, be_inflight b, be_restarting b,
     be_connection b, be_written b, be_ready b, be_tick_count b)"

definition frames :: "step \<Rightarrow> bool" where
  "frames s \<longleftrightarrow> (\<forall>b. link (fst (s b)) = link b)"

named_theorems frame_intros "steps that leave the connection alone"

lemma frames_assign [frame_intros]: "(\<And>v b. link (put v b) = link b) \<Longrightarrow> frames (assign put rhs)"
  by (auto simp: frames_def assign_def split: sum.split)

lemma frames_pure [frame_intros]: "(\<And>b. link (f b) = link b) \<Longrightarrow> frames (\<lambda>b. (f b, g b))"
  by (simp add: frames_def)

lemma frames_run [frame_intros]: "(\<And>s. s \<in> set ss \<Longrightarrow> frames s) \<Longrightarrow> frames (run_steps ss)"
proof (induction ss)
  case Nil
  then show ?case by (simp add: frames_def)
next
  case (Cons s ss)
  then have s: "link (fst (s b)) = link b" and ss: "link (fst (run_steps ss b)) = link b" for b
    by (auto simp: frames_def)
  have "link (fst (run_steps (s # ss) b)) = link b" for b
    using s [of b] ss by (auto split: prod.split option.split)
  then show ?case by (simp add: frames_def)
qed

lemma frames_if [frame_intros]: "frames s \<Longrightarrow> frames t \<Longrightarrow> frames (\<lambda>b. if p b then s b else t b)"
  by (simp add: frames_def)

lemma frames_fail2ban: "frames (fail2ban_step now data)"
  by (auto simp: frames_def fail2ban_step_def link_def split: sum.split prod.split option.split)

lemma frames_updates: "frames (updates_step data)"
proof -
  have "frames (run_steps [assign (\<lambda>v b. b\<lparr>be_updates_count := v\<rparr>) f, assign (\<lambda>v b. b\<lparr>be_updates_manager := v\<rparr>) g])" for f g
    by (rule frames_run) (auto simp: link_def intro!: frames_assign)
  then show ?thesis by (auto simp: frames_def updates_step_def split: sum.split)
qed

lemma frames_rebuild: "frames rebuild_keys"
  unfolding rebuild_keys_def by (rule frames_assign) (simp add: link_def)

lemma frames_metrics: "frames (apply_metrics data)"
proof -
  have "frames s" if "s \<in> set (metrics_steps data)" for s
    using that unfolding metrics_steps_def by (auto simp: link_def intro!: frame_intros)
  then have "frames (run_steps (metrics_steps data))" by (rule frames_run)
  then show ?thesis by (simp add: frames_def apply_metrics_def)
qed

lemma frames_extra: "frames (apply_extra_status now data)"
proof -
  have "frames s" if "s \<in> set (extra_status_steps now data)" for s
    using that frames_fail2ban frames_updates unfolding extra_status_steps_def
    by (auto simp: link_def intro!: frame_intros)
  then have "frames (run_steps (extra_status_steps now data))" by (rule frames_run)
  then show ?thesis by (simp add: frames_def apply_extra_status_def)
qed

lemma frames_small:
  "frames (apply_active_sessions now j)" "frames (apply_login_history j)" "frames (apply_new_login_event j)"
  "frames (apply_keys j)" "frames (apply_speedtest_history j)" "frames (apply_new_speedtest_result j)"
  "frames (apply_alerts j)"
  unfolding apply_active_sessions_def apply_login_history_def apply_new_login_event_def apply_keys_def
    apply_speedtest_history_def apply_new_speedtest_result_def apply_alerts_def
  using frames_rebuild by (auto simp: link_def split: json.split list.split intro!: frame_intros)

lemma frames_event: "frames (handle_event ev data)"
  using frames_metrics frames_small by (simp add: handle_event_def frames_def)

lemma frames_from_field: "(\<And>v. frames (f v)) \<Longrightarrow> frames (from_field data k d f)"
  by (auto simp: frames_def from_field_def split: sum.split)

lemmas apply_frames = frames_metrics frames_extra frames_small frames_event

lemma link_eqs:
  "link b = link b' \<Longrightarrow> be_pending b = be_pending b' \<and> be_next_id b = be_next_id b' \<and> be_writer b = be_writer b'
    \<and> be_phase b = be_phase b' \<and> be_reading b = be_reading b' \<and> be_inflight b = be_inflight b'
    \<and> be_restarting b = be_restarting b' \<and> be_connection b = be_connection b' \<and> be_ready b = be_ready b'
    \<and> be_written b = be_written b' \<and> be_tick_count b = be_tick_count b'"
  by (simp add: link_def)

subsection \<open>The invariant\<close>

definition live :: "waiter \<Rightarrow> backend \<Rightarrow> bool" where
  "live w b \<longleftrightarrow> Some w \<in> snd ` set (be_pending b)"

definition table_ok :: "backend \<Rightarrow> bool" where
  "table_ok b \<longleftrightarrow> distinct (map fst (be_pending b)) \<and> (\<forall>n\<in>fst ` set (be_pending b). 1 \<le> n \<and> n < be_next_id b)
     \<and> 1 \<le> be_next_id b \<and> (be_writer b = None \<longleftrightarrow> be_phase b = Idle) \<and> (be_connection b = Connected \<longleftrightarrow> be_phase b \<noteq> Idle)
     \<and> (be_phase b = Idle \<longrightarrow> be_pending b = [] \<and> \<not> be_reading b)"

definition flags_ok :: "waiter set \<Rightarrow> backend \<Rightarrow> bool" where
  \<comment> \<open>the waiters in \<open>W\<close> are about to be resumed\<close>
  "flags_ok W b \<longleftrightarrow> (be_inflight b \<longrightarrow> live Refresh b \<or> Refresh \<in> W)
     \<and> (be_restarting b \<noteq> None \<longrightarrow> live Restart_Cmd b \<or> Restart_Cmd \<in> W)"

definition link_ok :: "backend \<Rightarrow> bool" where
  "link_ok b \<longleftrightarrow> table_ok b \<and> flags_ok {} b"

lemma ok_by_link:
  assumes "link b = link b'"
  shows "(table_ok b = table_ok b') \<and> (flags_ok W b = flags_ok W b')"
proof -
  have "be_pending b = be_pending b'" "be_next_id b = be_next_id b'" "be_writer b = be_writer b'"
    "be_phase b = be_phase b'" "be_reading b = be_reading b'" "be_inflight b = be_inflight b'"
    "be_restarting b = be_restarting b'" "be_connection b = be_connection b'"
    using link_eqs [OF assms] by blast+
  then show ?thesis by (simp only: table_ok_def flags_ok_def live_def)
qed

lemma frames_ok: "frames s \<Longrightarrow> (table_ok (fst (s b)) = table_ok b) \<and> (flags_ok W (fst (s b)) = flags_ok W b)"
  by (rule ok_by_link) (simp add: frames_def)

lemma send_request_ok:
  assumes "table_ok b" "flags_ok W b"
  shows "table_ok (fst (send_request env cmd args w b)) \<and> flags_ok W (fst (send_request env cmd args w b))
    \<and> (snd (send_request env cmd args w b) = None \<longrightarrow> live w (fst (send_request env cmd args w b)))
    \<and> be_phase (fst (send_request env cmd args w b)) = be_phase b"
  using assms by (cases "be_writer b") (fastforce simp: send_request_def table_ok_def flags_ok_def live_def Let_def)+

lemma and_then_keeps:
  "(\<And>b. P b \<Longrightarrow> P (fst (f b))) \<Longrightarrow> P (fst r) \<Longrightarrow> P (fst (and_then r f))"
  by (cases "(r, f)" rule: and_then.cases) auto

lemma load_step_ok:
  assumes "table_ok b" "flags_ok W b" "be_phase b \<noteq> Idle"
  shows "table_ok (fst (load_step env w data b)) \<and> flags_ok W (fst (load_step env w data b))"
proof -
  let ?P = "\<lambda>b. table_ok b \<and> flags_ok W b \<and> be_phase b \<noteq> Idle"
  have send: "?P (fst (send_request env cmd args v b))" if "?P b" for cmd args v b
    using send_request_ok [of b W env cmd args v] that by auto
  have fr: "?P (fst (s b))" if "frames s" "?P b" for s b
    using frames_ok [OF that(1)] that link_eqs [of "fst (s b)" b] by (auto simp: frames_def)
  have field: "?P (fst (from_field data k d f b))" if "\<And>v. frames (f v)" "?P b" for k d f b
    using fr [OF frames_from_field that(2)] that(1) by blast
  have ready: "?P (fst (b\<lparr>be_ready := True, be_phase := Running\<rparr>, None))" if "?P b" for b :: backend
    using that by (auto simp: table_ok_def flags_ok_def live_def)
  have start: "?P b" using assms by simp
  have "?P (fst (load_step env w data b))"
  proof (cases w)
    case Load_Extra
    then show ?thesis
      using and_then_keeps [where P = ?P, OF send fr [OF frames_extra start]] by simp
  next
    case Load_Snapshot
    then show ?thesis
      using and_then_keeps [where P = ?P, OF send and_then_keeps [where P = ?P, OF field field [OF _ start]]]
        frames_metrics frames_small by simp
  next
    case Load_Alerts
    then show ?thesis
      using and_then_keeps [where P = ?P, OF ready field [OF frames_small(7) start]] by simp
  qed (use start send [OF start] and_then_keeps [where P = ?P, OF send field [OF _ start]] frames_small in simp_all)
  then show ?thesis by simp
qed

subsection \<open>Resuming a coroutine\<close>

lemma flags_weaken: "flags_ok W b \<Longrightarrow> W \<subseteq> W' \<Longrightarrow> flags_ok W' b"
  by (auto simp: flags_ok_def)

lemma flags_drop: "flags_ok (insert w W) b \<Longrightarrow> w \<notin> {Refresh, Restart_Cmd} \<Longrightarrow> flags_ok W b"
  by (auto simp: flags_ok_def)

lemma resume_ok:
  assumes "table_ok b" "flags_ok (insert w W) b" "is_load w \<Longrightarrow> be_phase b \<noteq> Idle"
  shows "table_ok (fst (resume env w r b)) \<and> flags_ok W (fst (resume env w r b))"
proof (cases w)
  case Refresh
  let ?b = "case r of Inl e \<Rightarrow> b
    | Inr data \<Rightarrow> fst (from_field data ''active_sessions'' (JArr []) (apply_active_sessions (te_now env)) b)"
  have "table_ok ?b \<and> flags_ok (insert Refresh W) ?b"
    using assms Refresh frames_ok [OF frames_from_field [OF frames_small(1)]] by (auto split: sum.split)
  moreover have "table_ok (?b\<lparr>be_inflight := False\<rparr>) = table_ok ?b" by (simp add: table_ok_def)
  moreover have "flags_ok W (?b\<lparr>be_inflight := False\<rparr>)" if "flags_ok (insert Refresh W) ?b"
    using that by (auto simp: flags_ok_def live_def)
  ultimately show ?thesis using Refresh by (simp add: resume_def is_load_def swallow_def)
next
  case Restart_Cmd
  have "table_ok (b\<lparr>be_restarting := None\<rparr>)" "flags_ok W (b\<lparr>be_restarting := None\<rparr>)"
    using assms Restart_Cmd by (auto simp: table_ok_def flags_ok_def live_def)
  from send_request_ok [OF this] Restart_Cmd show ?thesis
    by (simp add: resume_def is_load_def swallow_def)
next
  case Restart_Status
  then show ?thesis
    using assms flags_drop [OF assms(2)] frames_ok [OF frames_extra]
    by (auto simp: resume_def is_load_def swallow_def split: sum.split)
next
  case Start_Test
  have "table_ok (b\<lparr>be_speedtest_running := False, be_speedtest_error := e\<rparr>) = table_ok b"
    "flags_ok W (b\<lparr>be_speedtest_running := False, be_speedtest_error := e\<rparr>) = flags_ok W b" for e
    by (simp_all add: table_ok_def flags_ok_def live_def)
  then show ?thesis
    using assms flags_drop [OF assms(2)] Start_Test by (auto simp: resume_def is_load_def split: sum.split)
next
  case Reboot_Cmd
  then show ?thesis using assms flags_drop [OF assms(2)] by (simp add: resume_def is_load_def)
qed (use assms flags_drop [OF assms(2)] load_step_ok [of b W env w] in
     \<open>auto simp: resume_def is_load_def split: sum.split\<close>)

lemma resume_lost:
  "be_phase b = Idle \<Longrightarrow> be_writer b = None \<Longrightarrow> link (fst (resume env w (Inl e) b)) =
     link (b\<lparr>be_inflight := be_inflight b \<and> w \<noteq> Refresh,
        be_restarting := (if w = Restart_Cmd then None else be_restarting b)\<rparr>)"
  by (cases w) (simp_all add: resume_def is_load_def swallow_def send_request_def link_def)

lemma fail_waiters_link:
  assumes "be_phase b = Idle" "be_writer b = None"
  shows "link (fail_waiters env ws b) = link (b\<lparr>be_inflight := be_inflight b \<and> Some Refresh \<notin> snd ` set ws,
     be_restarting := (if Some Restart_Cmd \<in> snd ` set ws then None else be_restarting b)\<rparr>)"
  using assms
proof (induction env ws b rule: fail_waiters.induct)
  case (3 env i w ws b)
  let ?b = "fst (resume env w (Inl (ConnectionError ''connection to omnia daemon lost'')) b)"
  have eqs: "be_phase ?b = Idle" "be_writer ?b = None" "be_inflight ?b = (be_inflight b \<and> w \<noteq> Refresh)"
    "be_restarting ?b = (if w = Restart_Cmd then None else be_restarting b)"
    using link_eqs [OF resume_lost [OF 3(2,3), of env w]] 3(2,3) by simp_all
  show ?case
    using 3(1) [OF eqs(1,2)] eqs resume_lost [OF 3(2,3), of env w "ConnectionError ''connection to omnia daemon lost''"]
    by (auto simp: link_def)
qed (simp_all add: link_def)

lemma drop_connection_link:
  "link (drop_connection env b) = link (b\<lparr>be_connection := Offline, be_writer := None, be_phase := Idle, be_reading := False,
     be_pending := [], be_inflight := be_inflight b \<and> \<not> live Refresh b,
     be_restarting := (if live Restart_Cmd b then None else be_restarting b)\<rparr>)"
  unfolding drop_connection_def by (subst fail_waiters_link) (simp_all add: link_def live_def)

lemma drop_connection_ok:
  assumes "table_ok b" "flags_ok {} b"
  shows "table_ok (drop_connection env b) \<and> flags_ok {} (drop_connection env b)"
proof -
  let ?b = "b\<lparr>be_connection := Offline, be_writer := None, be_phase := Idle, be_reading := False,
     be_pending := [], be_inflight := be_inflight b \<and> \<not> live Refresh b,
     be_restarting := (if live Restart_Cmd b then None else be_restarting b)\<rparr>"
  have "table_ok ?b" using assms by (simp add: table_ok_def)
  moreover have "flags_ok {} ?b" using assms(2) by (cases "live Restart_Cmd b") (auto simp: flags_ok_def)
  ultimately show ?thesis using ok_by_link [OF drop_connection_link] by blast
qed

subsection \<open>Every turn\<close>

lemma continue_ok:
  assumes "table_ok b" "flags_ok {w} b" "be_phase b \<noteq> Idle"
  shows "link_ok (continue env w r b)"
proof -
  have "table_ok (fst (resume env w r b)) \<and> flags_ok {} (fst (resume env w r b))"
    using assms by (intro resume_ok) auto
  then show ?thesis
    using drop_connection_ok by (auto simp: continue_def link_ok_def split: prod.split option.split)
qed

lemma busy: "table_ok b \<Longrightarrow> be_pending b \<noteq> [] \<or> be_reading b \<Longrightarrow> be_phase b \<noteq> Idle"
  by (auto simp: table_ok_def)

lemma take_pending_ok:
  assumes "link_ok b" "(n, x) \<in> set (be_pending b)"
  shows "table_ok (take_pending n b) \<and> flags_ok (set_option x) (take_pending n b)
    \<and> be_phase (take_pending n b) \<noteq> Idle"
proof -
  have one: "y = x" if "(n, y) \<in> set (be_pending b)" for y
    using assms that by (auto simp: link_ok_def table_ok_def dest: eq_key_imp_eq_value)
  have "live w b \<Longrightarrow> live w (take_pending n b) \<or> x = Some w" for w
    using one by (force simp: live_def take_pending_def image_iff)
  moreover have "table_ok (take_pending n b)"
    using assms by (fastforce simp: link_ok_def table_ok_def take_pending_def distinct_map_filter)
  moreover have "be_phase (take_pending n b) \<noteq> Idle"
    using busy [of b] assms by (cases "be_pending b") (auto simp: link_ok_def take_pending_def)
  ultimately show ?thesis
    using assms by (auto simp: link_ok_def flags_ok_def take_pending_def)
qed

lemma handle_reply_ok: "link_ok b \<Longrightarrow> link_ok (fst (handle_reply env message i b))"
proof -
  assume ok: "link_ok b"
  have "(n, x) \<in> set (be_pending b)" if "pending_id i b = Some (n, x)" for n x
    using that by (auto simp: pending_id_def dest!: find_Some_iff [THEN iffD1] nth_mem)
  note this = take_pending_ok [OF ok this]
  then show ?thesis
    using ok continue_ok by (fastforce simp: handle_reply_def link_ok_def split: option.split)
qed

lemma and_then_step: "(\<And>b. P b \<Longrightarrow> P (fst (s b))) \<Longrightarrow> P b \<Longrightarrow> P (fst (case c of Inl e \<Rightarrow> (b, Some e) | Inr v \<Rightarrow> s b))"
  by (cases c) auto

lemma handle_message_ok: "link_ok b \<Longrightarrow> link_ok (fst (handle_message_json env message b))"
  using handle_reply_ok frames_ok [OF frames_event]
  by (auto simp: handle_message_json_def link_ok_def split: sum.split bool.split prod.split)

lemma read_line_ok: "link_ok b \<Longrightarrow> link_ok (fst (read_line env l b))"
  using handle_message_ok by (auto simp: read_line_def split: sum.split exn.split)

lemma reader_failed_ok: "link_ok b \<Longrightarrow> link_ok (reader_failed env b)"
  using drop_connection_ok [of b env] by (auto simp: reader_failed_def link_ok_def table_ok_def flags_ok_def live_def)

lemma start_task_ok:
  assumes "table_ok b" "flags_ok {w} b" "\<not> is_load w"
  shows "link_ok (start_task env cmd args w b)"
proof -
  obtain b' e where b': "send_request env cmd args w b = (b', e)" by fastforce
  note sent = send_request_ok [OF assms(1,2), of env cmd args w, unfolded b' fst_conv snd_conv]
  show ?thesis
  proof (cases e)
    case None
    then show ?thesis using sent by (auto simp: start_task_def b' link_ok_def flags_ok_def)
  next
    case (Some e)
    then show ?thesis using resume_ok [of b' w "{}"] sent assms(3) by (auto simp: start_task_def b' link_ok_def)
  qed
qed

lemma connect_ok: "link_ok b \<Longrightarrow> be_phase b = Idle \<Longrightarrow> link_ok (connect env k b)"
proof -
  assume b: "link_ok b" "be_phase b = Idle"
  let ?b = "b\<lparr>be_writer := Some True, be_connection := Connected, be_phase := Loading, be_reading := True\<rparr>"
  have "table_ok ?b" "flags_ok {} ?b"
    using b by (auto simp: link_ok_def table_ok_def flags_ok_def live_def)
  note ready = this
  define r where "r = send_request env ''subscribe''
     [(''streams'', JArr [JStr ''metrics'', JStr ''login_event'', JStr ''speedtest_result''])] Subscribe ?b"
  have "table_ok (fst r)" "flags_ok {} (fst r)"
    unfolding r_def using send_request_ok [OF ready] by blast+
  then show ?thesis
    using b drop_connection_ok by (cases r rule: prod.exhaust)
      (auto simp: connect_def link_ok_def simp flip: r_def split: option.split)
qed

lemma expire_ok: "link_ok b \<Longrightarrow> link_ok (expire env n b)"
proof -
  assume b: "link_ok b"
  have "link_ok (continue env w (Inl TimeoutError)
      (b\<lparr>be_pending := map (\<lambda>(m, x). (m, if m = n then None else x)) (be_pending b)\<rparr>))" (is "link_ok (continue env w _ ?b)")
    if w: "map_of (be_pending b) n = Some (Some w)" for w
  proof (rule continue_ok)
    have "fst \<circ> (\<lambda>(m, x). (m, if m = n then None else x)) = (fst :: int \<times> waiter option \<Rightarrow> int)" by auto
    then have keys: "map fst (be_pending ?b) = map fst (be_pending b)" by simp
    then have "fst ` set (be_pending ?b) = fst ` set (be_pending b)" by (metis set_map)
    moreover have "be_phase b \<noteq> Idle" using b w busy [of b] by (cases "be_pending b") (auto simp: link_ok_def)
    ultimately show "table_ok ?b"
      using b keys unfolding link_ok_def table_ok_def by (simp del: map_map)
    show "be_phase ?b \<noteq> Idle" using \<open>be_phase b \<noteq> Idle\<close> by simp
    have "x = Some w" if "(n, x) \<in> set (be_pending b)" for x
      using that w b by (auto simp: link_ok_def table_ok_def)
    then have "live v b \<Longrightarrow> live v ?b \<or> v = w" for v
      by (force simp: live_def image_iff)
    then show "flags_ok {w} ?b" using b by (auto simp: link_ok_def flags_ok_def)
  qed
  then show ?thesis using b by (auto simp: expire_def split: option.split)
qed

lemma tick_ok: "link_ok b \<Longrightarrow> link_ok (be_tick env b)"
proof -
  assume b: "link_ok b"
  let ?b = "b\<lparr>be_tick_count := be_tick_count b + 1\<rparr>"
  have "link_ok ?b" "table_ok (?b\<lparr>be_inflight := True\<rparr>)" "flags_ok {Refresh} (?b\<lparr>be_inflight := True\<rparr>)"
    using b by (auto simp: link_ok_def table_ok_def flags_ok_def live_def)
  then show ?thesis
    using start_task_ok by (simp add: be_tick_def Let_def is_load_def)
qed

lemma turn_ok: "link_ok b \<Longrightarrow> link_ok (backend_turn env ev b)"
proof (cases ev)
  case (Receive l)
  assume "link_ok b"
  with Receive show ?thesis
    using read_line_ok [of b env l] reader_failed_ok by (auto split: prod.split option.split)
next
  case Break_Write
  assume "link_ok b"
  with Break_Write show ?thesis by (auto simp: link_ok_def table_ok_def flags_ok_def live_def)
next
  case Press_Test
  assume "link_ok b"
  then have "table_ok (b\<lparr>be_speedtest_running := True, be_speedtest_error := JNull\<rparr>)"
    "flags_ok {Start_Test} (b\<lparr>be_speedtest_running := True, be_speedtest_error := JNull\<rparr>)"
    by (auto simp: link_ok_def table_ok_def flags_ok_def live_def)
  with Press_Test \<open>link_ok b\<close> show ?thesis using start_task_ok by (simp add: be_start_speed_test_def is_load_def)
next
  case (Press_Restart u)
  assume "link_ok b"
  then have "table_ok (b\<lparr>be_restarting := Some u\<rparr>)" "flags_ok {Restart_Cmd} (b\<lparr>be_restarting := Some u\<rparr>)"
    by (auto simp: link_ok_def table_ok_def flags_ok_def live_def)
  with Press_Restart show ?thesis using start_task_ok by (simp add: be_restart_service_def is_load_def)
next
  case Press_Reboot
  assume "link_ok b"
  then have "table_ok b" "flags_ok {Reboot_Cmd} b" by (auto simp: link_ok_def flags_ok_def)
  with Press_Reboot show ?thesis using start_task_ok by (simp add: be_reboot_server_def is_load_def)
qed (simp_all add: connect_ok reader_failed_ok expire_ok tick_ok)

fun turns :: "(tui_env \<times> backend_event) list \<Rightarrow> backend \<Rightarrow> backend" where
  "turns [] b = b"
| "turns ((env, ev) # es) b = turns es (backend_turn env ev b)"

lemma link_ok_new: "link_ok new_backend"
  by (simp add: link_ok_def table_ok_def flags_ok_def new_backend_def)

lemma turns_ok: "link_ok b \<Longrightarrow> link_ok (turns es b)"
  by (induction es b rule: turns.induct) (simp_all add: turn_ok)

end
