(* ===== verification/Tui_Apply.thy ===== *)
theory Tui_Apply
  imports Tui_Facts Scheduler
begin

section \<open>What the client makes of the daemon's payloads\<close>

text \<open>
  \<open>backend.py\<close> against the dicts of \<open>scheduler.py\<close> and \<open>socket_server.py\<close>: for each payload, the
  attributes the client ends with. No payload the daemon builds makes it raise. \<open>last_success\<close>,
  \<open>ban_start\<close> and the \<open>shown_*\<close> functions are the reference the incremental code is compared with.
\<close>

subsection \<open>Login events\<close>

definition text_or :: "string option \<Rightarrow> string \<Rightarrow> json" where
  "text_or s d = (case s of Some t \<Rightarrow> JStr (if t = [] then d else t) | None \<Rightarrow> JStr d)"

lemma or_default_text: "or_default (of_option JStr s) (JStr d) = text_or s d"
  by (cases s) (auto simp: or_default_def text_or_def)

definition shown_login :: "login_event \<Rightarrow> (json, json) tui_login" where
  "shown_login r = (let res = result_of_type (JStr (le_event_type r)) in
     \<lparr>tl_ts = JFloat (le_ts r), tl_user = text_or (le_username r) ''?'', tl_ip = text_or (le_source_ip r) ''?'',
      tl_result = res, tl_key_label = text_or (le_key_label r) [],
      tl_detail = login_detail res (text_or (le_detail r) [])\<rparr>)"

lemma login_from_event: "login_event_from_dict (event_dict r) = Inr (shown_login r)"
  by (simp add: login_event_from_dict_def event_dict_def field_def shown_login_def Let_def bind_def or_default_text)

lemma login_from_row: "login_event_from_dict (login_event_json (i, r)) = Inr (shown_login r)"
  by (simp add: login_event_from_dict_def login_event_json_def field_def shown_login_def Let_def bind_def or_default_text)

lemma shown_label: "is_str (tl_key_label (shown_login r))"
  by (auto simp: shown_login_def Let_def text_or_def split: option.split)

lemma map_result_Inr: "(\<And>x. x \<in> set xs \<Longrightarrow> f (g x) = Inr (h x)) \<Longrightarrow> map_result f (map g xs) = Inr (map h xs)"
  by (induction xs) (simp_all add: bind_def)

subsection \<open>When a key was last used\<close>

definition last_success :: "(json, json) tui_login list \<Rightarrow> json \<Rightarrow> json option" where
  "last_success h l = map_option tl_ts (find (\<lambda>e. tl_result e = Success \<and> tl_key_label e = l \<and> truthy l) h)"

definition text_keys :: "(json \<times> 'v) list \<Rightarrow> bool" where
  "text_keys d \<longleftrightarrow> (\<forall>(k, v)\<in>set d. is_str k)"

lemma is_str_iff: "is_str j \<longleftrightarrow> (\<exists>s. j = JStr s)"
  by (cases j) auto

lemma dict_get_alt: "text_keys d \<Longrightarrow> dict_get d (JStr s) = map_of d (JStr s)"
proof (induction d)
  case (Cons kv d)
  obtain k v where kv: "kv = (k, v)" by (cases kv)
  with Cons.prems obtain t where t: "k = JStr t" "text_keys d" by (auto simp: text_keys_def is_str_iff)
  then show ?case using Cons.IH kv by (simp add: dict_get_def)
qed (simp add: dict_get_def)

lemma setdefault_get:
  assumes "text_keys d"
  shows "dict_get (dict_setdefault d (JStr a) v) (JStr s) =
     (case dict_get d (JStr s) of Some w \<Rightarrow> Some w | None \<Rightarrow> if a = s then Some v else None)"
    "text_keys (dict_setdefault d (JStr a) v)"
proof -
  have t: "text_keys (d @ [(JStr a, v)])" using assms by (auto simp: text_keys_def)
  show "text_keys (dict_setdefault d (JStr a) v)" using assms t by (simp add: dict_setdefault_def)
  show "dict_get (dict_setdefault d (JStr a) v) (JStr s) =
     (case dict_get d (JStr s) of Some w \<Rightarrow> Some w | None \<Rightarrow> if a = s then Some v else None)"
    using dict_get_alt [OF assms, of s] dict_get_alt [OF assms, of a] dict_get_alt [OF t, of s]
    by (auto simp: dict_setdefault_def map_add_def split: option.split)
qed

definition text_labels :: "(json, json) tui_login list \<Rightarrow> bool" where
  "text_labels h \<longleftrightarrow> (\<forall>e\<in>set h. is_str (tl_key_label e))"

lemma last_used_get:
  assumes "text_labels h" "text_keys d"
  shows "\<exists>d'. last_used_of h d = Inr d' \<and> text_keys d' \<and> (\<forall>s. dict_get d' (JStr s) =
     (case dict_get d (JStr s) of Some w \<Rightarrow> Some w | None \<Rightarrow> last_success h (JStr s)))"
  using assms
proof (induction h arbitrary: d)
  case Nil
  then show ?case by (auto simp: last_success_def split: option.split)
next
  case (Cons e h)
  then obtain a where a: "tl_key_label e = JStr a" and h: "text_labels h" by (auto simp: text_labels_def is_str_iff)
  show ?case
  proof (cases "tl_result e = Success \<and> a \<noteq> []")
    case True
    let ?d = "dict_setdefault d (JStr a) (tl_ts e)"
    obtain d' where d': "last_used_of h ?d = Inr d'" "text_keys d'"
      "\<forall>s. dict_get d' (JStr s) = (case dict_get ?d (JStr s) of Some w \<Rightarrow> Some w | None \<Rightarrow> last_success h (JStr s))"
      using Cons.IH [OF h setdefault_get(2) [OF Cons.prems(2)]] by blast
    have "dict_get d' (JStr s) = (case dict_get d (JStr s) of Some w \<Rightarrow> Some w | None \<Rightarrow> last_success (e # h) (JStr s))" for s
      using d'(3) setdefault_get(1) [OF Cons.prems(2), of a "tl_ts e" s] True a
      by (auto simp: last_success_def split: option.split)
    then show ?thesis using d' True a by simp
  next
    case False
    then have same: "last_success (e # h) (JStr s) = last_success h (JStr s)" for s
      using a by (auto simp: last_success_def)
    have "last_used_of (e # h) d = last_used_of h d" using False a by auto
    with same Cons.IH [OF h Cons.prems(2)] show ?thesis by (simp only:)
  qed
qed

definition shown_key_label :: "key_entry \<Rightarrow> string" where
  "shown_key_label k = (if ke_comment k = [] then ''chave-'' @ take_last 8 (ke_fingerprint k) else ke_comment k)"

definition shown_key :: "(json, json) tui_login list \<Rightarrow> key_entry \<Rightarrow> (json, json) tui_key" where
  "shown_key h k = \<lparr>tk_label = JStr (shown_key_label k), tk_key_type = JStr (ke_type k),
     tk_fingerprint = JStr (ke_fingerprint k), tk_last_used = last_success h (JStr (shown_key_label k))\<rparr>"

lemma key_of_entry:
  "ssh_key_of d (key_entry_json k) = Inr \<lparr>tk_label = JStr (shown_key_label k), tk_key_type = JStr (ke_type k),
     tk_fingerprint = JStr (ke_fingerprint k), tk_last_used = dict_get d (JStr (shown_key_label k))\<rparr>"
  by (simp add: ssh_key_of_def key_display_label_def key_entry_json_def get_of_def field_def bind_def shown_key_label_def)

lemma rebuild_keys_shown:
  assumes "text_labels (be_history b)" "be_raw_keys b = JArr (map key_entry_json ks)"
  shows "rebuild_keys b = (b\<lparr>be_ssh_keys := map (shown_key (be_history b)) ks\<rparr>, None)"
proof -
  obtain d where d: "last_used_of (be_history b) [] = Inr d"
    "\<forall>s. dict_get d (JStr s) = last_success (be_history b) (JStr s)"
    using last_used_get [OF assms(1), of "[]"] by (auto simp: text_keys_def dict_get_def)
  have "map_result (ssh_key_of d) (map key_entry_json ks) = Inr (map (shown_key (be_history b)) ks)"
    using d(2) by (intro map_result_Inr) (simp add: key_of_entry shown_key_def)
  then show ?thesis using d(1) assms(2) by (simp add: rebuild_keys_def assign_def bind_def)
qed

definition fed :: "key_entry list \<Rightarrow> backend \<Rightarrow> bool" where
  \<comment> \<open>the key list and the history came from the daemon\<close>
  "fed ks b \<longleftrightarrow> be_raw_keys b = JArr (map key_entry_json ks) \<and> text_labels (be_history b)"

lemma text_labels_take: "text_labels h \<Longrightarrow> text_labels (take n h)"
  by (meson text_labels_def in_set_takeD)

lemma new_login_shown:
  assumes "fed ks b"
  shows "apply_new_login_event (event_dict r) b =
    (let h = take MAX_LOGIN_HISTORY (shown_login r # be_history b) in
      (b\<lparr>be_history := h, be_ssh_keys := map (shown_key h) ks\<rparr>, None))"
proof -
  let ?h = "take MAX_LOGIN_HISTORY (shown_login r # be_history b)"
  have "text_labels (shown_login r # be_history b)" using assms shown_label by (simp add: fed_def text_labels_def)
  then have "text_labels ?h" by (rule text_labels_take)
  then have "rebuild_keys (b\<lparr>be_history := ?h\<rparr>) = (b\<lparr>be_history := ?h, be_ssh_keys := map (shown_key ?h) ks\<rparr>, None)"
    using rebuild_keys_shown [of "b\<lparr>be_history := ?h\<rparr>" ks] assms by (simp add: fed_def)
  then show ?thesis by (simp add: apply_new_login_event_def assign_def login_from_event Let_def)
qed

lemma history_shown:
  assumes "be_raw_keys b = JArr (map key_entry_json ks)"
  shows "apply_login_history (JArr (map login_event_json rows)) b =
    (let h = map (shown_login \<circ> snd) rows in (b\<lparr>be_history := h, be_ssh_keys := map (shown_key h) ks\<rparr>, None))"
proof -
  let ?h = "map (shown_login \<circ> snd) rows"
  have "map_result login_event_from_dict (map login_event_json rows) = Inr ?h"
    by (rule map_result_Inr) (auto simp: login_from_row split: prod.split)
  moreover have "text_labels ?h" using shown_label by (auto simp: text_labels_def)
  ultimately show ?thesis
    using rebuild_keys_shown [of "b\<lparr>be_history := ?h\<rparr>" ks] assms
    by (simp add: apply_login_history_def assign_def bind_def Let_def)
qed

subsection \<open>Metrics\<close>

definition gpu_reading :: "json \<Rightarrow> bool" where
  \<comment> \<open>what \<open>gpu_intel.py\<close> keeps as its latest reading\<close>
  "gpu_reading g \<longleftrightarrow> (\<exists>r. g = unavailable r) \<or> (\<exists>es. g = JObj [(''available'', JBool True), (''engines_busy_percent'', JObj es)])"

lemma gpu_reading_extract: "gpu_reading (extract_engines j)"
  unfolding gpu_reading_def extract_engines_def by blast

definition text_nonempty :: "string \<Rightarrow> string \<Rightarrow> json" where
  "text_nonempty s d = JStr (if s = [] then d else s)"

definition shown_disk :: "disk_info \<Rightarrow> json tui_disk" where
  "shown_disk d = \<lparr>td_mount = JStr (dk_mountpoint d), td_device = JStr (dk_device d), td_fstype = JStr (dk_fstype d),
     td_used_gb = of_int (dk_used_bytes d) / 1000000000, td_total_gb = of_int (dk_total_bytes d) / 1000000000\<rparr>"

definition shown_process :: "process_info \<Rightarrow> (json, json) tui_process" where
  "shown_process p = \<lparr>tp_pid = JInt (pi_pid p), tp_name = text_nonempty (pi_name p) ''?'',
     tp_cpu_pct = JFloat (pi_cpu_percent p), tp_mem_pct = JFloat (pi_mem_percent p)\<rparr>"

lemma disk_shown: "disk_of_dict (disk_json d) = Inr (shown_disk d)"
  by (simp add: disk_of_dict_def disk_json_def shown_disk_def bind_def number_def)

lemma process_shown: "process_of_dict (process_json p) = Inr (shown_process p)"
  by (simp add: process_of_dict_def process_json_def shown_process_def bind_def field_def or_default_def text_nonempty_def)

lemma temp_entries_ok:
  "\<exists>d'. temp_entries sensor (map (\<lambda>(l, c). JObj [(''label'', JStr l), (''current'', JFloat c)]) es) d = Inr d'
     \<and> (d \<noteq> [] \<or> es \<noteq> [] \<longrightarrow> d' \<noteq> [])"
proof (induction es arbitrary: d)
  case (Cons e es)
  obtain l c where e: "e = (l, c)" by (cases e)
  have ne: "dict_put d k v \<noteq> []" for k :: json and v by (cases d) (auto simp: dict_put_def dict_get_def)
  obtain s where "get_or (JObj [(''label'', JStr l), (''current'', JFloat c)]) ''label'' (JStr sensor) = Inr (JStr s)"
    by (cases "l = []") (auto simp: get_or_def get_of_def field_def or_default_def)
  with Cons.IH [of "dict_put d (JStr s) (JFloat c)"] ne show ?case
    by (auto simp: e bind_def get_default_def)
qed auto

lemma flat_temps_ok:
  "\<exists>d'. flat_temps (map (\<lambda>(name, es). (name, JArr (map (\<lambda>(l, c). JObj [(''label'', JStr l), (''current'', JFloat c)]) es))) ts) d
     = Inr d' \<and> (d' = [] \<longleftrightarrow> d = [] \<and> (\<forall>(n, es)\<in>set ts. es = []))"
proof (induction ts arbitrary: d)
  case (Cons t ts)
  obtain n es where t: "t = (n, es)" by (cases t)
  obtain d1 where d1: "temp_entries n (map (\<lambda>(l, c). JObj [(''label'', JStr l), (''current'', JFloat c)]) es) d = Inr d1"
    "d \<noteq> [] \<or> es \<noteq> [] \<longrightarrow> d1 \<noteq> []" using temp_entries_ok by blast
  have "d = [] \<and> es = [] \<longrightarrow> d1 = []" using d1(1) by auto
  with d1 Cons.IH [of d1] show ?case by (auto simp: t bind_def)
qed auto

lemma temps_shown:
  assumes "data = snapshot_json s gpu"
  shows "\<exists>d. temps_of data = Inr d \<and> (d = [] \<longleftrightarrow> (\<forall>(n, es)\<in>set (sn_temperatures s). es = []))"
proof -
  have "get_or data ''temperatures'' (JObj []) = Inr (temperature_json (sn_temperatures s))"
    using assms by (cases "sn_temperatures s")
      (simp_all add: snapshot_json_def get_or_def get_of_def field_def or_default_def temperature_json_def)
  with flat_temps_ok [of "sn_temperatures s" "[]"] show ?thesis
    by (auto simp: temps_of_def bind_def temperature_json_def)
qed

definition shown_metrics :: "metrics_snapshot \<Rightarrow> json \<Rightarrow> (json \<times> json) list \<Rightarrow> backend \<Rightarrow> backend" where
  "shown_metrics s gpu ts b = b\<lparr>be_uptime := JFloat (sn_uptime_seconds s), be_cpu_per_core := map JFloat (sn_cpu_per_core s),
     be_cpu_total := JFloat (sn_cpu_percent s), be_mem_total_mb := of_int (sn_ram_total_bytes s) / 1000000,
     be_mem_used_mb := of_int (sn_ram_used_bytes s) / 1000000, be_swap_pct := JFloat (sn_swap_percent s),
     be_temps_available := ts \<noteq> [], be_temps := ts, be_disks := map shown_disk (sn_disks s),
     be_net_download_kbps := sn_net_rx s / 1000, be_net_upload_kbps := sn_net_tx s / 1000,
     be_net_history_down := push_history (be_net_history_down b) (sn_net_rx s / 1000),
     be_net_history_up := push_history (be_net_history_up b) (sn_net_tx s / 1000),
     be_gpu_available := truthy (field gpu ''available''),
     be_gpu_engines := or_default (field gpu ''engines_busy_percent'') (JObj []),
     be_processes := map shown_process (sn_top_processes s)\<rparr>"

lemma each_map: "get_or data k (JArr []) = Inr (JArr (map g xs)) \<Longrightarrow> (\<And>x. f (g x) = Inr (h x)) \<Longrightarrow>
    each data k f = Inr (map h xs)"
  by (simp add: each_def bind_def map_result_Inr)

lemma snapshot_fields:
  "get_or (snapshot_json s gpu) ''cpu_per_core'' (JArr []) = Inr (JArr (map JFloat (sn_cpu_per_core s)))"
  "get_or (snapshot_json s gpu) ''disks'' (JArr []) = Inr (JArr (map disk_json (sn_disks s)))"
  "get_or (snapshot_json s gpu) ''top_processes'' (JArr []) = Inr (JArr (map process_json (sn_top_processes s)))"
  "get_default (snapshot_json s gpu) ''uptime_seconds'' d = Inr (JFloat (sn_uptime_seconds s))"
  "get_default (snapshot_json s gpu) ''cpu_percent'' d = Inr (JFloat (sn_cpu_percent s))"
  "scaled (snapshot_json s gpu) ''ram_total_bytes'' (JInt 0) n = Inr (of_int (sn_ram_total_bytes s) / n)"
  "scaled (snapshot_json s gpu) ''ram_used_bytes'' (JInt 0) n = Inr (of_int (sn_ram_used_bytes s) / n)"
  "get_or (snapshot_json s gpu) ''swap_percent'' (JFloat 0) = Inr (JFloat (sn_swap_percent s))"
  "scaled (snapshot_json s gpu) ''net_rx_bytes_per_sec'' (JFloat 0) n = Inr (sn_net_rx s / n)"
  "scaled (snapshot_json s gpu) ''net_tx_bytes_per_sec'' (JFloat 0) n = Inr (sn_net_tx s / n)"
  "truthy (snapshot_json s gpu)"
  by (simp_all add: snapshot_json_def get_or_def get_of_def field_def or_default_def get_default_def scaled_def bind_def number_def)

lemma snapshot_gpu: "gpu_reading gpu \<Longrightarrow> get_or (snapshot_json s gpu) ''gpu'' unavailable_dict = Inr gpu \<and> is_obj gpu"
  by (auto simp: gpu_reading_def unavailable_def snapshot_json_def get_or_def get_of_def field_def or_default_def)

lemma metrics_shown:
  assumes "gpu_reading gpu"
  shows "\<exists>ts. apply_metrics (snapshot_json s gpu) b = (shown_metrics s gpu ts b, None)
    \<and> (ts = [] \<longleftrightarrow> (\<forall>(n, es)\<in>set (sn_temperatures s). es = []))"
proof -
  let ?j = "snapshot_json s gpu"
  obtain ts where ts: "temps_of ?j = Inr ts" "ts = [] \<longleftrightarrow> (\<forall>(n, es)\<in>set (sn_temperatures s). es = [])"
    using temps_shown by blast
  have lists: "each ?j ''cpu_per_core'' Inr = Inr (map JFloat (sn_cpu_per_core s))"
    "each ?j ''disks'' disk_of_dict = Inr (map shown_disk (sn_disks s))"
    "each ?j ''top_processes'' process_of_dict = Inr (map shown_process (sn_top_processes s))"
    by (rule each_map, rule snapshot_fields, simp only: disk_shown process_shown)+
  have gpu: "bind (get_or ?j ''gpu'' unavailable_dict) is_available = Inr (truthy (field gpu ''available''))"
    "bind (get_or ?j ''gpu'' unavailable_dict) (\<lambda>g. get_or g ''engines_busy_percent'' (JObj [])) =
       Inr (or_default (field gpu ''engines_busy_percent'') (JObj []))"
    using snapshot_gpu [OF assms, of s] by (simp_all add: bind_def is_available_def get_of_def get_or_def)
  have "apply_metrics ?j b = (shown_metrics s gpu ts b, None)"
    by (simp add: apply_metrics_def metrics_steps_def assign_def snapshot_fields ts(1) lists gpu shown_metrics_def)
  with ts(2) show ?thesis by blast
qed

subsection \<open>Bans\<close>

definition ban_start :: "timestamp \<Rightarrow> (json \<times> timestamp) list \<Rightarrow> string \<Rightarrow> timestamp" where
  \<comment> \<open>the time a ban was first seen, or now\<close>
  "ban_start now since ip = (case dict_get since (JStr ip) of Some t \<Rightarrow> t | None \<Rightarrow> now)"

definition bans :: "(string \<times> string list) list \<Rightarrow> (string \<times> string) list" where
  "bans jails = concat (map (\<lambda>(jail, ips). map (\<lambda>ip. (jail, ip)) ips) jails)"

definition shown_ban :: "timestamp \<Rightarrow> (json \<times> timestamp) list \<Rightarrow> string \<times> string \<Rightarrow> json blocked_ip" where
  "shown_ban now since ji = \<lparr>bi_ip = JStr (snd ji), bi_rule = fst ji, bi_banned_at = ban_start now since (snd ji)\<rparr>"

definition grown :: "timestamp \<Rightarrow> (json \<times> timestamp) list \<Rightarrow> string set \<Rightarrow> (json \<times> timestamp) list \<Rightarrow> bool" where
  "grown now since ips since' \<longleftrightarrow> text_keys since' \<and> (\<forall>s. dict_get since' (JStr s) =
     (case dict_get since (JStr s) of Some t \<Rightarrow> Some t | None \<Rightarrow> if s \<in> ips then Some now else None))"

lemma grown_refl: "text_keys since \<Longrightarrow> grown now since {} since"
  by (auto simp: grown_def split: option.split)

lemma grown_add: "grown now since A d \<Longrightarrow> grown now since (insert ip A) (dict_setdefault d (JStr ip) now)"
  using setdefault_get [of d ip now] by (auto simp: grown_def split: option.splits)

lemma grown_start: "grown now since A d \<Longrightarrow> ip \<in> A \<Longrightarrow> dict_get d (JStr ip) = Some (ban_start now since ip)"
  by (auto simp: grown_def ban_start_def split: option.split)

lemma ban_ips_shown:
  assumes "grown now since A d"
  shows "\<exists>d'. ban_ips now jail (map JStr ips) (d, xs) =
      ((d', xs @ map (\<lambda>ip. shown_ban now since (jail, ip)) ips), None) \<and> grown now since (A \<union> set ips) d'"
  using assms
proof (induction ips arbitrary: A d xs)
  case (Cons ip ips)
  let ?d = "dict_setdefault d (JStr ip) now"
  have g: "grown now since (insert ip A) ?d" using Cons.prems by (rule grown_add)
  have "dict_get ?d (JStr ip) = Some (ban_start now since ip)" using grown_start [OF g] by simp
  with Cons.IH [OF g, of "xs @ [shown_ban now since (jail, ip)]"] show ?case
    by (simp add: Let_def shown_ban_def)
qed auto

lemma ban_jails_shown:
  assumes "grown now since A d"
  shows "\<exists>d'. ban_jails now (map (\<lambda>(j, ips). (j, JArr (map JStr ips))) jails) (d, xs) =
      ((d', xs @ map (shown_ban now since) (bans jails)), None) \<and> grown now since (A \<union> snd ` set (bans jails)) d'"
  using assms
proof (induction jails arbitrary: A d xs)
  case Nil
  then show ?case by (simp add: bans_def)
next
  case (Cons ji jails)
  obtain j ips where ji: "ji = (j, ips)" by (cases ji)
  obtain d1 where d1: "ban_ips now j (map JStr ips) (d, xs) = ((d1, xs @ map (\<lambda>ip. shown_ban now since (j, ip)) ips), None)"
    "grown now since (A \<union> set ips) d1" using ban_ips_shown [OF Cons.prems] by blast
  have "A \<union> set ips \<union> snd ` set (bans jails) = A \<union> snd ` set (bans (ji # jails))"
    by (auto simp: ji bans_def image_Un image_image)
  with d1(1) Cons.IH [OF d1(2), of "xs @ map (\<lambda>ip. shown_ban now since (j, ip)) ips"] show ?case
    by (simp add: ji bans_def comp_def)
qed

definition fail2ban_json :: "(string \<times> string list) list \<Rightarrow> json" where
  \<comment> \<open>the dict of \<open>fail2ban_banned_ips\<close>\<close>
  "fail2ban_json jails = JObj [(''available'', JBool True),
     (''banned_by_jail'', JObj (map (\<lambda>(j, ips). (j, JArr (map JStr ips))) jails))]"

definition tracks :: "timestamp \<Rightarrow> (json \<times> timestamp) list \<Rightarrow> (string \<times> string list) list \<Rightarrow> (json \<times> timestamp) list \<Rightarrow> bool" where
  \<comment> \<open>exactly the addresses now banned, each with its first time\<close>
  "tracks now since jails since' \<longleftrightarrow> text_keys since' \<and> (\<forall>ip. dict_get since' (JStr ip) =
     (if ip \<in> snd ` set (bans jails) then Some (ban_start now since ip) else None))"

lemma map_of_filter_key: "map_of (filter (\<lambda>(k, v). P k) d) k = (if P k then map_of d k else None)"
  by (induction d) auto

lemma still_banned_tracks:
  assumes "grown now since (snd ` set (bans jails)) d"
  shows "tracks now since jails (still_banned (map (shown_ban now since) (bans jails)) d)"
proof -
  let ?xs = "map (shown_ban now since) (bans jails)"
  have t: "text_keys d" using assms by (simp add: grown_def)
  have keep: "list_ex (\<lambda>x. py_eq (bi_ip x) (JStr ip)) ?xs \<longleftrightarrow> ip \<in> snd ` set (bans jails)" for ip
    by (auto simp: list_ex_iff shown_ban_def image_iff)
  have "map_of (still_banned ?xs d) (JStr ip) = (if ip \<in> snd ` set (bans jails) then map_of d (JStr ip) else None)" for ip
    unfolding still_banned_def map_of_filter_key by (simp only: keep)
  moreover have "text_keys (still_banned ?xs d)" using t by (auto simp: text_keys_def still_banned_def)
  moreover have "map_of d (JStr ip) = Some (ban_start now since ip)" if "ip \<in> snd ` set (bans jails)" for ip
    using grown_start [OF assms that] dict_get_alt [OF t] by simp
  ultimately show ?thesis by (simp add: tracks_def dict_get_alt)
qed

lemma bans_shown:
  assumes "text_keys (be_blocked_since b)" "get_or data ''fail2ban'' unavailable_dict = Inr (fail2ban_json jails)"
  shows "\<exists>since. fail2ban_step now data b = (b\<lparr>be_blocked_since := since,
      be_blocked_ips := map (shown_ban now (be_blocked_since b)) (bans jails)\<rparr>, None)
    \<and> tracks now (be_blocked_since b) jails since"
proof -
  obtain d where d: "ban_jails now (map (\<lambda>(j, ips). (j, JArr (map JStr ips))) jails) (be_blocked_since b, []) =
      ((d, map (shown_ban now (be_blocked_since b)) (bans jails)), None)"
    "grown now (be_blocked_since b) (snd ` set (bans jails)) d"
    using ban_jails_shown [OF grown_refl [OF assms(1)], of now jails "[]"] by auto
  have "bind (get_or (fail2ban_json jails) ''banned_by_jail'' (JObj [])) py_items =
      Inr (map (\<lambda>(j, ips). (j, JArr (map JStr ips))) jails)"
    by (cases jails) (simp_all add: fail2ban_json_def get_or_def get_of_def field_def or_default_def bind_def)
  then have "fail2ban_step now data b = (b\<lparr>be_blocked_since :=
      still_banned (map (shown_ban now (be_blocked_since b)) (bans jails)) d,
      be_blocked_ips := map (shown_ban now (be_blocked_since b)) (bans jails)\<rparr>, None)"
    using assms(2) d(1) by (simp add: fail2ban_step_def bind_def)
  with still_banned_tracks [OF d(2)] show ?thesis by blast
qed

end
