(* ===== verification/Tui_Status.thy ===== *)
theory Tui_Status
  imports Tui_Apply
begin

section \<open>What the client makes of the daemon's replies\<close>

text \<open>
  The rest of \<open>backend.py\<close>'s payloads: the replies of \<open>socket_server.py\<close> (sessions, keys, speed
  tests, alerts) and the extra status, whose sections \<open>extra_tools.py\<close> collects. \<open>extra_ok\<close> is the
  shape those sections have whatever the tools print; a payload of that shape is applied completely.
\<close>

subsection \<open>Lists\<close>

definition shown_session :: "ssh_session \<Rightarrow> (json, json) active_session" where
  \<comment> \<open>a session that started at time zero counts as started now, which is left out\<close>
  "shown_session s = \<lparr>as_user = text_nonempty (ss_username s) ''?'', as_ip = text_nonempty (ss_source_ip s) ''?'',
     as_tty = text_or (ss_terminal s) ''-'', as_key_label = text_or (ss_key_label s) ''desconhecida'',
     as_key_type = text_or (ss_key_type s) ''-'', as_connected_since = JFloat (ss_started_ts s)\<rparr>"

lemma session_shown: "ss_started_ts s \<noteq> 0 \<Longrightarrow> session_of_dict now (session_json s) = Inr (shown_session s)"
  by (cases "ss_terminal s"; cases "ss_key_label s"; cases "ss_key_type s")
    (auto simp: session_of_dict_def session_json_def shown_session_def field_def or_default_def text_nonempty_def text_or_def)

lemma sessions_shown:
  "\<forall>s\<in>set ss. ss_started_ts s \<noteq> 0 \<Longrightarrow> apply_active_sessions now (JArr (map session_json ss)) b =
     (b\<lparr>be_sessions := map shown_session ss\<rparr>, None)"
  using map_result_Inr [of ss "session_of_dict now" session_json shown_session] session_shown
  by (simp add: apply_active_sessions_def assign_def bind_def)

lemma keys_shown:
  assumes "text_labels (be_history b)"
  shows "apply_keys (JArr (map key_entry_json ks)) b =
    (b\<lparr>be_raw_keys := JArr (map key_entry_json ks), be_ssh_keys := map (shown_key (be_history b)) ks\<rparr>, None)"
  using rebuild_keys_shown [of "b\<lparr>be_raw_keys := JArr (map key_entry_json ks)\<rparr>" ks] assms
  by (simp add: apply_keys_def)

definition shown_test :: "speedtest_row \<Rightarrow> (json, json) speed_result" where
  "shown_test r = \<lparr>sp_ts = JFloat (st_ts r), sp_download_mbps = JFloat (case st_download_mbps r of Some x \<Rightarrow> x | None \<Rightarrow> 0),
     sp_upload_mbps = JFloat (case st_upload_mbps r of Some x \<Rightarrow> x | None \<Rightarrow> 0),
     sp_ping_ms = JFloat (case st_ping_ms r of Some x \<Rightarrow> x | None \<Rightarrow> 0), sp_server_name = text_or (st_server_name r) ''-''\<rparr>"

definition shown_error :: "speedtest_row \<Rightarrow> json" where
  "shown_error r = (if st_success r then JNull else text_or (st_error r) ''Falha desconhecida no teste.'')"

lemma number_or: "or_default (of_option JFloat x) (JFloat 0) = JFloat (case x of Some y \<Rightarrow> y | None \<Rightarrow> 0)"
  by (cases x) (auto simp: or_default_def)

lemma test_dict_shown:
  assumes "j = speedtest_json (i, r) \<or> j = outcome_json r"
  shows "get_of j ''success'' = Inr s \<Longrightarrow> truthy s = st_success r" "\<exists>s. get_of j ''success'' = Inr s"
    "speed_result_of j = Inr (shown_test r)" "error_of j = Inr (shown_error r)"
  using assms
  by (cases "st_success r";
      auto simp: speedtest_json_def outcome_json_def outcome_fields_def get_of_def field_def speed_result_of_def
        shown_test_def shown_error_def number_or or_default_text bind_def error_of_def get_or_def failure_text_def;
      fail)+

lemma successes_shown:
  "successes (map speedtest_json rows) = Inr (map (shown_test \<circ> snd) (filter (st_success \<circ> snd) rows))"
proof (induction rows)
  case (Cons ir rows)
  obtain i r where ir: "ir = (i, r)" by (cases ir)
  from test_dict_shown [of "speedtest_json (i, r)" i r] Cons.IH show ?case by (auto simp: ir bind_def)
qed simp

lemma tests_shown:
  "apply_speedtest_history (JArr (map speedtest_json rows)) b =
    (b\<lparr>be_speedtest_history := map (shown_test \<circ> snd) (filter (st_success \<circ> snd) (rev rows)),
       be_speedtest_error := (case rows of [] \<Rightarrow> be_speedtest_error b | (i, r) # _ \<Rightarrow> shown_error r)\<rparr>, None)"
  using successes_shown [of "rev rows"] test_dict_shown(4) [of "speedtest_json (hd rows)" "fst (hd rows)" "snd (hd rows)"]
  by (cases rows) (auto simp: apply_speedtest_history_def assign_def bind_def simp flip: rev_map split: prod.split)

lemma new_test_shown:
  "apply_new_speedtest_result (outcome_json r) b =
    (b\<lparr>be_speedtest_running := False, be_speedtest_error := shown_error r,
       be_speedtest_history := be_speedtest_history b @ (if st_success r then [shown_test r] else [])\<rparr>, None)"
  using test_dict_shown [of "outcome_json r" 0 r] by (auto simp: apply_new_speedtest_result_def assign_def bind_def)

definition shown_alert :: "alert_row \<Rightarrow> (json, json) tui_alert" where
  "shown_alert r = \<lparr>ta_ts = JFloat (ar_ts r), ta_kind = JStr (ar_alert_type r), ta_description = JStr (ar_detail r)\<rparr>"

lemma alerts_shown:
  "apply_alerts (JArr (map alert_json rows)) b = (b\<lparr>be_alerts := map (shown_alert \<circ> snd) rows\<rparr>, None)"
proof -
  have "map_result alert_of_dict (map alert_json rows) = Inr (map (shown_alert \<circ> snd) rows)"
    by (rule map_result_Inr)
      (auto simp: alert_of_dict_def alert_json_def shown_alert_def bind_def field_def or_default_def split: prod.split)
  then show ?thesis by (simp add: apply_alerts_def assign_def bind_def)
qed

subsection \<open>Extra status\<close>

definition has_shape :: "json \<Rightarrow> string \<Rightarrow> (json \<Rightarrow> bool) \<Rightarrow> bool" where
  \<comment> \<open>absent, or of that shape\<close>
  "has_shape data k P \<longleftrightarrow> (\<forall>v. obj_get data k = Some v \<longrightarrow> P v)"

definition service_json :: "string \<times> string \<Rightarrow> json" where
  "service_json us = JObj [(''unit'', JStr (fst us)), (''state'', JStr (snd us))]"

definition services_shape :: "json \<Rightarrow> bool" where
  "services_shape v \<longleftrightarrow> (\<exists>us. v = JArr (map service_json us))"

definition docker_shape :: "json \<Rightarrow> bool" where
  "docker_shape v \<longleftrightarrow> v = not_available \<or> (\<exists>cs. v = JObj [(''available'', JBool True), (''containers'', JArr (map JObj cs))])"

definition fail2ban_shape :: "json \<Rightarrow> bool" where
  "fail2ban_shape v \<longleftrightarrow> v = not_available \<or> (\<exists>jails. v = fail2ban_json jails)"

definition smart_shape :: "json \<Rightarrow> bool" where
  "smart_shape v \<longleftrightarrow> v = not_available \<or> (\<exists>d. v = JObj [(''available'', JBool True), (''devices'', JObj d)])"

definition extra_ok :: "json \<Rightarrow> bool" where
  "extra_ok data \<longleftrightarrow> is_obj data \<and> has_shape data ''services'' services_shape \<and> has_shape data ''docker'' docker_shape
     \<and> has_shape data ''fail2ban'' fail2ban_shape \<and> has_shape data ''updates'' is_obj \<and> has_shape data ''smart'' smart_shape"

lemma section_cases:
  assumes "is_obj data" "has_shape data k P" "\<And>v. P v \<Longrightarrow> truthy v \<or> v = d"
  shows "\<exists>v. get_or data k d = Inr v \<and> (P v \<or> v = d)"
  using assms by (cases "obj_get data k") (auto simp: has_shape_def get_or_def get_of_def field_def or_default_def)

lemma shape_truthy:
  "services_shape v \<Longrightarrow> truthy v \<or> v = JArr []" "docker_shape v \<Longrightarrow> truthy v \<or> v = unavailable_dict"
  "fail2ban_shape v \<Longrightarrow> truthy v \<or> v = unavailable_dict" "smart_shape v \<Longrightarrow> truthy v \<or> v = unavailable_dict"
  by (auto simp: services_shape_def docker_shape_def fail2ban_shape_def fail2ban_json_def smart_shape_def not_available_def)

lemma services_apply:
  assumes "is_obj data" "has_shape data ''services'' services_shape"
  shows "\<exists>xs. each data ''services'' service_of_dict = Inr xs"
proof -
  obtain v where v: "get_or data ''services'' (JArr []) = Inr v" "services_shape v \<or> v = JArr []"
    using section_cases [OF assms shape_truthy(1)] by blast
  then obtain us where us: "v = JArr (map service_json us)" by (auto simp: services_shape_def)
  have "map_result service_of_dict (map service_json us) = Inr (map (\<lambda>(u, s). \<lparr>sc_name = JStr u, sc_status = map_service_state (JStr s)\<rparr>) us)"
    by (rule map_result_Inr) (auto simp: service_of_dict_def service_json_def bind_def)
  with v(1) us show ?thesis by (simp add: each_def bind_def)
qed

lemma docker_apply:
  assumes "is_obj data" "has_shape data ''docker'' docker_shape"
  shows "\<exists>v. get_or data ''docker'' unavailable_dict = Inr v \<and> (\<exists>a. is_available v = Inr a)
    \<and> (\<exists>xs. each v ''containers'' container_of_dict = Inr xs)"
proof -
  obtain v where v: "get_or data ''docker'' unavailable_dict = Inr v" "docker_shape v \<or> v = unavailable_dict"
    using section_cases [OF assms shape_truthy(2)] by blast
  have "\<exists>cs. get_or v ''containers'' (JArr []) = Inr (JArr (map JObj cs)) \<and> is_obj v"
  proof -
    have "\<exists>cs. JArr [] = JArr (map JObj cs)" "\<exists>cs'. JArr (map JObj cs) = JArr (map JObj cs')" for cs by auto
    then show ?thesis using v(2)
      by (auto simp: docker_shape_def not_available_def unavailable_dict_def get_or_def get_of_def field_def or_default_def)
  qed
  then obtain cs where cs: "get_or v ''containers'' (JArr []) = Inr (JArr (map JObj cs))" "is_obj v" by blast
  have "\<exists>xs. map_result container_of_dict (map JObj cs) = Inr xs"
    by (induction cs) (auto simp: container_of_dict_def bind_def)
  with v(1) cs show ?thesis by (auto simp: each_def bind_def is_available_def get_of_def)
qed

lemma fail2ban_apply:
  assumes "is_obj data" "has_shape data ''fail2ban'' fail2ban_shape" "text_keys (be_blocked_since b)"
  shows "\<exists>since bs. fail2ban_step now data b = (b\<lparr>be_blocked_since := since, be_blocked_ips := bs\<rparr>, None)
    \<and> text_keys since" "\<exists>a. bind (get_or data ''fail2ban'' unavailable_dict) is_available = Inr a"
proof -
  obtain v where v: "get_or data ''fail2ban'' unavailable_dict = Inr v" "fail2ban_shape v \<or> v = unavailable_dict"
    using section_cases [OF assms(1,2) shape_truthy(3)] by blast
  show "\<exists>a. bind (get_or data ''fail2ban'' unavailable_dict) is_available = Inr a"
    using v by (auto simp: bind_def is_available_def get_of_def fail2ban_shape_def fail2ban_json_def not_available_def
        unavailable_dict_def)
  show "\<exists>since bs. fail2ban_step now data b = (b\<lparr>be_blocked_since := since, be_blocked_ips := bs\<rparr>, None)
    \<and> text_keys since"
  proof (cases "\<exists>jails. v = fail2ban_json jails")
    case True
    then show ?thesis using bans_shown [OF assms(3)] v(1) by (auto simp: tracks_def) blast
  next
    case False
    then have "v = unavailable_dict" using v(2) by (auto simp: fail2ban_shape_def not_available_def unavailable_dict_def)
    then have "bind (get_or v ''banned_by_jail'' (JObj [])) py_items = Inr []"
      by (simp add: unavailable_dict_def get_or_def get_of_def field_def or_default_def bind_def)
    with v(1) show ?thesis
      by (auto simp: fail2ban_step_def bind_def still_banned_def text_keys_def)
  qed
qed

lemma updates_apply:
  assumes "is_obj data" "has_shape data ''updates'' is_obj"
  shows "\<exists>c m. updates_step data b = (b\<lparr>be_updates_count := c, be_updates_manager := m\<rparr>, None)"
proof -
  obtain v where v: "get_or data ''updates'' unavailable_dict = Inr v" "is_obj v"
    using assms by (cases "obj_get data ''updates''")
      (auto simp: has_shape_def get_or_def get_of_def field_def or_default_def unavailable_dict_def)
  have "\<exists>c m. b = b\<lparr>be_updates_count := c, be_updates_manager := m\<rparr>"
    by (intro exI [of _ "be_updates_count b"] exI [of _ "be_updates_manager b"]) simp
  with v show ?thesis
    by (auto simp: updates_step_def is_available_def get_of_def bind_def get_default_def assign_def)
qed

lemma smart_apply:
  assumes "is_obj data" "has_shape data ''smart'' smart_shape"
  shows "\<exists>xs. disk_health_of data = Inr xs"
proof -
  obtain v where v: "get_or data ''smart'' unavailable_dict = Inr v" "smart_shape v \<or> v = unavailable_dict"
    using section_cases [OF assms shape_truthy(4)] by blast
  then show ?thesis
    by (auto simp: disk_health_of_def bind_def is_available_def get_of_def get_or_def field_def or_default_def
        smart_shape_def not_available_def unavailable_dict_def)
qed

definition kept :: "backend \<Rightarrow> backend \<Rightarrow> bool" where
  \<comment> \<open>what an extra status leaves alone\<close>
  "kept b b' \<longleftrightarrow> link b' = link b \<and> be_history b' = be_history b \<and> be_raw_keys b' = be_raw_keys b
     \<and> be_ssh_keys b' = be_ssh_keys b \<and> be_sessions b' = be_sessions b
     \<and> be_speedtest_history b' = be_speedtest_history b"

lemma extra_applied:
  assumes "extra_ok data" "truthy data" "text_keys (be_blocked_since b)"
  shows "\<exists>b'. apply_extra_status now data b = (b', None) \<and> kept b b' \<and> text_keys (be_blocked_since b')
    \<and> be_dangerous b' = truthy (field data ''dangerous_actions_enabled'')"
proof -
  have shapes: "is_obj data" "has_shape data ''services'' services_shape" "has_shape data ''docker'' docker_shape"
    "has_shape data ''fail2ban'' fail2ban_shape" "has_shape data ''updates'' is_obj" "has_shape data ''smart'' smart_shape"
    using assms(1) by (simp_all add: extra_ok_def)
  obtain xs where xs: "each data ''services'' service_of_dict = Inr xs" using services_apply shapes by blast
  obtain v a cs where v: "get_or data ''docker'' unavailable_dict = Inr v" "is_available v = Inr a"
    "each v ''containers'' container_of_dict = Inr cs" using docker_apply shapes by blast
  obtain f where f: "bind (get_or data ''fail2ban'' unavailable_dict) is_available = Inr f"
    using fail2ban_apply(2) [OF shapes(1,4) assms(3)] by blast
  obtain hs where hs: "disk_health_of data = Inr hs" using smart_apply shapes by blast
  let ?b1 = "b\<lparr>be_services := xs, be_containers_available := a, be_containers := cs, be_fail2ban_available := f\<rparr>"
  have "text_keys (be_blocked_since ?b1)" using assms(3) by simp
  from fail2ban_apply(1) [OF shapes(1,4) this, of now] obtain since bs where
    f2: "fail2ban_step now data ?b1 = (?b1\<lparr>be_blocked_since := since, be_blocked_ips := bs\<rparr>, None)" "text_keys since" by blast
  let ?b2 = "?b1\<lparr>be_blocked_since := since, be_blocked_ips := bs\<rparr>"
  obtain c m where u: "updates_step data ?b2 = (?b2\<lparr>be_updates_count := c, be_updates_manager := m\<rparr>, None)"
    using updates_apply [OF shapes(1,5), of ?b2] by blast
  let ?b3 = "?b2\<lparr>be_updates_count := c, be_updates_manager := m, be_disk_health := hs,
      be_dangerous := truthy (field data ''dangerous_actions_enabled'')\<rparr>"
  have "get_of data ''dangerous_actions_enabled'' = Inr (field data ''dangerous_actions_enabled'')"
    using shapes(1) by (simp add: get_of_def)
  then have "apply_extra_status now data b = (?b3, None)"
    using assms(2) xs v f f2(1) u hs
    by (simp add: apply_extra_status_def extra_status_steps_def assign_def bind_def [of _ is_available]
        bind_def [of _ "\<lambda>d. each d ''containers'' container_of_dict"])
  moreover have "kept b ?b3" by (simp add: kept_def link_def)
  ultimately show ?thesis using f2(2) by (intro exI [of _ ?b3]) simp
qed

subsection \<open>The daemon's status has the shape\<close>

lemma service_statuses_shape: "service_statuses exec us = Inr rs \<Longrightarrow> \<exists>ps. rs = map service_json ps"
proof (induction us arbitrary: rs)
  case (Cons u us)
  then obtain st qs where "rs = JObj [(''unit'', JStr u), (''state'', JStr st)] # map service_json qs"
    by (auto split: sum.splits)
  then show ?case by (intro exI [of _ "(u, st) # qs"]) (simp add: service_json_def)
qed simp

lemma docker_lines_shape: "docker_lines ls = Inr cs \<Longrightarrow> \<exists>ds. cs = map JObj ds"
proof (induction ls arbitrary: cs)
  case (Cons l ls)
  show ?case
  proof (cases "docker_lines ls = Inr cs")
    case False
    with Cons.prems obtain d rest where "docker_lines ls = Inr rest" "cs = JObj d # rest"
      by (auto split: if_splits sum.splits exn.splits)
    with Cons.IH obtain ds where "cs = map JObj (d # ds)" by auto
    then show ?thesis by blast
  qed (rule Cons.IH)
qed simp

lemma docker_containers_shape: "docker_containers which exec = Inr v \<Longrightarrow> docker_shape v"
proof -
  assume v: "docker_containers which exec = Inr v"
  show ?thesis
  proof (cases "v = not_available")
    case False
    with v obtain ls cs where "docker_lines ls = Inr cs" "v = JObj [(''available'', JBool True), (''containers'', JArr cs)]"
      by (auto simp: docker_containers_def split: if_splits sum.splits option.splits)
    with docker_lines_shape show ?thesis by (auto simp: docker_shape_def)
  qed (simp add: docker_shape_def)
qed


lemma update_jails:
  "AList.update j (JArr (map JStr ips)) (map (\<lambda>(j, ips). (j, JArr (map JStr ips))) d) =
     map (\<lambda>(j, ips). (j, JArr (map JStr ips))) (AList.update j ips d)"
  by (induction d) auto

lemma banned_of_shape:
  "banned_of exec js (map (\<lambda>(j, ips). (j, JArr (map JStr ips))) d) = Inr r \<Longrightarrow>
     \<exists>d'. r = map (\<lambda>(j, ips). (j, JArr (map JStr ips))) d'"
proof (induction js arbitrary: d)
  case (Cons j js)
  then show ?case by (auto simp: update_jails split: sum.splits option.splits if_splits)
qed auto

lemma fail2ban_status_shape: "fail2ban_banned_ips which exec = Inr v \<Longrightarrow> fail2ban_shape v"
proof -
  assume v: "fail2ban_banned_ips which exec = Inr v"
  have "\<exists>jails. r = map (\<lambda>(j, ips). (j, JArr (map JStr ips))) jails" if "banned_of exec js [] = Inr r" for js r
    using banned_of_shape [of exec js "[]" r] that by simp
  with v show ?thesis
    by (fastforce simp: fail2ban_banned_ips_def fail2ban_shape_def fail2ban_json_def split: if_splits sum.splits option.splits)
qed

lemma smart_status_shape: "smart_status which exec latest = Inr v \<Longrightarrow> smart_shape v"
  by (auto simp: smart_status_def disk_smart_health_def smart_shape_def split: if_splits sum.splits)

lemma pending_updates_shape: "pending_updates which exec = Inr v \<Longrightarrow> is_obj v"
  by (auto simp: pending_updates_def dnf_updates_def not_available_def updates_found_def split: if_splits sum.splits option.splits)

lemma collect_status_in: "(n, j) \<in> set (collect_status secs) \<Longrightarrow> (n, True, Inr j) \<in> set secs"
  by (induction secs) (auto split: if_splits sum.splits)

lemma status_cache_ok:
  "extra_ok (JObj ((''available'', JBool True) # collect_status (status_sections f which exec latest)))"
proof -
  let ?cs = "collect_status (status_sections f which exec latest)"
  have at: "(k, True, Inr v) \<in> set (status_sections f which exec latest)"
    if "map_of ?cs k = Some v" for k v
    using collect_status_in [OF map_of_SomeD [OF that]] by blast
  have "services_shape v" if "map_of ?cs ''services'' = Some v" for v
    using at [OF that] service_statuses_shape
    by (cases "service_statuses exec KEY_SERVICE_UNITS") (auto simp: status_sections_def services_shape_def)
  moreover have "docker_shape v" if "map_of ?cs ''docker'' = Some v" for v
    using at [OF that] docker_containers_shape by (auto simp: status_sections_def)
  moreover have "fail2ban_shape v" if "map_of ?cs ''fail2ban'' = Some v" for v
    using at [OF that] fail2ban_status_shape by (auto simp: status_sections_def)
  moreover have "is_obj v" if "map_of ?cs ''updates'' = Some v" for v
    using at [OF that] pending_updates_shape by (auto simp: status_sections_def)
  moreover have "smart_shape v" if "map_of ?cs ''smart'' = Some v" for v
    using at [OF that] smart_status_shape by (auto simp: status_sections_def)
  ultimately show ?thesis by (simp add: extra_ok_def has_shape_def)
qed

lemma shape_update: "k \<noteq> k' \<Longrightarrow> has_shape (JObj (AList.update k' v kvs)) k P = has_shape (JObj kvs) k P"
  by (simp add: has_shape_def update_conv')

lemma extra_ok_flag: "extra_ok (JObj kvs) \<Longrightarrow> extra_ok (JObj (AList.update ''dangerous_actions_enabled'' v kvs))"
  by (simp add: extra_ok_def shape_update)

end
