(* ===== verification/Tui_Session.thy ===== *)
theory Tui_Session
  imports Tui_Status Daemon
begin

section \<open>The client and the daemon together\<close>

text \<open>
  \<open>backend.py\<close> talking to \<open>socket_server.py\<close>: \<open>exchange\<close> hands the client's last request to the
  server and what the server writes back to the client, through the text of the frames.
  \<open>loading_session\<close> follows the seven requests of the loading sequence to the end.
\<close>

definition sent_to :: "nat \<Rightarrow> server \<Rightarrow> string list" where
  "sent_to cid sv = (case client_at cid sv of Some c \<Rightarrow> cl_out c | None \<Rightarrow> [])"

definition hear :: "tui_env \<Rightarrow> string list \<Rightarrow> backend \<Rightarrow> backend" where
  "hear env ls b = foldl (\<lambda>b l. backend_turn env (Receive l) b) b ls"

definition exchange :: "server_env \<Rightarrow> tui_env \<Rightarrow> nat \<Rightarrow> server \<times> backend \<Rightarrow> server \<times> backend" where
  "exchange senv env cid st = (case st of (sv, b) \<Rightarrow>
     (let sv' = fst (handle_input senv cid (Line (last (be_written b))) sv) in
       (sv', hear env (drop (length (sent_to cid sv)) (sent_to cid sv')) b)))"

subsection \<open>One exchange\<close>

definition awaiting :: "tui_env \<Rightarrow> waiter \<Rightarrow> string \<Rightarrow> (string \<times> json) list \<Rightarrow> backend \<Rightarrow> bool" where
  "awaiting env w cmd args b \<longleftrightarrow> be_phase b = Loading \<and> be_reading b \<and> be_writer b = Some True
     \<and> be_connection b = Connected \<and> be_pending b = [(be_next_id b - 1, Some w)]
     \<and> be_written b \<noteq> [] \<and> last (be_written b) = frame (te_ft env) (request_json cmd (be_next_id b - 1) args)"

definition sent :: "tui_env \<Rightarrow> waiter \<Rightarrow> string \<Rightarrow> (string \<times> json) list \<Rightarrow> backend \<Rightarrow> backend" where
  "sent env w cmd args b = b\<lparr>be_next_id := be_next_id b + 1, be_pending := [(be_next_id b, Some w)],
     be_written := be_written b @ [frame (te_ft env) (request_json cmd (be_next_id b) args)]\<rparr>"

definition free :: "backend \<Rightarrow> bool" where
  "free b \<longleftrightarrow> be_phase b = Loading \<and> be_reading b \<and> be_writer b = Some True \<and> be_connection b = Connected \<and> be_pending b = []"

lemma free_link: "link b = link b' \<Longrightarrow> free b = free b'"
  using link_eqs [of b b'] by (simp add: free_def)

lemma send_free: "free b \<Longrightarrow> send_request env cmd args w b = (sent env w cmd args b, None) \<and> awaiting env w cmd args (sent env w cmd args b)"
  by (simp add: send_request_def free_def sent_def awaiting_def Let_def frame_def)

definition answered_with :: "server_env \<Rightarrow> nat \<Rightarrow> string \<Rightarrow> (string \<times> json) list \<Rightarrow> json \<Rightarrow> server \<Rightarrow> server \<Rightarrow> bool" where
  \<comment> \<open>the server has a handler for the command, and it succeeds with printable data\<close>
  "answered_with senv cid cmd args data sv sv1 \<longleftrightarrow> (\<exists>h. find_handler (JStr cmd) = Some h
     \<and> h senv cid (JObj args) sv = (sv1, Inr data)) \<and> json_ok (se_ft senv) data"

lemma exchange_answered:
  assumes "awaiting env w cmd args b" "json_ok (te_ft env) (JObj args)"
    "client_at cid sv = Some c" "\<not> cl_gone c" "answered_with senv cid cmd args data sv sv1"
  shows "\<exists>m. exchange senv env cid (sv, b) = (at_client cid (send_to (se_ft senv) m) sv1,
      continue env w (Inr (or_default data (JObj []))) (b\<lparr>be_pending := []\<rparr>))"
proof -
  let ?n = "be_next_id b - 1"
  let ?req = "request_json cmd ?n args"
  let ?m = "reply (JInt ?n) (Inr data)"
  obtain h where h: "find_handler (JStr cmd) = Some h" "h senv cid (JObj args) sv = (sv1, Inr data)"
    and ok: "json_ok (se_ft senv) data" using assms(5) by (auto simp: answered_with_def)
  have "json_ok (te_ft env) ?req" using assms(2) by (simp add: request_json_def)
  then have req: "loads (frame (te_ft env) ?req) = Inr ?req" by (rule loads_frame)
  have "request_args ?req = JObj args"
    by (cases args) (simp_all add: request_args_def field_def request_json_def Let_def)
  then have d: "dispatch senv cid ?req sv = (at_client cid (send_to (se_ft senv) ?m) sv1, None)"
    using h by (simp add: dispatch_def Let_def field_def request_json_def)
  have "frame (te_ft env) ?req \<noteq> []" by (simp add: frame_def)
  then have sv: "fst (handle_input senv cid (Line (last (be_written b))) sv) = at_client cid (send_to (se_ft senv) ?m) sv1"
    using assms(1) req d by (simp add: awaiting_def handle_input_def)
  have out: "drop (length (sent_to cid sv)) (sent_to cid (at_client cid (send_to (se_ft senv) ?m) sv1)) = [frame (se_ft senv) ?m]"
    using command.answered [OF find_handler_quiet [OF h(1)] h(2) assms(3), of "JInt ?n"] assms(3,4)
    by (auto simp: sent_to_def)
  have m: "loads (frame (se_ft senv) ?m) = Inr ?m" using ok by (intro loads_frame) (simp add: reply_def)
  have pend: "pending_id (JInt ?n) b = Some (?n, Some w)" "take_pending ?n b = b\<lparr>be_pending := []\<rparr>"
    using assms(1) by (simp_all add: pending_id_def take_pending_def awaiting_def py_eq_def)
  have "response_data env ?m = Inr (or_default data (JObj []))"
    by (simp add: response_data_def reply_def get_of_def get_or_def field_def bind_def)
  then have "handle_message_json env ?m b = (continue env w (Inr (or_default data (JObj []))) (b\<lparr>be_pending := []\<rparr>), None)"
    using pend by (simp add: handle_message_json_def reply_def handle_reply_def)
  moreover have "frame (se_ft senv) ?m \<noteq> []" by (simp add: frame_def)
  ultimately have "hear env [frame (se_ft senv) ?m] b = continue env w (Inr (or_default data (JObj []))) (b\<lparr>be_pending := []\<rparr>)"
    using assms(1) m by (simp add: hear_def read_line_def awaiting_def)
  with sv out have "exchange senv env cid (sv, b) = (at_client cid (send_to (se_ft senv) ?m) sv1,
      continue env w (Inr (or_default data (JObj []))) (b\<lparr>be_pending := []\<rparr>))" by (simp add: exchange_def Let_def)
  then show ?thesis by blast
qed

lemma continue_load:
  "is_load w \<Longrightarrow> load_step env w data b = (b', None) \<Longrightarrow> continue env w (Inr data) b = b'"
  by (simp add: continue_def resume_def)

subsection \<open>The server during the loading\<close>

definition STREAMS :: "json list" where
  "STREAMS = [JStr ''metrics'', JStr ''login_event'', JStr ''speedtest_result'']"

definition serving :: "nat \<Rightarrow> server \<Rightarrow> server \<Rightarrow> bool" where
  \<comment> \<open>what \<open>sv\<close> still has of \<open>sv0\<close>, and the client's subscriptions\<close>
  "serving cid sv0 sv \<longleftrightarrow> sv_world sv = sv_world sv0 \<and> sv_latest sv = sv_latest sv0 \<and> sv_extra sv = sv_extra sv0
     \<and> (\<exists>c. client_at cid sv = Some c \<and> \<not> cl_gone c \<and> set STREAMS \<subseteq> set (cl_subs c))"

lemma serving_sent: "serving cid sv0 sv \<Longrightarrow> serving cid sv0 (at_client cid (send_to ft m) sv)"
  by (auto simp: serving_def server_simps)

lemma subscribe_answered:
  assumes "client_at cid sv = Some c" "cl_subs c = []" "\<not> cl_gone c"
  shows "\<exists>sv1 data. answered_with senv cid ''subscribe'' [(''streams'', JArr STREAMS)] data sv sv1
    \<and> serving cid sv sv1 \<and> sv_keys sv1 = sv_keys sv"
proof -
  let ?sv = "at_client cid (\<lambda>c. c\<lparr>cl_subs := set_union (cl_subs c) STREAMS\<rparr>) sv"
  have u: "set_union [] STREAMS = STREAMS" by (simp add: set_union_def set_add_def STREAMS_def)
  have at: "client_at cid ?sv = Some (c\<lparr>cl_subs := STREAMS\<rparr>)" using assms u by (simp add: server_simps)
  then have subs: "subs_of cid ?sv = STREAMS" by (simp add: subs_of_def client_at_def)
  obtain ys where ys: "py_sorted STREAMS = Inr ys" "mset ys = mset STREAMS"
    using py_sorted_strs [of STREAMS] by (auto simp: STREAMS_def)
  have "set ys = set STREAMS" using ys(2) by (metis set_mset_mset)
  then have ok: "json_ok (se_ft senv) (JObj [(''subscribed'', JArr ys)])" by (auto simp: STREAMS_def)
  have "py_set (JArr STREAMS) = Inr STREAMS" using u by (simp add: STREAMS_def)
  then have "cmd_subscribe senv cid (JObj [(''streams'', JArr STREAMS)]) sv = (?sv, Inr (JObj [(''subscribed'', JArr ys)]))"
    using ys(1) subs by (simp add: cmd_subscribe_def change_subs_def args_get_def Let_def)
  with ok have "answered_with senv cid ''subscribe'' [(''streams'', JArr STREAMS)] (JObj [(''subscribed'', JArr ys)]) sv ?sv"
    by (simp add: answered_with_def find_handler_def COMMANDS_def)
  moreover have "serving cid sv ?sv" using at assms by (simp add: serving_def server_simps)
  moreover have "sv_keys ?sv = sv_keys sv" by (simp add: at_client_def map_clients_def)
  ultimately show ?thesis by blast
qed

definition newest_logins :: "server \<Rightarrow> (int \<times> login_event) list" where
  "newest_logins sv = limit_rows (int MAX_LOGIN_HISTORY) (order_desc (le_ts \<circ> snd) (tb_rows (login_events (sv_db sv))))"

definition newest_tests :: "server \<Rightarrow> (int \<times> speedtest_row) list" where
  "newest_tests sv = limit_rows 200 (order_desc (st_ts \<circ> snd) (tb_rows (speedtest_results (sv_db sv))))"

definition newest_alerts :: "server \<Rightarrow> (int \<times> alert_row) list" where
  "newest_alerts sv = limit_rows 200 (sorter_desc (ar_ts \<circ> snd) (tb_rows (alert_log (sv_db sv))))"

definition sessions_now :: "server_env \<Rightarrow> server \<Rightarrow> ssh_session list" where
  "sessions_now senv sv = active_ssh_sessions (se_users senv) (se_now senv) (sv_db sv)"

definition dangerous :: "features_config \<Rightarrow> bool" where
  "dangerous f \<longleftrightarrow> ft_allow_service_restart f \<or> ft_allow_reboot f"

definition snapshot_data :: "server_env \<Rightarrow> server \<Rightarrow> json" where
  "snapshot_data senv sv = JObj [(''metrics'', sv_latest sv), (''active_sessions'', JArr (map session_json (sessions_now senv sv)))]"

definition status_data :: "server_env \<Rightarrow> (string \<times> json) list \<Rightarrow> json" where
  "status_data senv kvs = JObj (AList.update ''dangerous_actions_enabled'' (JBool (dangerous (se_features senv))) kvs)"

definition listing_data :: "string \<Rightarrow> ('a \<Rightarrow> json) \<Rightarrow> 'a list \<Rightarrow> json" where
  "listing_data name f xs = JObj [(name, JArr (map f xs))]"

lemma serving_same: "serving cid sv0 sv \<Longrightarrow> sv_db sv = sv_db sv0 \<and> newest_logins sv = newest_logins sv0
    \<and> newest_tests sv = newest_tests sv0 \<and> newest_alerts sv = newest_alerts sv0
    \<and> sessions_now senv sv = sessions_now senv sv0 \<and> snapshot_data senv sv = snapshot_data senv sv0"
  by (simp add: serving_def sv_db_def newest_logins_def newest_tests_def newest_alerts_def sessions_now_def snapshot_data_def)

lemma answered_limit:
  "answered_with senv cid ''get_login_history'' [(''limit'', JInt (int MAX_LOGIN_HISTORY))]
     (listing_data ''events'' login_event_json (newest_logins sv)) sv sv \<longleftrightarrow>
   json_ok (se_ft senv) (listing_data ''events'' login_event_json (newest_logins sv))"
  "answered_with senv cid ''get_speedtest_history'' [(''limit'', JInt 200)]
     (listing_data ''results'' speedtest_json (newest_tests sv)) sv sv \<longleftrightarrow>
   json_ok (se_ft senv) (listing_data ''results'' speedtest_json (newest_tests sv))"
  "answered_with senv cid ''get_alerts'' [(''limit'', JInt 200)]
     (listing_data ''alerts'' alert_json (newest_alerts sv)) sv sv \<longleftrightarrow>
   json_ok (se_ft senv) (listing_data ''alerts'' alert_json (newest_alerts sv))"
  by (simp_all add: answered_with_def find_handler_def COMMANDS_def cmd_get_login_history_def cmd_get_speedtest_history_def
      cmd_get_alerts_def int_arg_def args_get_def listing_def recent_login_events_def recent_speedtest_results_def
      recent_alerts_def sql_int_def MAX_LOGIN_HISTORY_def newest_logins_def newest_tests_def newest_alerts_def listing_data_def)

lemma answered_plain:
  "answered_with senv cid ''get_snapshot'' [] (snapshot_data senv sv) sv sv \<longleftrightarrow> json_ok (se_ft senv) (snapshot_data senv sv)"
  "sv_extra sv = JObj kvs \<Longrightarrow> answered_with senv cid ''get_extra_status'' [] (status_data senv kvs) sv sv \<longleftrightarrow>
     json_ok (se_ft senv) (status_data senv kvs)"
  by (simp_all add: answered_with_def find_handler_def COMMANDS_def cmd_get_snapshot_def cmd_get_extra_status_def
      snapshot_data_def sessions_now_def status_data_def dangerous_def)

lemma answered_keys:
  "all_keys (se_file senv) (sv_keys sv) = (ks', Inr ks) \<Longrightarrow>
     answered_with senv cid ''get_keys'' [] (listing_data ''keys'' key_entry_json ks) sv (sv\<lparr>sv_keys := ks'\<rparr>)"
  by (auto simp: answered_with_def find_handler_def COMMANDS_def cmd_get_keys_def listing_def listing_data_def key_entry_json_def)

subsection \<open>The client during the loading\<close>

definition latest_ok :: "json \<Rightarrow> bool" where
  \<comment> \<open>no snapshot yet, or the last one\<close>
  "latest_ok j \<longleftrightarrow> j = JObj [] \<or> (\<exists>s gpu. gpu_reading gpu \<and> j = snapshot_json s gpu)"

definition apart :: "backend \<Rightarrow> backend \<Rightarrow> bool" where
  \<comment> \<open>same connection, keys, history and bans\<close>
  "apart b b' \<longleftrightarrow> link b' = link b \<and> be_history b' = be_history b \<and> be_raw_keys b' = be_raw_keys b
     \<and> be_blocked_since b' = be_blocked_since b"

lemma metrics_apart:
  assumes "latest_ok j"
  shows "\<exists>b'. apply_metrics j b = (b', None) \<and> apart b b'"
proof (cases "j = JObj []")
  case True
  then show ?thesis by (simp add: apply_metrics_def apart_def)
next
  case False
  then obtain s gpu where j: "gpu_reading gpu" "j = snapshot_json s gpu" using assms by (auto simp: latest_ok_def)
  obtain ts where "apply_metrics j b = (shown_metrics s gpu ts b, None)" using metrics_shown [OF j(1)] j(2) by blast
  moreover have "apart b (shown_metrics s gpu ts b)" by (simp add: apart_def shown_metrics_def link_def)
  ultimately show ?thesis by blast
qed

lemma field_listing:
  "from_field (listing_data k f xs) k (JArr []) g b = g (JArr (map f xs)) b" "or_default (listing_data k f xs) d = listing_data k f xs"
  by (cases xs; simp add: from_field_def listing_data_def get_or_def get_of_def field_def or_default_def)+

lemma load_snapshot:
  assumes "free b" "latest_ok (sv_latest sv)" "\<forall>x\<in>set (sessions_now senv sv). ss_started_ts x \<noteq> 0"
  shows "\<exists>b1. load_step env Load_Snapshot (snapshot_data senv sv) b =
      (sent env Load_History ''get_login_history'' [(''limit'', JInt (int MAX_LOGIN_HISTORY))] b1, None)
    \<and> free b1 \<and> apart b b1 \<and> be_sessions b1 = map shown_session (sessions_now senv sv)"
proof -
  obtain b' where m: "apply_metrics (sv_latest sv) b = (b', None)" "apart b b'"
    using metrics_apart [OF assms(2)] by blast
  let ?b1 = "b'\<lparr>be_sessions := map shown_session (sessions_now senv sv)\<rparr>"
  have f: "from_field (snapshot_data senv sv) ''metrics'' (JObj []) apply_metrics b = (b', None)"
    using m(1) by (cases "truthy (sv_latest sv)")
      (simp_all add: from_field_def snapshot_data_def get_or_def get_of_def field_def or_default_def apply_metrics_def)
  have "get_or (snapshot_data senv sv) ''active_sessions'' (JArr []) = Inr (JArr (map session_json (sessions_now senv sv)))"
    by (cases "sessions_now senv sv") (simp_all add: snapshot_data_def get_or_def get_of_def field_def or_default_def)
  then have s: "from_field (snapshot_data senv sv) ''active_sessions'' (JArr []) (apply_active_sessions now) b' = (?b1, None)" for now
    using sessions_shown [OF assms(3)] by (simp add: from_field_def)
  have "link b = link ?b1" "apart b ?b1" using m(2) by (simp_all add: apart_def link_def)
  then have "free ?b1" using assms(1) free_link by blast
  with f s send_free [OF \<open>free ?b1\<close>] \<open>apart b ?b1\<close> show ?thesis by (intro exI [of _ ?b1]) simp
qed

lemma load_history:
  assumes "free b" "be_raw_keys b = JArr (map key_entry_json ks)"
  shows "\<exists>b1. load_step env Load_History (listing_data ''events'' login_event_json rows) b = (sent env Load_Keys ''get_keys'' [] b1, None)
    \<and> free b1 \<and> be_history b1 = map (shown_login \<circ> snd) rows \<and> be_sessions b1 = be_sessions b
    \<and> be_blocked_since b1 = be_blocked_since b"
proof -
  let ?h = "map (shown_login \<circ> snd) rows"
  let ?b1 = "b\<lparr>be_history := ?h, be_ssh_keys := map (shown_key ?h) ks\<rparr>"
  have "link b = link ?b1" by (simp add: link_def)
  then have "free ?b1" using assms(1) free_link by blast
  then show ?thesis
    using history_shown [OF assms(2), of rows] send_free by (intro exI [of _ ?b1]) (simp add: field_listing Let_def)
qed

lemma load_keys:
  assumes "free b" "text_labels (be_history b)"
  shows "\<exists>b1. load_step env Load_Keys (listing_data ''keys'' key_entry_json ks) b =
      (sent env Load_Tests ''get_speedtest_history'' [(''limit'', JInt 200)] b1, None)
    \<and> free b1 \<and> be_history b1 = be_history b \<and> be_ssh_keys b1 = map (shown_key (be_history b)) ks
    \<and> be_raw_keys b1 = JArr (map key_entry_json ks) \<and> be_sessions b1 = be_sessions b \<and> be_blocked_since b1 = be_blocked_since b"
proof -
  let ?b1 = "b\<lparr>be_raw_keys := JArr (map key_entry_json ks), be_ssh_keys := map (shown_key (be_history b)) ks\<rparr>"
  have "link b = link ?b1" by (simp add: link_def)
  then have "free ?b1" using assms(1) free_link by blast
  then show ?thesis
    using keys_shown [OF assms(2), of ks] send_free by (intro exI [of _ ?b1]) (simp add: field_listing)
qed

lemma load_tests:
  assumes "free b"
  shows "\<exists>b1. load_step env Load_Tests (listing_data ''results'' speedtest_json rows) b =
      (sent env Load_Extra ''get_extra_status'' [] b1, None)
    \<and> free b1 \<and> be_speedtest_history b1 = map (shown_test \<circ> snd) (filter (st_success \<circ> snd) (rev rows))
    \<and> be_history b1 = be_history b \<and> be_ssh_keys b1 = be_ssh_keys b \<and> be_raw_keys b1 = be_raw_keys b
    \<and> be_sessions b1 = be_sessions b \<and> be_blocked_since b1 = be_blocked_since b"
proof -
  obtain b1 where b1: "apply_speedtest_history (JArr (map speedtest_json rows)) b = (b1, None)"
    "b1 = b\<lparr>be_speedtest_history := map (shown_test \<circ> snd) (filter (st_success \<circ> snd) (rev rows)), be_speedtest_error := be_speedtest_error b1\<rparr>"
    using tests_shown [of rows b] by simp
  have "link b = link b1" by (subst b1(2)) (simp add: link_def)
  then have "free b1" using assms(1) free_link by blast
  moreover have "be_speedtest_history b1 = map (shown_test \<circ> snd) (filter (st_success \<circ> snd) (rev rows))"
    "be_history b1 = be_history b" "be_ssh_keys b1 = be_ssh_keys b" "be_raw_keys b1 = be_raw_keys b"
    "be_sessions b1 = be_sessions b" "be_blocked_since b1 = be_blocked_since b"
    by (subst b1(2), simp)+
  ultimately show ?thesis using b1(1) send_free by (intro exI [of _ b1]) (simp add: field_listing)
qed

lemma load_extra:
  assumes "free b" "extra_ok (JObj kvs)" "text_keys (be_blocked_since b)"
  shows "\<exists>b1. load_step env Load_Extra (status_data senv kvs) b =
      (sent env Load_Alerts ''get_alerts'' [(''limit'', JInt 200)] b1, None)
    \<and> free b1 \<and> kept b b1 \<and> text_keys (be_blocked_since b1) \<and> be_dangerous b1 = dangerous (se_features senv)"
proof -
  let ?d = "status_data senv kvs"
  have ok: "extra_ok ?d" using extra_ok_flag [OF assms(2)] by (simp add: status_data_def)
  have flag: "field ?d ''dangerous_actions_enabled'' = JBool (dangerous (se_features senv))"
    by (simp add: status_data_def field_def update_conv')
  have "AList.update k v kvs \<noteq> []" for k and v :: json by (cases kvs) auto
  then have t: "truthy ?d" by (simp add: status_data_def)
  from extra_applied [OF ok t assms(3)] obtain b1 where b1: "apply_extra_status (te_now env) ?d b = (b1, None)"
    "kept b b1" "text_keys (be_blocked_since b1)" "be_dangerous b1 = dangerous (se_features senv)" using flag by auto
  then have "free b1" using assms(1) free_link by (metis kept_def)
  with b1 send_free show ?thesis by (intro exI [of _ b1]) simp
qed

lemma load_alerts:
  "load_step env Load_Alerts (listing_data ''alerts'' alert_json rows) b =
     (b\<lparr>be_alerts := map (shown_alert \<circ> snd) rows, be_ready := True, be_phase := Running\<rparr>, None)"
  using alerts_shown [of rows b] by (simp add: field_listing)

subsection \<open>The whole session\<close>

lemma load_exchange:
  assumes "awaiting env w cmd args b" "json_ok (te_ft env) (JObj args)" "client_at cid sv = Some c" "\<not> cl_gone c"
    "answered_with senv cid cmd args data sv sv1" "serving cid sv0 sv1" "is_load w" "or_default data (JObj []) = data"
    "load_step env w data (b\<lparr>be_pending := []\<rparr>) = (b1, None)"
  shows "\<exists>sv2. exchange senv env cid (sv, b) = (sv2, b1) \<and> serving cid sv0 sv2 \<and> sv_keys sv2 = sv_keys sv1"
proof -
  obtain m where "exchange senv env cid (sv, b) = (at_client cid (send_to (se_ft senv) m) sv1,
      continue env w (Inr data) (b\<lparr>be_pending := []\<rparr>))"
    using exchange_answered [OF assms(1-5)] assms(8) by auto
  moreover have "serving cid sv0 (at_client cid (send_to (se_ft senv) m) sv1)" using assms(6) by (rule serving_sent)
  moreover have "sv_keys (at_client cid (send_to (se_ft senv) m) sv1) = sv_keys sv1"
    by (simp add: at_client_def map_clients_def)
  ultimately show ?thesis using continue_load [OF assms(7,9)] by simp
qed

lemma awaiting_free: "awaiting env w cmd args b \<Longrightarrow> free (b\<lparr>be_pending := []\<rparr>)"
  by (simp add: awaiting_def free_def)

lemma sent_simps [simp]:
  "be_history (sent env w cmd args b) = be_history b" "be_raw_keys (sent env w cmd args b) = be_raw_keys b"
  "be_ssh_keys (sent env w cmd args b) = be_ssh_keys b" "be_blocked_since (sent env w cmd args b) = be_blocked_since b"
  "be_sessions (sent env w cmd args b) = be_sessions b" "be_speedtest_history (sent env w cmd args b) = be_speedtest_history b"
  "be_dangerous (sent env w cmd args b) = be_dangerous b"
  by (simp_all add: sent_def)

lemma serving_client: "serving cid sv0 sv \<Longrightarrow> \<exists>c. client_at cid sv = Some c \<and> \<not> cl_gone c"
  by (auto simp: serving_def)

definition printable :: "server_env \<Rightarrow> server \<Rightarrow> (string \<times> json) list \<Rightarrow> bool" where
  \<comment> \<open>every number in the daemon's replies prints as JSON\<close>
  "printable senv sv kvs \<longleftrightarrow> json_ok (se_ft senv) (snapshot_data senv sv)
     \<and> json_ok (se_ft senv) (listing_data ''events'' login_event_json (newest_logins sv))
     \<and> json_ok (se_ft senv) (listing_data ''results'' speedtest_json (newest_tests sv))
     \<and> json_ok (se_ft senv) (status_data senv kvs)
     \<and> json_ok (se_ft senv) (listing_data ''alerts'' alert_json (newest_alerts sv))"

definition loadable :: "server_env \<Rightarrow> server \<Rightarrow> (string \<times> json) list \<Rightarrow> bool" where
  "loadable senv sv kvs \<longleftrightarrow> latest_ok (sv_latest sv) \<and> (\<forall>x\<in>set (sessions_now senv sv). ss_started_ts x \<noteq> 0)
     \<and> sv_extra sv = JObj kvs \<and> extra_ok (JObj kvs) \<and> printable senv sv kvs"

definition loaded :: "server_env \<Rightarrow> server \<Rightarrow> key_entry list \<Rightarrow> backend \<Rightarrow> bool" where
  \<comment> \<open>the client shows what the daemon has\<close>
  "loaded senv sv ks b \<longleftrightarrow> be_ready b \<and> be_phase b = Running \<and> be_connection b = Connected \<and> be_pending b = []
     \<and> be_history b = map (shown_login \<circ> snd) (newest_logins sv)
     \<and> be_ssh_keys b = map (shown_key (be_history b)) ks
     \<and> be_sessions b = map shown_session (sessions_now senv sv)
     \<and> be_speedtest_history b = map (shown_test \<circ> snd) (filter (st_success \<circ> snd) (rev (newest_tests sv)))
     \<and> be_alerts b = map (shown_alert \<circ> snd) (newest_alerts sv)
     \<and> be_dangerous b = dangerous (se_features senv)"

abbreviation LIMIT :: "(string \<times> json) list" where
  "LIMIT \<equiv> [(''limit'', JInt (int MAX_LOGIN_HISTORY))]"

abbreviation LIMIT_200 :: "(string \<times> json) list" where
  "LIMIT_200 \<equiv> [(''limit'', JInt 200)]"

lemma stage_subscribe:
  assumes "link_ok b" "be_phase b = Idle" "client_at cid sv = Some c" "cl_subs c = []" "\<not> cl_gone c"
  shows "\<exists>sv1 b1. exchange senv env cid (sv, backend_turn env (Attempt True) b) = (sv1, b1)
    \<and> awaiting env Load_Snapshot ''get_snapshot'' [] b1 \<and> serving cid sv sv1 \<and> sv_keys sv1 = sv_keys sv
    \<and> be_history b1 = be_history b \<and> be_raw_keys b1 = be_raw_keys b \<and> be_blocked_since b1 = be_blocked_since b"
proof -
  let ?b = "b\<lparr>be_writer := Some True, be_connection := Connected, be_phase := Loading, be_reading := True\<rparr>"
  have "free ?b" using assms(1,2) by (simp add: free_def link_ok_def table_ok_def)
  note s = send_free [OF this, of env "''subscribe''" "[(''streams'', JArr STREAMS)]" Subscribe]
  define a where "a = sent env Subscribe ''subscribe'' [(''streams'', JArr STREAMS)] ?b"
  have a: "backend_turn env (Attempt True) b = a" "awaiting env Subscribe ''subscribe'' [(''streams'', JArr STREAMS)] a"
    using assms(2) s by (simp_all add: connect_def STREAMS_def a_def)
  have fields: "be_history a = be_history b" "be_raw_keys a = be_raw_keys b" "be_blocked_since a = be_blocked_since b"
    by (simp_all add: a_def)
  obtain svs data where sub: "answered_with senv cid ''subscribe'' [(''streams'', JArr STREAMS)] data sv svs"
    "serving cid sv svs" "sv_keys svs = sv_keys sv" using subscribe_answered [OF assms(3-5)] by blast
  let ?b1 = "sent env Load_Snapshot ''get_snapshot'' [] (a\<lparr>be_pending := []\<rparr>)"
  have next_b: "send_request env ''get_snapshot'' [] Load_Snapshot (a\<lparr>be_pending := []\<rparr>) = (?b1, None)"
    "awaiting env Load_Snapshot ''get_snapshot'' [] ?b1"
    using send_free [OF awaiting_free [OF a(2)]] by auto
  have "json_ok (te_ft env) (JObj [(''streams'', JArr STREAMS)])" by (simp add: STREAMS_def)
  from exchange_answered [OF a(2) this assms(3,5) sub(1)] obtain m where
    "exchange senv env cid (sv, a) = (at_client cid (send_to (se_ft senv) m) svs,
      continue env Subscribe (Inr (or_default data (JObj []))) (a\<lparr>be_pending := []\<rparr>))" by blast
  moreover have "continue env Subscribe (Inr d) (a\<lparr>be_pending := []\<rparr>) = ?b1" for d
    by (rule continue_load) (simp_all add: is_load_def next_b)
  ultimately show ?thesis
    using next_b(2) serving_sent [OF sub(2)] sub(3) a(1) fields by (simp add: at_client_def map_clients_def)
qed

lemma stage:
  assumes "awaiting env w cmd args b" "json_ok (te_ft env) (JObj args)" "serving cid sv0 sv"
    "answered_with senv cid cmd args data sv sv1" "serving cid sv0 sv1" "is_load w" "or_default data (JObj []) = data"
    "load_step env w data (b\<lparr>be_pending := []\<rparr>) = (sent env w' cmd' args' b1, None)" "free b1"
  shows "\<exists>sv2. exchange senv env cid (sv, b) = (sv2, sent env w' cmd' args' b1) \<and> serving cid sv0 sv2
    \<and> sv_keys sv2 = sv_keys sv1 \<and> awaiting env w' cmd' args' (sent env w' cmd' args' b1)"
  using load_exchange [OF assms(1,2) _ _ assms(4-8)] serving_client [OF assms(3)] send_free [OF assms(9)] by blast

lemma stage_snapshot:
  assumes "awaiting env Load_Snapshot ''get_snapshot'' [] b" "serving cid sv0 sv" "loadable senv sv0 kvs"
  shows "\<exists>sv1 b1. exchange senv env cid (sv, b) = (sv1, b1)
    \<and> awaiting env Load_History ''get_login_history'' LIMIT b1 \<and> serving cid sv0 sv1 \<and> sv_keys sv1 = sv_keys sv
    \<and> be_raw_keys b1 = be_raw_keys b \<and> be_blocked_since b1 = be_blocked_since b
    \<and> be_sessions b1 = map shown_session (sessions_now senv sv0)"
proof -
  note same = serving_same [OF assms(2), of senv] and ld = assms(3) [unfolded loadable_def printable_def]
  have latest: "sv_latest sv = sv_latest sv0" using assms(2) by (simp add: serving_def)
  obtain b1 where b1: "load_step env Load_Snapshot (snapshot_data senv sv) (b\<lparr>be_pending := []\<rparr>) =
      (sent env Load_History ''get_login_history'' LIMIT b1, None)" "free b1" "apart (b\<lparr>be_pending := []\<rparr>) b1"
    "be_sessions b1 = map shown_session (sessions_now senv sv0)"
    using load_snapshot [OF awaiting_free [OF assms(1)], of sv senv env] ld latest same by metis
  have "answered_with senv cid ''get_snapshot'' [] (snapshot_data senv sv) sv sv"
    unfolding answered_plain using ld same by simp
  from stage [OF assms(1) _ assms(2) this assms(2) _ _ b1(1,2)] b1(3,4) show ?thesis
    by (auto simp: is_load_def or_default_def snapshot_data_def apart_def)
qed

lemma stage_history:
  assumes "awaiting env Load_History ''get_login_history'' LIMIT b" "serving cid sv0 sv" "loadable senv sv0 kvs"
    "be_raw_keys b = JArr (map key_entry_json ks0)"
  shows "\<exists>sv1 b1. exchange senv env cid (sv, b) = (sv1, b1)
    \<and> awaiting env Load_Keys ''get_keys'' [] b1 \<and> serving cid sv0 sv1 \<and> sv_keys sv1 = sv_keys sv
    \<and> be_history b1 = map (shown_login \<circ> snd) (newest_logins sv0) \<and> be_blocked_since b1 = be_blocked_since b
    \<and> be_sessions b1 = be_sessions b"
proof -
  note same = serving_same [OF assms(2), of senv] and ld = assms(3) [unfolded loadable_def printable_def]
  have "be_raw_keys (b\<lparr>be_pending := []\<rparr>) = JArr (map key_entry_json ks0)" using assms(4) by simp
  from load_history [OF awaiting_free [OF assms(1)] this, of env "newest_logins sv"] obtain b1 where
    b1: "load_step env Load_History (listing_data ''events'' login_event_json (newest_logins sv)) (b\<lparr>be_pending := []\<rparr>) =
      (sent env Load_Keys ''get_keys'' [] b1, None)" "free b1" "be_history b1 = map (shown_login \<circ> snd) (newest_logins sv0)"
    "be_sessions b1 = be_sessions b" "be_blocked_since b1 = be_blocked_since b" using same by auto
  have "answered_with senv cid ''get_login_history'' LIMIT (listing_data ''events'' login_event_json (newest_logins sv)) sv sv"
    unfolding answered_limit using ld same by simp
  from stage [OF assms(1) _ assms(2) this assms(2) _ _ b1(1,2)] b1(3-5) show ?thesis
    by (auto simp: is_load_def field_listing)
qed

lemma stage_keys:
  assumes "awaiting env Load_Keys ''get_keys'' [] b" "serving cid sv0 sv"
    "be_history b = map (shown_login \<circ> snd) rows" "all_keys (se_file senv) (sv_keys sv) = (ks', Inr ks)"
  shows "\<exists>sv1 b1. exchange senv env cid (sv, b) = (sv1, b1)
    \<and> awaiting env Load_Tests ''get_speedtest_history'' LIMIT_200 b1 \<and> serving cid sv0 sv1
    \<and> be_history b1 = be_history b \<and> be_ssh_keys b1 = map (shown_key (be_history b)) ks
    \<and> be_blocked_since b1 = be_blocked_since b \<and> be_sessions b1 = be_sessions b"
proof -
  have "text_labels (be_history (b\<lparr>be_pending := []\<rparr>))" using assms(3) shown_label by (auto simp: text_labels_def)
  from load_keys [OF awaiting_free [OF assms(1)] this, of env ks] obtain b1 where
    b1: "load_step env Load_Keys (listing_data ''keys'' key_entry_json ks) (b\<lparr>be_pending := []\<rparr>) =
      (sent env Load_Tests ''get_speedtest_history'' LIMIT_200 b1, None)" "free b1" "be_history b1 = be_history b"
    "be_ssh_keys b1 = map (shown_key (be_history b)) ks" "be_sessions b1 = be_sessions b"
    "be_blocked_since b1 = be_blocked_since b" by auto
  have "serving cid sv0 (sv\<lparr>sv_keys := ks'\<rparr>)" using assms(2) by (simp add: serving_def server_simps)
  from stage [OF assms(1) _ assms(2) answered_keys [OF assms(4)] this _ _ b1(1,2)] b1(3-6) show ?thesis
    by (auto simp: is_load_def field_listing)
qed

lemma stage_tests:
  assumes "awaiting env Load_Tests ''get_speedtest_history'' LIMIT_200 b" "serving cid sv0 sv" "loadable senv sv0 kvs"
  shows "\<exists>sv1 b1. exchange senv env cid (sv, b) = (sv1, b1)
    \<and> awaiting env Load_Extra ''get_extra_status'' [] b1 \<and> serving cid sv0 sv1
    \<and> be_speedtest_history b1 = map (shown_test \<circ> snd) (filter (st_success \<circ> snd) (rev (newest_tests sv0)))
    \<and> be_history b1 = be_history b \<and> be_ssh_keys b1 = be_ssh_keys b
    \<and> be_blocked_since b1 = be_blocked_since b \<and> be_sessions b1 = be_sessions b"
proof -
  note same = serving_same [OF assms(2), of senv] and ld = assms(3) [unfolded loadable_def printable_def]
  from load_tests [OF awaiting_free [OF assms(1)], of env "newest_tests sv"] obtain b1 where
    b1: "load_step env Load_Tests (listing_data ''results'' speedtest_json (newest_tests sv)) (b\<lparr>be_pending := []\<rparr>) =
      (sent env Load_Extra ''get_extra_status'' [] b1, None)" "free b1"
    "be_speedtest_history b1 = map (shown_test \<circ> snd) (filter (st_success \<circ> snd) (rev (newest_tests sv0)))"
    "be_history b1 = be_history b" "be_ssh_keys b1 = be_ssh_keys b" "be_blocked_since b1 = be_blocked_since b"
    "be_sessions b1 = be_sessions b" using same by auto
  have "answered_with senv cid ''get_speedtest_history'' LIMIT_200
      (listing_data ''results'' speedtest_json (newest_tests sv)) sv sv"
    unfolding answered_limit using ld same by simp
  from stage [OF assms(1) _ assms(2) this assms(2) _ _ b1(1,2)] b1(3-7) show ?thesis
    by (auto simp: is_load_def field_listing)
qed

lemma stage_extra:
  assumes "awaiting env Load_Extra ''get_extra_status'' [] b" "serving cid sv0 sv" "loadable senv sv0 kvs"
    "text_keys (be_blocked_since b)"
  shows "\<exists>sv1 b1. exchange senv env cid (sv, b) = (sv1, b1)
    \<and> awaiting env Load_Alerts ''get_alerts'' LIMIT_200 b1 \<and> serving cid sv0 sv1
    \<and> be_dangerous b1 = dangerous (se_features senv) \<and> be_speedtest_history b1 = be_speedtest_history b
    \<and> be_history b1 = be_history b \<and> be_ssh_keys b1 = be_ssh_keys b \<and> be_sessions b1 = be_sessions b"
proof -
  note ld = assms(3) [unfolded loadable_def printable_def]
  have extra: "sv_extra sv = JObj kvs" using ld assms(2) by (simp add: serving_def)
  have "text_keys (be_blocked_since (b\<lparr>be_pending := []\<rparr>))" "extra_ok (JObj kvs)" using assms(4) ld by simp_all
  from load_extra [OF awaiting_free [OF assms(1)] this(2,1), of env senv] obtain b1 where
    b1: "load_step env Load_Extra (status_data senv kvs) (b\<lparr>be_pending := []\<rparr>) =
      (sent env Load_Alerts ''get_alerts'' LIMIT_200 b1, None)" "free b1" "kept (b\<lparr>be_pending := []\<rparr>) b1"
    "be_dangerous b1 = dangerous (se_features senv)" by auto
  have ans: "answered_with senv cid ''get_extra_status'' [] (status_data senv kvs) sv sv"
    unfolding answered_plain(2) [OF extra] using ld by simp
  have same: "or_default (status_data senv kvs) (JObj []) = status_data senv kvs"
    by (cases kvs) (auto simp: or_default_def status_data_def)
  from stage [OF assms(1) _ assms(2) ans assms(2) _ same b1(1,2)] b1(3,4) show ?thesis
    by (auto simp: is_load_def kept_def)
qed

lemma stage_alerts:
  assumes "awaiting env Load_Alerts ''get_alerts'' LIMIT_200 b" "serving cid sv0 sv" "loadable senv sv0 kvs"
  shows "\<exists>sv1. exchange senv env cid (sv, b) = (sv1, b\<lparr>be_pending := [],
      be_alerts := map (shown_alert \<circ> snd) (newest_alerts sv0), be_ready := True, be_phase := Running\<rparr>) \<and> serving cid sv0 sv1"
proof -
  note same = serving_same [OF assms(2), of senv] and ld = assms(3) [unfolded loadable_def printable_def]
  have ans: "answered_with senv cid ''get_alerts'' LIMIT_200 (listing_data ''alerts'' alert_json (newest_alerts sv0)) sv sv"
    using answered_limit(3) [of senv cid sv] ld same by simp
  have "\<exists>c. client_at cid sv = Some c \<and> \<not> cl_gone c" using assms(2) by (rule serving_client)
  then show ?thesis
    using load_exchange [OF assms(1) _ _ _ ans assms(2) _ _ load_alerts] by (auto simp: is_load_def field_listing)
qed

lemma loading_session:
  assumes "link_ok b" "be_phase b = Idle" "be_raw_keys b = JArr (map key_entry_json ks0)" "text_keys (be_blocked_since b)"
    "client_at cid sv = Some c" "cl_subs c = []" "\<not> cl_gone c"
    "loadable senv sv kvs" "all_keys (se_file senv) (sv_keys sv) = (ks', Inr ks)"
  shows "\<exists>sv' b'. (exchange senv env cid ^^ 7) (sv, backend_turn env (Attempt True) b) = (sv', b')
    \<and> serving cid sv sv' \<and> loaded senv sv ks b'"
proof -
  obtain sv1 b1 where 1: "exchange senv env cid (sv, backend_turn env (Attempt True) b) = (sv1, b1)"
    "awaiting env Load_Snapshot ''get_snapshot'' [] b1" "serving cid sv sv1" "sv_keys sv1 = sv_keys sv"
    "be_raw_keys b1 = be_raw_keys b" "be_blocked_since b1 = be_blocked_since b"
    using stage_subscribe [OF assms(1,2,5-7)] by blast
  obtain sv2 b2 where 2: "exchange senv env cid (sv1, b1) = (sv2, b2)"
    "awaiting env Load_History ''get_login_history'' LIMIT b2" "serving cid sv sv2" "sv_keys sv2 = sv_keys sv1"
    "be_raw_keys b2 = be_raw_keys b1" "be_blocked_since b2 = be_blocked_since b1"
    "be_sessions b2 = map shown_session (sessions_now senv sv)"
    using stage_snapshot [OF 1(2,3) assms(8)] by blast
  have "be_raw_keys b2 = JArr (map key_entry_json ks0)" using 1 2 assms(3) by simp
  then obtain sv3 b3 where 3: "exchange senv env cid (sv2, b2) = (sv3, b3)"
    "awaiting env Load_Keys ''get_keys'' [] b3" "serving cid sv sv3" "sv_keys sv3 = sv_keys sv2"
    "be_history b3 = map (shown_login \<circ> snd) (newest_logins sv)" "be_blocked_since b3 = be_blocked_since b2"
    "be_sessions b3 = be_sessions b2" using stage_history [OF 2(2,3) assms(8)] by blast
  have "all_keys (se_file senv) (sv_keys sv3) = (ks', Inr ks)" using 1 2 3 assms(9) by simp
  then obtain sv4 b4 where 4: "exchange senv env cid (sv3, b3) = (sv4, b4)"
    "awaiting env Load_Tests ''get_speedtest_history'' LIMIT_200 b4" "serving cid sv sv4" "be_history b4 = be_history b3"
    "be_ssh_keys b4 = map (shown_key (be_history b3)) ks" "be_blocked_since b4 = be_blocked_since b3"
    "be_sessions b4 = be_sessions b3" using stage_keys [OF 3(2,3,5)] by blast
  obtain sv5 b5 where 5: "exchange senv env cid (sv4, b4) = (sv5, b5)"
    "awaiting env Load_Extra ''get_extra_status'' [] b5" "serving cid sv sv5"
    "be_speedtest_history b5 = map (shown_test \<circ> snd) (filter (st_success \<circ> snd) (rev (newest_tests sv)))"
    "be_history b5 = be_history b4" "be_ssh_keys b5 = be_ssh_keys b4" "be_blocked_since b5 = be_blocked_since b4"
    "be_sessions b5 = be_sessions b4" using stage_tests [OF 4(2,3) assms(8)] by blast
  have "text_keys (be_blocked_since b5)" using 1 2 3 4 5 assms(4) by simp
  then obtain sv6 b6 where 6: "exchange senv env cid (sv5, b5) = (sv6, b6)"
    "awaiting env Load_Alerts ''get_alerts'' LIMIT_200 b6" "serving cid sv sv6" "be_dangerous b6 = dangerous (se_features senv)"
    "be_speedtest_history b6 = be_speedtest_history b5" "be_history b6 = be_history b5" "be_ssh_keys b6 = be_ssh_keys b5"
    "be_sessions b6 = be_sessions b5" using stage_extra [OF 5(2,3) assms(8)] by blast
  obtain sv7 where 7: "exchange senv env cid (sv6, b6) = (sv7, b6\<lparr>be_pending := [],
      be_alerts := map (shown_alert \<circ> snd) (newest_alerts sv), be_ready := True, be_phase := Running\<rparr>)" "serving cid sv sv7"
    using stage_alerts [OF 6(2,3) assms(8)] by blast
  have "(exchange senv env cid ^^ 7) (sv, backend_turn env (Attempt True) b) = (sv7, b6\<lparr>be_pending := [],
      be_alerts := map (shown_alert \<circ> snd) (newest_alerts sv), be_ready := True, be_phase := Running\<rparr>)"
    by (simp add: numeral_eq_Suc funpow_Suc_right 1(1) 2(1) 3(1) 4(1) 5(1) 6(1) 7(1) del: funpow.simps(2) backend_turn.simps)
  then show ?thesis
    using 7(2) 1 2 3 4 5 6 by (auto simp: loaded_def awaiting_def)
qed

end
