(* ===== verification/Syslog_Facts.thy ===== *)
theory Syslog_Facts
  imports Ssh_Log_Facts
begin

section \<open>The syslog framing: round trips, the year guess and its failures\<close>

text \<open>
  A line in the BSD or RFC 3339 framing comes back as its timestamp, process and message;
  a BSD timestamp is never placed more than a day in the future; an impossible date raises
  out of the BSD branch while the RFC 3339 branch answers \<open>None\<close>.
\<close>

subsection \<open>BSD lines\<close>

definition time_text :: "nat \<Rightarrow> nat \<Rightarrow> nat \<Rightarrow> string" where
  "time_text h mi s = two_digits h @ '':'' @ two_digits mi @ '':'' @ two_digits s"

definition bsd_line :: "string \<Rightarrow> string \<Rightarrow> nat \<Rightarrow> string \<Rightarrow> string \<Rightarrow> string" where
  "bsd_line mon sp day time rest = mon @ sp @ str_nat day @ '' '' @ time @ '' '' @ rest"

definition clock_ok :: "nat \<Rightarrow> nat \<Rightarrow> nat \<Rightarrow> bool" where
  "clock_ok h mi s \<longleftrightarrow> h < 100 \<and> mi < 100 \<and> s < 100"

lemma first_time:
  assumes "clock_ok h mi s"
  shows "first_match (Grp x (seq [digits_re 2, Lit '':'', digits_re 2, Lit '':'', digits_re 2]))
    (time_text h mi s @ r) [(x, time_text h mi s)] r"
proof -
  have d: "first_match (digits_re 2) (two_digits n @ t) [] t" if "n < 100" for n t
    using two_digits_ok [OF that] by (intro first_digits) auto
  have "first_match (seq [digits_re 2, Lit '':'', digits_re 2, Lit '':'', digits_re 2])
      (two_digits h @ '':'' @ two_digits mi @ '':'' @ two_digits s @ r) ([] @ [] @ [] @ [] @ []) r"
    unfolding seq.simps using assms unfolding clock_ok_def
    by (intro first_Cat [OF d] first_Cat [OF first_Lit] d) auto
  then show ?thesis by (intro first_Grp) (auto simp: time_text_def)
qed

lemma month_word:
  assumes "MONTHS mon = Some month"
  shows "length mon = 3" "list_all is_word mon" "\<not> is_digit (hd mon)" "1 \<le> month \<and> month \<le> 12"
  using assms by (auto simp: MONTHS_def is_word_def is_digit_def split: if_splits)

lemma space_not_digit: "is_py_space c \<Longrightarrow> \<not> is_digit c"
  using digit_not_space by blast

lemma space_not_word: "is_py_space c \<Longrightarrow> \<not> is_word c"
  by (auto simp: is_py_space_def is_word_def is_digit_def Let_def)

definition gap :: "string \<Rightarrow> bool" where
  "gap sp \<longleftrightarrow> sp \<noteq> [] \<and> list_all is_py_space sp"

lemma first_bsd:
  assumes "MONTHS mon = Some month" "gap sp" "day < 100" "clock_ok h mi s"
    and "token host" "proc_ok proc" "list_all not_newline msg"
  shows "first_match SYSLOG_BSD_RE (bsd_line mon sp day (time_text h mi s) (tail_text host proc msg))
    [(''mon'', mon), (''day'', str_nat day), (''time'', time_text h mi s), (''host'', host),
     (''proc'', proc), (''message'', msg)] []"
proof -
  let ?r3 = "time_text h mi s @ '' '' @ tail_text host proc msg"
  let ?r2 = "str_nat day @ '' '' @ ?r3"
  have sp: "sp \<noteq> []" "\<forall>c\<in>set sp. is_py_space c" using assms(2) by (auto simp: gap_def list_all_iff)
  then have hsp: "\<not> is_word (hd (sp @ ?r2))" by (simp add: space_not_word)
  have m: "first_match (Grp ''mon'' (Rep is_word 3 (Some 3))) (mon @ sp @ ?r2) [(''mon'', mon)] (sp @ ?r2)"
    using month_word [OF assms(1)] hsp by (intro first_Grp [OF first_Rep]) (auto simp: list_all_iff)
  have hd: "is_digit (hd (str_nat day))"
    using str_nat_digits [of day] by (cases "str_nat day") auto
  have g: "first_match (Rep is_py_space 1 None) (sp @ ?r2) [] ?r2"
    using sp hd digit_not_space by (intro first_Rep) (auto simp: Suc_le_eq)
  have len: "length (str_nat day) \<le> 2" using length_str_nat [of day 2] assms(3) by simp
  have d: "first_match (Grp ''day'' (Rep is_digit 1 (Some 2))) ?r2 [(''day'', str_nat day)] ('' '' @ ?r3)"
    using str_nat_digits [of day] len
    by (intro first_Grp [OF first_Rep]) (auto simp: list_all_iff Suc_le_eq)
  have "first_match SYSLOG_BSD_RE (mon @ sp @ ?r2)
      ([(''mon'', mon)] @ [] @ [(''day'', str_nat day)] @ [] @ [(''time'', time_text h mi s)] @ []
        @ [(''host'', host), (''proc'', proc), (''message'', msg)]) []"
    unfolding SYSLOG_BSD_RE_def seq.simps(3) seq.simps(2)
    by (intro first_Cat [OF m] first_Cat [OF g] first_Cat [OF d] first_Cat [OF first_Lit]
          first_Cat [OF first_time [OF assms(4), unfolded seq.simps]] first_tail assms(5-7))
  then show ?thesis by (simp add: bsd_line_def)
qed

lemma rfc_not_bsd:
  assumes "MONTHS mon = Some month"
  shows "re_match SYSLOG_RFC3339_RE (bsd_line mon sp day t r) = None"
proof -
  have "mon \<noteq> []" "\<not> is_digit (hd mon)" using month_word [OF assms] by auto
  then obtain c cs where mon: "mon = c # cs" "\<not> is_digit c" by (cases mon) auto
  then show ?thesis
    by (simp add: bsd_line_def SYSLOG_RFC3339_RE_def digits_re_def re_match_def)
qed

lemma time_parts:
  assumes "clock_ok h mi s"
  shows "nat_at 0 2 (time_text h mi s) = int h" "nat_at 3 2 (time_text h mi s) = int mi"
    "nat_at 6 2 (time_text h mi s) = int s"
  using assms digits_val_two
  by (auto simp: nat_at_def time_text_def two_digits_def clock_ok_def)

definition guess_year :: "datetime \<Rightarrow> int \<Rightarrow> datetime \<Rightarrow> datetime result" where
  "guess_year now y dt = (if dt > add_one_day now then replace_year dt (y - 1) else Inr dt)"

lemma parse_bsd:
  assumes "MONTHS mon = Some month" "gap sp" "day < 100" "clock_ok h mi s"
    and "token host" "proc_ok proc" "list_all not_newline msg"
  shows "parse_syslog_line mktime now y
      (bsd_line mon sp day (time_text h mi s) (tail_text host proc msg))
    = (case mk_datetime y month (int day) (int h) (int mi) (int s) 0 of Inl e \<Rightarrow> Inl e
       | Inr dt \<Rightarrow> (case guess_year now y dt of Inl e \<Rightarrow> Inl e
         | Inr dt' \<Rightarrow> Inr (Some (mktime dt', proc, msg))))"
proof -
  note g = first_match_re_match [OF first_bsd [OF assms]]
  show ?thesis
    by (simp add: parse_syslog_line_def rfc_not_bsd [OF assms(1)] g get_group_def assms(1)
        bsd_datetime_def time_parts [OF assms(4)] guess_year_def split: sum.split)
qed

lemma bsd_datetime_not_future:
  assumes "bsd_datetime now (dt_year now) month g = Inr dt"
  shows "dt \<le> add_one_day now"
proof (rule ccontr)
  assume n: "\<not> dt \<le> add_one_day now"
  then have "dt_year dt = dt_year now - 1"
    using assms by (auto simp: bsd_datetime_def Let_def split: sum.splits if_splits dest: replace_year_Inr)
  then have "dt_year dt < dt_year (add_one_day now)" using add_one_day_year [of now] by simp
  then show False using n year_less by (auto simp: less_imp_le)
qed

subsection \<open>RFC 3339 lines\<close>

type_synonym zone = "(bool \<times> nat \<times> nat) option"

definition zone_text :: "zone \<Rightarrow> string" where
  "zone_text z = (case z of None \<Rightarrow> ''Z''
     | Some (neg, oh, om) \<Rightarrow> (if neg then ''-'' else ''+'') @ two_digits oh @ '':'' @ two_digits om)"

definition zone_ok :: "zone \<Rightarrow> bool" where
  "zone_ok z = (case z of None \<Rightarrow> True | Some (_, oh, om) \<Rightarrow> oh < 100 \<and> om < 100)"

definition zone_minutes :: "zone \<Rightarrow> int" where
  "zone_minutes z = (case z of None \<Rightarrow> 0 | Some (_, oh, om) \<Rightarrow> int (oh * 60 + om))"

definition zone_sign :: "zone \<Rightarrow> int" where
  "zone_sign z = (case z of None \<Rightarrow> 1 | Some (neg, _, _) \<Rightarrow> if neg then -1 else 1)"

definition iso_text :: "nat \<Rightarrow> nat \<Rightarrow> nat \<Rightarrow> string \<Rightarrow> string \<Rightarrow> string \<Rightarrow> string" where
  "iso_text y mo day time fr zt = two_digits (y div 100) @ two_digits (y mod 100) @ ''-'' @ two_digits mo
     @ ''-'' @ two_digits day @ ''T'' @ time @ (if fr = [] then [] else ''.'' @ fr) @ zt"

definition iso_re :: re where
  "iso_re = seq [digits_re 4, Lit ''-'', digits_re 2, Lit ''-'',
       digits_re 2, Lit ''T'', digits_re 2, Lit '':'', digits_re 2, Lit '':'', digits_re 2,
       Opt (Cat (Lit ''.'') (Rep is_digit 1 None)),
       Alt (seq [Rep (\<lambda>c. c \<in> set ''+-'') 1 (Some 1), digits_re 2, Lit '':'', digits_re 2])
           (Lit ''Z'')]"

lemma zone_head: "zone_text z \<noteq> []" "\<not> is_digit (hd (zone_text z))" "\<not> startswith (zone_text z) ''.''"
  by (auto simp: zone_text_def is_digit_def split: option.splits)

lemma first_two: "n < 100 \<Longrightarrow> first_match (digits_re 2) (two_digits n @ t) [] t"
  using two_digits_ok [of n] by (intro first_digits) auto

lemma first_year:
  "y < 10000 \<Longrightarrow> first_match (digits_re 4) (two_digits (y div 100) @ two_digits (y mod 100) @ t) [] t"
  using first_digits [of "two_digits (y div 100) @ two_digits (y mod 100)" 4 t]
    two_digits_ok [of "y div 100"] two_digits_ok [of "y mod 100"] by simp

lemma first_zone:
  assumes "zone_ok z"
  shows "first_match (Alt (seq [Rep (\<lambda>c. c \<in> set ''+-'') 1 (Some 1), digits_re 2, Lit '':'', digits_re 2])
           (Lit ''Z'')) (zone_text z @ r) [] r"
proof (cases z)
  case None
  then show ?thesis by (intro first_Alt2) (simp_all add: zone_text_def first_match_def)
next
  case (Some p)
  obtain neg oh om where p: "p = (neg, oh, om)" by (cases p) auto
  let ?S = "Rep (\<lambda>c. c \<in> set ''+-'') 1 (Some 1)"
  let ?s = "if neg then ''-'' else ''+''"
  have ok: "oh < 100" "om < 100" using assms by (auto simp: zone_ok_def Some p)
  have "hd (two_digits oh @ '':'' @ two_digits om @ r) \<notin> set ''+-''"
    using two_digits_ok [OF ok(1)] by (auto simp: two_digits_def is_digit_def)
  then have sg: "first_match ?S (?s @ two_digits oh @ '':'' @ two_digits om @ r) []
      (two_digits oh @ '':'' @ two_digits om @ r)"
    by (intro first_Rep) auto
  have "first_match (seq [?S, digits_re 2, Lit '':'', digits_re 2])
      (?s @ two_digits oh @ '':'' @ two_digits om @ r) ([] @ [] @ [] @ []) r"
    unfolding seq.simps
    by (intro first_Cat [OF sg] first_Cat [OF first_two [OF ok(1)]] first_Cat [OF first_Lit] first_two ok)
  then show ?thesis by (intro first_Alt1) (simp add: zone_text_def Some p)
qed

lemma first_fraction:
  assumes "list_all is_digit fr"
  shows "first_match (Opt (Cat (Lit ''.'') (Rep is_digit 1 None)))
    ((if fr = [] then [] else ''.'' @ fr) @ zone_text z @ r) [] (zone_text z @ r)"
proof (cases "fr = []")
  case True
  have "\<not> startswith (zone_text z @ r) ''.''"
    using zone_head [of z] by (cases "zone_text z") auto
  then show ?thesis by (simp add: True first_Opt2)
next
  case False
  have "first_match (Rep is_digit 1 None) (fr @ zone_text z @ r) [] (zone_text z @ r)"
    using assms False zone_head [of z] by (intro first_Rep) (auto simp: list_all_iff Suc_le_eq)
  from first_Cat [OF first_Lit [of "''.''"] this] False show ?thesis
    by (intro first_Opt1) simp
qed

definition iso_ok :: "nat \<Rightarrow> nat \<Rightarrow> nat \<Rightarrow> string \<Rightarrow> zone \<Rightarrow> bool" where
  "iso_ok y mo day fr z \<longleftrightarrow> y < 10000 \<and> mo < 100 \<and> day < 100 \<and> list_all is_digit fr \<and> zone_ok z"

lemma first_iso:
  assumes "iso_ok y mo day fr z" "clock_ok h mi s"
  shows "first_match (Grp ''iso'' iso_re) (iso_text y mo day (time_text h mi s) fr (zone_text z) @ r)
    [(''iso'', iso_text y mo day (time_text h mi s) fr (zone_text z))] r"
proof -
  let ?f = "if fr = [] then [] else ''.'' @ fr"
  have "first_match iso_re ((two_digits (y div 100) @ two_digits (y mod 100) @ ''-'' @ two_digits mo
      @ ''-'' @ two_digits day @ ''T'' @ two_digits h @ '':'' @ two_digits mi @ '':'' @ two_digits s
      @ ?f @ zone_text z @ r)) ([] @ [] @ [] @ [] @ [] @ [] @ [] @ [] @ [] @ [] @ [] @ [] @ []) r"
    using assms unfolding iso_re_def seq.simps(3) seq.simps(2) iso_ok_def clock_ok_def
    by (intro first_Cat [OF first_year] first_Cat [OF first_two] first_Cat [OF first_Lit]
          first_Cat [OF first_fraction] first_zone [unfolded seq.simps]) auto
  then show ?thesis by (intro first_Grp) (auto simp: iso_text_def time_text_def)
qed

lemma first_rfc:
  assumes "iso_ok y mo day fr z" "clock_ok h mi s"
    and "token host" "proc_ok proc" "list_all not_newline msg"
  shows "first_match SYSLOG_RFC3339_RE
      (iso_text y mo day (time_text h mi s) fr (zone_text z) @ '' '' @ tail_text host proc msg)
    [(''iso'', iso_text y mo day (time_text h mi s) fr (zone_text z)), (''host'', host),
     (''proc'', proc), (''message'', msg)] []"
proof -
  have "SYSLOG_RFC3339_RE = Cat (Grp ''iso'' iso_re) (Cat (Lit '' '') syslog_tail_re)"
    by (simp add: SYSLOG_RFC3339_RE_def iso_re_def)
  with first_Cat [OF first_iso [OF assms(1,2)] first_Cat [OF first_Lit [of "'' ''"] first_tail [OF assms(3-5)]]]
  show ?thesis by simp
qed

lemma replace_Z_append: "replace_Z (a @ b) = replace_Z a @ replace_Z b"
  by (simp add: replace_Z_def)

lemma replace_Z_id: "CHR ''Z'' \<notin> set s \<Longrightarrow> replace_Z s = s"
  by (induction s) (auto simp: replace_Z_def)

lemma digit_not_Z: "list_all is_digit s \<Longrightarrow> CHR ''Z'' \<notin> set s"
  by (auto simp: list_all_iff is_digit_def)

definition plain_zone :: "zone \<Rightarrow> string" where
  "plain_zone z = (case z of None \<Rightarrow> ''+00:00'' | Some _ \<Rightarrow> zone_text z)"

lemma replace_Z_zone: "zone_ok z \<Longrightarrow> replace_Z (zone_text z) = plain_zone z"
proof (cases z)
  case (Some p)
  assume ok: "zone_ok z"
  obtain neg oh om where p: "p = (neg, oh, om)" by (cases p) auto
  have "CHR ''Z'' \<notin> set (zone_text z)"
    using ok digit_not_Z two_digits_ok by (auto simp: zone_text_def zone_ok_def Some p)
  then show ?thesis by (simp add: replace_Z_id plain_zone_def Some)
qed (simp add: zone_text_def plain_zone_def replace_Z_def)

lemma replace_Z_iso:
  assumes "iso_ok y mo day fr z" "clock_ok h mi s"
  shows "replace_Z (iso_text y mo day (time_text h mi s) fr (zone_text z))
    = iso_text y mo day (time_text h mi s) fr (plain_zone z)"
proof -
  have d: "CHR ''Z'' \<notin> set (two_digits n)" if "n < 100" for n
    using two_digits_ok [OF that] digit_not_Z by blast
  have n: "CHR ''Z'' \<notin> set (iso_text y mo day (time_text h mi s) fr [])"
    using assms digit_not_Z d by (auto simp: iso_text_def time_text_def iso_ok_def clock_ok_def)
  have e: "iso_text y mo day (time_text h mi s) fr t = iso_text y mo day (time_text h mi s) fr [] @ t" for t
    by (simp add: iso_text_def)
  show ?thesis
    using assms(1) by (subst e, subst (2) e) (simp add: replace_Z_append replace_Z_id [OF n] replace_Z_zone iso_ok_def)
qed

lemma plain_zone_shape:
  assumes "zone_ok z"
  obtains sg oh om where "plain_zone z = sg # two_digits oh @ '':'' @ two_digits om" "oh < 100" "om < 100"
    "sg = (if zone_sign z < 0 then CHR ''-'' else CHR ''+'')" "zone_minutes z = int (oh * 60 + om)"
proof (cases z)
  case None
  have "plain_zone z = CHR ''+'' # two_digits 0 @ '':'' @ two_digits 0"
    unfolding None by code_simp
  then show ?thesis using that [of _ 0 0] by (simp add: None zone_sign_def zone_minutes_def)
next
  case (Some p)
  obtain neg oh om where p: "p = (neg, oh, om)" by (cases p) auto
  show ?thesis
    using assms that [of _ oh om]
    by (auto simp: Some p plain_zone_def zone_text_def zone_ok_def zone_sign_def zone_minutes_def)
qed

lemma digits_val_year: "y < 10000 \<Longrightarrow> digits_val (two_digits (y div 100) @ two_digits (y mod 100)) = y"
  by (simp add: digits_val_def two_digits_def digit_val_chr)

lemma fromisoformat_iso:
  assumes "iso_ok y mo day fr z" "clock_ok h mi s"
  shows "fromisoformat (iso_text y mo day (time_text h mi s) fr (plain_zone z))
    = (case mk_datetime (int y) (int mo) (int day) (int h) (int mi) (int s) (iso_micro fr) of
         Inl e \<Rightarrow> Inl e
       | Inr t \<Rightarrow> if zone_minutes z < 1440 then Inr (t, zone_sign z * zone_minutes z)
                  else Inl (ValueError ''offset must be strictly between -24h and 24h''))"
proof -
  have ok: "y < 10000" "mo < 100" "day < 100" "list_all is_digit fr" "zone_ok z"
    using assms(1) by (auto simp: iso_ok_def)
  obtain sg oh om where z: "plain_zone z = sg # two_digits oh @ '':'' @ two_digits om" "oh < 100" "om < 100"
    "sg = (if zone_sign z < 0 then CHR ''-'' else CHR ''+'')" "zone_minutes z = int (oh * 60 + om)"
    using plain_zone_shape [OF ok(5)] by blast
  let ?s = "iso_text y mo day (time_text h mi s) fr (plain_zone z)"
  let ?f = "if fr = [] then [] else ''.'' @ fr"
  have fields: "nat_at 0 4 ?s = int y" "nat_at 5 2 ?s = int mo" "nat_at 8 2 ?s = int day"
    "nat_at 11 2 ?s = int h" "nat_at 14 2 ?s = int mi" "nat_at 17 2 ?s = int s"
    using digits_val_year [OF ok(1)] digits_val_two assms(2) ok
    by (simp_all add: nat_at_def iso_text_def time_text_def two_digits_def clock_ok_def)
  have rest: "drop 19 ?s = ?f @ plain_zone z"
    by (simp add: iso_text_def time_text_def two_digits_def)
  have sgn: "\<not> is_digit sg" "sg \<noteq> CHR ''.''" using z(4) by (auto simp: is_digit_def)
  have f: "takeWhile is_digit (fr @ plain_zone z) = fr" "dropWhile is_digit (fr @ plain_zone z) = plain_zone z"
    using takeWhile_split [of fr is_digit "plain_zone z"] dropWhile_split [of fr is_digit "plain_zone z"]
      ok(4) sgn(1) by (auto simp: z(1) list_all_iff)
  have zp: "nat_at 1 2 (plain_zone z) = int oh" "nat_at 4 2 (plain_zone z) = int om"
    using digits_val_two z(2,3) by (simp_all add: nat_at_def z(1) two_digits_def)
  have dot: "startswith (?f @ plain_zone z) ''.'' \<longleftrightarrow> fr \<noteq> []"
    using sgn(2) by (simp add: z(1))
  have neg: "startswith (plain_zone z) ''-'' \<longleftrightarrow> zone_sign z < 0" using z(1,4) by auto
  have sv: "zone_sign z = 1 \<or> zone_sign z = -1"
    by (auto simp: zone_sign_def split: option.split)
  show ?thesis
    unfolding fromisoformat_def Let_def fields rest dot
    using sv by (cases "fr = []") (auto simp: f zp [unfolded One_nat_def] neg z(5) iso_micro_def split: sum.split)
qed

lemma parse_rfc:
  assumes "iso_ok y mo day fr z" "clock_ok h mi s"
    and "token host" "proc_ok proc" "list_all not_newline msg"
  shows "parse_syslog_line mktime now year
      (iso_text y mo day (time_text h mi s) fr (zone_text z) @ '' '' @ tail_text host proc msg)
    = Inr (case mk_datetime (int y) (int mo) (int day) (int h) (int mi) (int s) (iso_micro fr) of
         Inl _ \<Rightarrow> None
       | Inr t \<Rightarrow> if zone_minutes z < 1440
           then Some (utc_timestamp t (zone_sign z * zone_minutes z), proc, msg) else None)"
  using first_match_re_match [OF first_rfc [OF assms]]
  by (simp add: parse_syslog_line_def get_group_def replace_Z_iso [OF assms(1,2)]
      fromisoformat_iso [OF assms(1,2)] split: sum.split)

end
