(* ===== verification/Ingest_Properties.thy ===== *)
theory Ingest_Properties
  imports Delivery Syslog_Facts
begin

section \<open>Properties of the log pipeline\<close>

text \<open>
  The properties of \<open>ssh_log_parser.py\<close>, \<open>ssh_ingest.py\<close> and \<open>alerts.py\<close> taken one component at a
  time, each with a concrete instance where it has hypotheses.
\<close>

subsection \<open>sshd messages\<close>


definition sample_failure :: sshd_msg where
  "sample_failure = Failed ''publickey'' True ''bob'' ''1.2.3.4'' 22 (Some (''RSA'', ''x'')) '' [preauth]''"

lemma sample_failure_ok: "msg_ok sample_failure"
  by (simp add: sample_failure_def auth_methods_def token_def non_space_def is_py_space_def ip_text_def
      is_ip_char_def key_ok_def preauth_def)


text \<open>C28. On any text below the digit limit the parser does not raise, and an event it reports
  has one of the seven types, a user without white space, an address of address characters, a
  port that is a number, and a fingerprint only of the form \<open>SHA256:...\<close>.\<close>

theorem sshd_message_sound:
  assumes "length raw \<le> max_str_digits"
  shows "\<exists>r. parse_sshd_message raw = Inr r \<and> (\<forall>p. r = Some p \<longrightarrow> sound_event p)"
  using assms by (rule parse_sound)

theorem sshd_message_sound_witness:
  "\<exists>r. parse_sshd_message ''hello'' = Inr r \<and> (\<forall>p. r = Some p \<longrightarrow> sound_event p)"
  by (rule sshd_message_sound) (simp add: max_str_digits_def)

text \<open>The syslog framing of rsyslog's RFC 3339 format is split into the UTC timestamp, the
  process and the message; a date, time or offset out of range makes it \<open>None\<close>, never an error.\<close>

theorem rfc3339_line_split:
  assumes "iso_ok y mo day fr z" "clock_ok h mi s" "token host" "proc_ok proc" "list_all not_newline msg"
  shows "parse_syslog_line mktime now year
      (iso_text y mo day (time_text h mi s) fr (zone_text z) @ '' '' @ tail_text host proc msg)
    = Inr (case mk_datetime (int y) (int mo) (int day) (int h) (int mi) (int s) (iso_micro fr) of
         Inl _ \<Rightarrow> None
       | Inr t \<Rightarrow> if zone_minutes z < 1440
           then Some (utc_timestamp t (zone_sign z * zone_minutes z), proc, msg) else None)"
  using assms by (rule parse_rfc)

theorem rfc3339_line_split_witness:
  "parse_syslog_line (\<lambda>_. 0) (DateTime 2024 1 1 0 0 0 0) 2024
      (iso_text 2024 1 15 (time_text 10 23 45) [] (zone_text None) @ '' '' @ tail_text ''h'' ''sshd'' ''m'')
    = Inr (case mk_datetime 2024 1 15 10 23 45 (iso_micro []) of Inl _ \<Rightarrow> None
       | Inr t \<Rightarrow> Some (utc_timestamp t 0, ''sshd'', ''m''))"
proof -
  have "iso_ok 2024 1 15 [] None" "clock_ok 10 23 45" "token ''h''" "proc_ok ''sshd''" "list_all not_newline ''m''"
    by (simp_all add: iso_ok_def zone_ok_def clock_ok_def token_def non_space_def is_py_space_def proc_ok_def
        not_newline_def)
  from rfc3339_line_split [OF this, of "\<lambda>_. 0" "DateTime 2024 1 1 0 0 0 0" 2024] show ?thesis
    by (simp add: zone_minutes_def zone_sign_def cong: sum.case_cong)
qed

text \<open>C32. A classic syslog line, which has no year, gets the given year, or the year before if that
  would put it more than a day into the future. A date the year does not have (a February 29)
  raises instead of answering \<open>None\<close>.\<close>

theorem bsd_line_year:
  assumes "MONTHS mon = Some month" "gap sp" "day < 100" "clock_ok h mi s"
    "token host" "proc_ok proc" "list_all not_newline msg"
  shows "parse_syslog_line mktime now y
      (bsd_line mon sp day (time_text h mi s) (tail_text host proc msg))
    = (case mk_datetime y month (int day) (int h) (int mi) (int s) 0 of Inl e \<Rightarrow> Inl e
       | Inr dt \<Rightarrow> (case guess_year now y dt of Inl e \<Rightarrow> Inl e
         | Inr dt' \<Rightarrow> Inr (Some (mktime dt', proc, msg))))"
  using assms by (rule parse_bsd)

theorem bsd_line_year_witness:
  "parse_syslog_line (\<lambda>_. 0) (DateTime 2023 3 1 0 0 0 0) 2023
      (bsd_line ''Feb'' '' '' 29 (time_text 10 0 0) (tail_text ''h'' ''sshd'' ''m''))
    = Inl (ValueError ''date or time out of range'')"
proof -
  have "MONTHS ''Feb'' = Some 2" "gap '' ''" "(29::nat) < 100" "clock_ok 10 0 0" "token ''h''" "proc_ok ''sshd''"
    "list_all not_newline ''m''"
    by (simp_all add: MONTHS_def gap_def clock_ok_def token_def non_space_def is_py_space_def proc_ok_def
        not_newline_def)
  note line = bsd_line_year [OF this, of "\<lambda>_. 0" "DateTime 2023 3 1 0 0 0 0" 2023]
  have "mk_datetime 2023 2 29 10 0 0 0 = Inl (ValueError ''date or time out of range'')"
    by code_simp
  with line show ?thesis by simp
qed

subsection \<open>The tailed file\<close>

definition sample_clock :: log_clock where
  "sample_clock = \<lparr>lc_mktime = (\<lambda>_. 0), lc_now = DateTime 2024 1 1 0 0 0 0, lc_year = 2024\<rparr>"

definition sample_db :: database where
  \<comment> \<open>a log file with inode 1, read up to its third byte\<close>
  "sample_db = set_state TAIL_OFFSET_KEY (str_nat 3) (set_state TAIL_INODE_KEY (str_nat 1) new_database)"

lemma storable_small: "n < 1000 \<Longrightarrow> storable n"
  using length_str_nat [of n 3] by (simp add: storable_def max_str_digits_def)

lemma sample_tailing: "tailing 1 3 sample_db" "tailing 1 (length ''ab\<newline>'') sample_db"
  by (simp_all add: tailing_def sample_db_def ingest.get_set keys_differ storable_small flip: numeral_3_eq_3)

text \<open>C6. A log file to which complete lines are appended, polled after each write, yields exactly
  the messages of the appended lines, each once and in order.\<close>

theorem tail_yields_every_line_once:
  assumes "tailing i (length p) db" "\<forall>w\<in>set ws. complete_text w" "storable (length (p @ concat ws))"
  shows "tail_polls lc (grown i p ws) [] db = scan_lines lc (lines_of (concat ws))"
  using assms by (rule tail_polls_grown)

theorem tail_yields_every_line_once_witness:
  "tail_polls sample_clock (grown 1 ''ab\<newline>'' [''c\<newline>'', ''d\<newline>e\<newline>'']) [] sample_db
    = scan_lines sample_clock (lines_of (concat [''c\<newline>'', ''d\<newline>e\<newline>'']))"
  by (rule tail_yields_every_line_once [OF sample_tailing(2)])
    (simp_all add: complete_text_def storable_small)

text \<open>C29. When logrotate puts a new file at the path, the next poll reads it from its start and
  records its inode, whatever was buffered of the old one.\<close>

theorem tail_follows_rotation:
  assumes "tailing i n db" "i \<noteq> j" "complete_text c" "c \<noteq> []" "storable (length c)"
  shows "\<exists>db'. tail_poll lc (FilePresent j (length c) (Inr c)) buf db =
      ((db', []), scan_lines lc (lines_of c)) \<and> tailing j (length c) db'"
  using assms by (rule tail_poll_rotated)

theorem tail_follows_rotation_witness:
  "\<exists>db'. tail_poll sample_clock (FilePresent 2 (length ''x\<newline>'') (Inr ''x\<newline>'')) ''old'' sample_db =
      ((db', []), scan_lines sample_clock (lines_of ''x\<newline>'')) \<and> tailing 2 (length ''x\<newline>'') db'"
  by (rule tail_follows_rotation [OF sample_tailing(1)])
    (simp_all add: complete_text_def storable_small)

text \<open>A poll that sees the first half \<open>a\<close> of a line makes the next polls yield the corrupted line
  \<open>a @ a @ b\<close> and then every line of the file again from its start: the half is kept in the
  buffer and read a second time, and the offset computed from both overtakes the file.\<close>

theorem tail_half_line_replays:
  assumes "tailing i (length p) db" "complete_text p" "a \<noteq> []" "CHR 0x0A \<notin> set a" "CHR 0x0A \<notin> set b"
    "storable (length p + 2 * length a + length b + 1)"
  shows "tail_polls lc [FilePresent i (length (p @ a)) (Inr (p @ a)),
      FilePresent i (length (p @ a @ b @ [CHR 0x0A])) (Inr (p @ a @ b @ [CHR 0x0A])),
      FilePresent i (length (p @ a @ b @ [CHR 0x0A])) (Inr (p @ a @ b @ [CHR 0x0A]))] [] db =
    scan_lines lc ((a @ a @ b) # lines_of (p @ a @ b @ [CHR 0x0A]))"
  using assms by (rule tail_half_line)

theorem tail_half_line_replays_witness:
  "tail_polls sample_clock [FilePresent 1 (length (''ab\<newline>'' @ ''xy'')) (Inr (''ab\<newline>'' @ ''xy'')),
      FilePresent 1 (length (''ab\<newline>'' @ ''xy'' @ ''z'' @ [CHR 0x0A])) (Inr (''ab\<newline>'' @ ''xy'' @ ''z'' @ [CHR 0x0A])),
      FilePresent 1 (length (''ab\<newline>'' @ ''xy'' @ ''z'' @ [CHR 0x0A])) (Inr (''ab\<newline>'' @ ''xy'' @ ''z'' @ [CHR 0x0A]))]
      [] sample_db =
    scan_lines sample_clock ((''xy'' @ ''xy'' @ ''z'') # lines_of (''ab\<newline>'' @ ''xy'' @ ''z'' @ [CHR 0x0A]))"
  by (rule tail_half_line_replays [OF sample_tailing(2)])
    (simp_all add: complete_text_def storable_small)

text \<open>A line whose date does not exist raises out of the generator after the offset of the
  whole chunk was stored: the lines behind it are not yielded, and the generator that replaces
  the failed one yields nothing of them either.\<close>

theorem tail_bad_date_loses_rest:
  assumes "tailing i (length p) db" "complete_text new" "storable (length (p @ new))"
    "lines_of new = xs @ l # ys" "l \<noteq> []" "scan_lines lc xs = (good, None)"
    "parse_syslog_line (lc_mktime lc) (lc_now lc) (lc_year lc) l = Inl e"
  shows "\<exists>db'. tail_poll lc (FilePresent i (length (p @ new)) (Inr (p @ new))) [] db = ((db', []), good, Some e)
    \<and> tail_poll lc (FilePresent i (length (p @ new)) (Inr (p @ new))) [] db' = ((db', []), [], None)"
  using tail_poll_grow [OF assms(1-3), of lc] scan_error [OF assms(6,5,7), of ys] tail_poll_idle assms(4) by metis

lemma feb_29_raises:
  "parse_syslog_line (\<lambda>_. 0) (DateTime 2023 3 1 0 0 0 0) 2023
      (bsd_line ''Feb'' '' '' 29 (time_text 10 0 0) (tail_text ''h'' ''sshd'' ''m''))
    = Inl (ValueError ''date or time out of range'')"
proof -
  have "MONTHS ''Feb'' = Some 2" "gap '' ''" "(29::nat) < 100" "clock_ok 10 0 0" "token ''h''" "proc_ok ''sshd''"
    "list_all not_newline ''m''"
    by (simp_all add: MONTHS_def gap_def clock_ok_def token_def non_space_def is_py_space_def proc_ok_def
        not_newline_def)
  note line = parse_bsd [OF this, of "\<lambda>_. 0" "DateTime 2023 3 1 0 0 0 0" 2023]
  have "mk_datetime 2023 2 29 10 0 0 0 = Inl (ValueError ''date or time out of range'')"
    by code_simp
  with line show ?thesis by simp
qed

lemma feb_29_text:
  "bsd_line ''Feb'' '' '' 29 (time_text 10 0 0) (tail_text ''h'' ''sshd'' ''m'') = ''Feb 29 10:00:00 h sshd: m''"
  by code_simp

theorem tail_bad_date_loses_rest_witness:
  "\<exists>db'. tail_poll (sample_clock\<lparr>lc_now := DateTime 2023 3 1 0 0 0 0, lc_year := 2023\<rparr>)
      (FilePresent 1 (length (''ab\<newline>'' @ ''Feb 29 10:00:00 h sshd: m\<newline>hi\<newline>''))
        (Inr (''ab\<newline>'' @ ''Feb 29 10:00:00 h sshd: m\<newline>hi\<newline>''))) [] sample_db =
      ((db', []), [], Some (ValueError ''date or time out of range''))
    \<and> tail_poll (sample_clock\<lparr>lc_now := DateTime 2023 3 1 0 0 0 0, lc_year := 2023\<rparr>)
      (FilePresent 1 (length (''ab\<newline>'' @ ''Feb 29 10:00:00 h sshd: m\<newline>hi\<newline>''))
        (Inr (''ab\<newline>'' @ ''Feb 29 10:00:00 h sshd: m\<newline>hi\<newline>''))) [] db' = ((db', []), [], None)"
  by (rule tail_bad_date_loses_rest [OF sample_tailing(2), of _ "[]" "''Feb 29 10:00:00 h sshd: m''" "[''hi'']"])
    (use feb_29_raises [unfolded feb_29_text] in
      \<open>simp_all add: complete_text_def storable_small lines_of_def sample_clock_def\<close>)

subsection \<open>The journal and retries\<close>

text \<open>C12. A journald session that ends, by an error or by the exit of \<open>journalctl\<close>, leaves the
  cursor of the last line it read, so that the next session is given exactly the lines not
  reached and those written since: nothing is replayed.\<close>

theorem journald_session_resumes:
  assumes "run_journald env fv now js st = (st', rest, e)" "\<forall>j\<in>set js. journal_entry j"
    "distinct (map cursor_of (pre @ js @ new))" "rest \<noteq> js"
  shows "\<exists>c. get_state CURSOR_STATE_KEY (ig_db st') = Some c \<and> after_cursor c (pre @ js @ new) = rest @ new"
  using assms by (rule journald_resumes)

definition quiet_env :: alert_env where
  \<comment> \<open>the configuration's defaults: alerts on, email off\<close>
  "quiet_env = \<lparr>ae_clock = of_nat, ae_smtp = (\<lambda>_. None), ae_alerts = the (view_alerts OmniaConfig),
     ae_smtp_cfg = the (view_smtp OmniaConfig)\<rparr>"

definition empty_ingest :: ingest where
  "empty_ingest = \<lparr>ig_world = \<lparr>w_db = new_database, w_ticks = 0, w_mail = []\<rparr>, ig_keys = new_key_store,
     ig_sent = []\<rparr>"

lemma default_alerts: "the (view_alerts OmniaConfig) = \<lparr>ac_enabled = True, failed_login_threshold = 5,
    failed_login_window_minutes = 10, disk_usage_percent_threshold = 90, alert_on_new_key = True,
    cooldown_minutes = 30\<rparr>"
  by code_simp

lemma default_smtp_off: "\<not> sc_enabled (the (view_smtp OmniaConfig))"
  by code_simp

lemma quiet_mail: "mail_ok quiet_env"
  using default_smtp_off by (simp add: mail_ok_def quiet_env_def send_email_def)

definition entry_1 :: string where
  "entry_1 = dumps (\<lambda>_. []) (JObj [(''MESSAGE'', JStr ''hello''), (''__CURSOR'', JStr ''s=1'')])"

definition entry_2 :: string where
  "entry_2 = dumps (\<lambda>_. []) (JObj [(''MESSAGE'', JStr ''world''), (''__CURSOR'', JStr ''s=2'')])"

lemma entry_loads:
  "loads entry_1 = Inr (JObj [(''MESSAGE'', JStr ''hello''), (''__CURSOR'', JStr ''s=1'')])"
  "loads entry_2 = Inr (JObj [(''MESSAGE'', JStr ''world''), (''__CURSOR'', JStr ''s=2'')])"
  unfolding entry_1_def entry_2_def
  using loads_dumps [of "\<lambda>_. []" "JObj [(''MESSAGE'', JStr ''hello''), (''__CURSOR'', JStr ''s=1'')]" "[]"]
    loads_dumps [of "\<lambda>_. []" "JObj [(''MESSAGE'', JStr ''world''), (''__CURSOR'', JStr ''s=2'')]" "[]"]
  by (simp_all del: dumps.simps)

lemma hello_no_event: "parse_sshd_message ''hello'' = Inr None"
  by code_simp

lemma hello_handled: "handle_message env fv ts ''hello'' st = (st, Inr ())"
  by (simp add: handle_message_def hello_no_event)

lemma entry_cursors: "cursor_of entry_1 = Some ''s=1''" "cursor_of entry_2 = Some ''s=2''"
  by (simp_all add: cursor_of_def entry_loads)

theorem journald_session_resumes_witness:
  "\<exists>st' c. run_journald quiet_env NoFile 0 [entry_1] empty_ingest = (st', [], ConnectionError ''journalctl --follow exited'')
    \<and> get_state CURSOR_STATE_KEY (ig_db st') = Some c \<and> after_cursor c [entry_1, entry_2] = [entry_2]"
proof -
  have run: "run_journald quiet_env NoFile 0 [entry_1] empty_ingest =
      (with_db (set_state CURSOR_STATE_KEY ''s=1'' (ig_db empty_ingest)) empty_ingest, [],
       ConnectionError ''journalctl --follow exited'')"
    by (simp add: journald_line_def entry_loads hello_handled)
  have "\<forall>j\<in>set [entry_1]. journal_entry j"
    by (auto simp: journal_entry_def entry_loads)
  from journald_session_resumes [OF run this, of "[]" "[entry_2]"] run show ?thesis
    by (auto simp: entry_cursors)
qed

text \<open>The delays between retries start at one second, double with each failure in a row up to
  thirty seconds, and start again after a source that yielded a message.\<close>

theorem retry_delays_bounded:
  assumes "1 \<le> b" "b \<le> MAX_BACKOFF_SECONDS" "d \<in> set (retry_delays ys b)"
  shows "1 \<le> d \<and> d \<le> MAX_BACKOFF_SECONDS"
  using assms
proof (induction ys arbitrary: b)
  case (Cons y ys)
  have "1 \<le> next_backoff y b" "next_backoff y b \<le> MAX_BACKOFF_SECONDS"
    using Cons.prems by (auto simp: next_backoff_def retry_delay_def MAX_BACKOFF_SECONDS_def)
  with Cons.IH [of "next_backoff y b"] Cons.prems show ?case
    by (auto simp: retry_delay_def MAX_BACKOFF_SECONDS_def)
qed simp

theorem retry_delays_bounded_witness:
  "(1::rat) \<le> 30 \<and> 30 \<le> MAX_BACKOFF_SECONDS \<and> retry_delays (replicate 7 False) 1 = [1, 2, 4, 8, 16, 30, 30]"
proof -
  have d: "retry_delays (replicate 7 False) 1 = [1, 2, 4, 8, 16, 30, 30]"
    by (simp add: numeral_eq_Suc next_backoff_def retry_delay_def MAX_BACKOFF_SECONDS_def)
  have "(1::rat) \<le> 1" "1 \<le> MAX_BACKOFF_SECONDS" by (simp_all add: MAX_BACKOFF_SECONDS_def)
  from retry_delays_bounded [OF this, of 30 "replicate 7 False"] d show ?thesis by simp
qed

end
