(* ===== verification/Alert_Properties.thy ===== *)
theory Alert_Properties
  imports Ingest_Properties
begin

section \<open>Properties of the alert rules\<close>

text \<open>
  The properties of \<open>alerts.py\<close>: cooldown, what each rule decides, and the SMTP conversation.
\<close>

definition quiet_world :: world where
  "quiet_world = \<lparr>w_db = new_database, w_ticks = 0, w_mail = []\<rparr>"

lemma quiet_alerts [simp]:
  "ac_enabled (ae_alerts quiet_env)" "alert_on_new_key (ae_alerts quiet_env)"
  "failed_login_threshold (ae_alerts quiet_env) = 5" "failed_login_window_minutes (ae_alerts quiet_env) = 10"
  "cooldown_minutes (ae_alerts quiet_env) = 30"
  by (simp_all add: quiet_env_def default_alerts)

lemma quiet_rows [simp]: "alert_rows (w_db quiet_world) = []"
  by (simp add: quiet_world_def alert_rows_def new_database_def select_empty)

lemma quiet_count [simp]: "count_failed_logins_since ip t (w_db quiet_world) = 0"
  "count_accepted_with_key_before fp t (w_db quiet_world) = 0"
  by (simp_all add: quiet_world_def count_failed_logins_since_def count_accepted_with_key_before_def
      new_database_def select_empty)

text \<open>Over every history of SSH events, metric polls, database writes and waiting, the alerts of
  one key in the log are at least the cooldown apart, however many events try to raise it.\<close>

theorem alerts_spaced_by_cooldown:
  assumes "(daemon_step env)\<^sup>*\<^sup>* w w'" "mono (ae_clock env)" "alert_rows (w_db w) = []"
  shows "sorted_wrt (\<lambda>r r'. ar_alert_type r = ar_alert_type r' \<longrightarrow> cooldown_seconds env \<le> ar_ts r' - ar_ts r)
    (alert_rows (w_db w'))"
  using assms by (rule daemon_spaced)

definition full_disk :: disk_info where
  "full_disk = \<lparr>dk_mountpoint = ''/'', dk_device = ''/dev/sda1'', dk_fstype = ''ext4'', dk_total_bytes = 10,
     dk_used_bytes = 10, dk_percent = 99\<rparr>"

theorem alerts_spaced_by_cooldown_witness:
  "sorted_wrt (\<lambda>r r'. ar_alert_type r = ar_alert_type r' \<longrightarrow> cooldown_seconds quiet_env \<le> ar_ts r' - ar_ts r)
    (alert_rows (w_db (fst (on_metrics_snapshot quiet_env [full_disk] quiet_world))))"
proof (rule alerts_spaced_by_cooldown)
  show "(daemon_step quiet_env)\<^sup>*\<^sup>* quiet_world (fst (on_metrics_snapshot quiet_env [full_disk] quiet_world))"
    by (rule r_into_rtranclp) (rule daemon_step.metrics)
  show "mono (ae_clock quiet_env)" by (auto simp: mono_def quiet_env_def)
qed simp

text \<open>C25. A failed login from a known address changes nothing while the count in the window is below
  the threshold; from the threshold on it adds one alert of that address' key to the log, exactly
  when the key's cooldown is over.\<close>

theorem failed_login_rule:
  assumes "ac_enabled (ae_alerts env)" "le_event_type ev \<in> FAILED_EVENT_TYPES"
    "le_source_ip ev = Some ip" "ip \<noteq> []"
  shows "if int (count_failed_logins_since ip
          (le_ts ev - of_int (failed_login_window_minutes (ae_alerts env) * 60)) (w_db w))
        < failed_login_threshold (ae_alerts env)
    then on_ssh_event env ev w = (w, Inr ())
    else raises env (''failed_login:'' @ ip) w (fst (on_ssh_event env ev w))"
  using failed_login_decision [OF assms, of w] by simp

theorem failed_login_rule_witness:
  "on_ssh_event quiet_env (password_failure 100 ''bob'' ''1.2.3.4'' 22) quiet_world = (quiet_world, Inr ())"
  using failed_login_rule [of quiet_env "password_failure 100 ''bob'' ''1.2.3.4'' 22" "''1.2.3.4''" quiet_world]
  by (simp add: password_failure_def FAILED_EVENT_TYPES_def)

text \<open>C26. A public-key login adds one alert of the key's fingerprint, cooldown permitting, exactly when
  the database holds no earlier accepted login with that key.\<close>

theorem new_key_rule:
  assumes "ac_enabled (ae_alerts env)" "alert_on_new_key (ae_alerts env)"
    "le_event_type ev = ''accepted_publickey''" "le_key_fingerprint ev = Some fp" "fp \<noteq> []"
  shows "if 0 < count_accepted_with_key_before fp (le_ts ev) (w_db w)
    then on_ssh_event env ev w = (w, Inr ())
    else raises env (''new_key:'' @ fp) w (fst (on_ssh_event env ev w))"
  using new_key_decision [OF assms, of w] by simp

definition key_login :: login_event where
  "key_login = \<lparr>le_ts = 100, le_event_type = ''accepted_publickey'', le_username = Some ''bob'',
     le_source_ip = Some ''1.2.3.4'', le_source_port = Some 22, le_key_type = Some ''RSA'',
     le_key_fingerprint = Some ''SHA256:x'', le_key_label = None, le_detail = None\<rparr>"

theorem new_key_rule_witness:
  "raises quiet_env ''new_key:SHA256:x'' quiet_world (fst (on_ssh_event quiet_env key_login quiet_world))"
  using new_key_rule [of quiet_env key_login "''SHA256:x''" quiet_world] by (simp add: key_login_def)

text \<open>C38. Password guessing never raises an alert: however many \<open>failed_other\<close> events of one address
  are stored and handed to the manager, the counter, which only counts \<open>failed_publickey\<close> and
  \<open>invalid_user\<close>, stays at zero, although the manager lists \<open>failed_other\<close> among the failures.\<close>

theorem password_guessing_never_alerts:
  assumes "\<forall>(t, user, port)\<in>set tries. sql_int port" "0 < failed_login_threshold (ae_alerts env)"
    "\<forall>since. count_failed_logins_since ip since (w_db w) = 0"
  shows "\<exists>w'. store_and_check env (map (\<lambda>(t, user, port). password_failure t user ip port) tries) w = Inr w'
    \<and> alert_log (w_db w') = alert_log (w_db w) \<and> w_mail w' = w_mail w
    \<and> length (tb_rows (login_events (w_db w'))) = length (tb_rows (login_events (w_db w))) + length tries"
  using assms by (rule password_failures_silent)

theorem password_guessing_never_alerts_witness:
  "\<exists>w'. store_and_check quiet_env (map (\<lambda>(t, user, port). password_failure t user ''1.2.3.4'' port)
        (replicate 1000 (5, ''root'', 22))) quiet_world = Inr w'
    \<and> alert_log (w_db w') = alert_log (w_db quiet_world)"
  using password_guessing_never_alerts [of "replicate 1000 (5, ''root'', 22)" quiet_env "''1.2.3.4''" quiet_world]
  by (auto simp: sql_int_def)

text \<open>With alerts disabled neither an event nor a snapshot has any effect: no clock reading, no
  row, no email.\<close>

theorem disabled_alerts_do_nothing:
  assumes "\<not> ac_enabled (ae_alerts env)"
  shows "on_ssh_event env ev w = (w, Inr ()) \<and> on_metrics_snapshot env disks w = (w, Inr ())"
  using assms by (simp add: on_ssh_event_def on_metrics_snapshot_def)

theorem disabled_alerts_do_nothing_witness:
  "on_ssh_event (quiet_env\<lparr>ae_alerts := ae_alerts quiet_env\<lparr>ac_enabled := False\<rparr>\<rparr>) key_login quiet_world
    = (quiet_world, Inr ())"
  using disabled_alerts_do_nothing [of "quiet_env\<lparr>ae_alerts := ae_alerts quiet_env\<lparr>ac_enabled := False\<rparr>\<rparr>"] by simp

text \<open>C27. With \<open>use_tls\<close> the password is sent only on a connection on which STARTTLS succeeded, right
  after it: a server or an attacker that refuses STARTTLS never sees the credentials.\<close>

theorem password_only_after_starttls:
  assumes "send_email srv cfg subject body = (tr, r)" "Login u p \<in> set tr" "sc_use_tls cfg"
  shows "\<exists>rest. tr = Connect (sc_host cfg) (sc_port cfg) # StartTls # Login u p # rest \<and> srv StartTls = None
    \<and> u = sc_username cfg \<and> p = sc_password cfg"
  using assms by (rule send_email_login_after_tls)

definition mail_cfg :: smtp_config where
  "mail_cfg = \<lparr>sc_enabled = True, sc_host = ''mx'', sc_port = 587, sc_use_tls = True, sc_username = ''u'',
     sc_password = ''p'', sc_from_addr = ''a@b'', sc_to_addrs = [''c@d'']\<rparr>"

theorem password_only_after_starttls_witness:
  "\<exists>tr r rest. send_email (\<lambda>_. None) mail_cfg ''s'' ''b'' = (tr, r)
    \<and> tr = Connect ''mx'' 587 # StartTls # Login ''u'' ''p'' # rest"
proof -
  obtain tr r where s: "send_email (\<lambda>_. None) mail_cfg ''s'' ''b'' = (tr, r)" by (cases "send_email (\<lambda>_. None) mail_cfg ''s'' ''b''")
  have "Login ''u'' ''p'' \<in> set (fst (send_email (\<lambda>_. None) mail_cfg ''s'' ''b''))" by code_simp
  with s have "Login ''u'' ''p'' \<in> set tr" by simp
  from password_only_after_starttls [OF s this] s show ?thesis by (simp add: mail_cfg_def)
qed

text \<open>A mail server that fails at any command never makes \<open>_send_email\<close> raise, provided the header
  values are single lines.\<close>

theorem mail_failure_contained:
  assumes "\<forall>a e. srv a = Some e \<longrightarrow> is_smtp_error e"
    "\<not> bad_header subject" "\<not> bad_header (sc_from_addr cfg)" "\<not> bad_header (join '', '' (sc_to_addrs cfg))"
  shows "snd (send_email srv cfg subject body) = Inr ()"
  using assms by (rule send_email_contained)

theorem mail_failure_contained_witness:
  "snd (send_email (\<lambda>a. if a = StartTls then Some (SMTPException ''refused'') else None) mail_cfg ''s'' ''b'') = Inr ()"
  by (rule mail_failure_contained)
    (auto simp: mail_cfg_def bad_header_def splitlines_def is_line_break_def split: if_splits)

end
