(* ===== verification/Daemon_Properties.thy ===== *)
theory Daemon_Properties
  imports Alert_Properties Daemon Gpu_Intel
begin

section \<open>Properties of the running daemon\<close>

text \<open>
  What holds in every history of the daemon, whatever its tasks and clients do and in whatever
  order, and the properties of the collector's loop and of the GPU monitor.
\<close>

definition sample_poll :: "unit psutil_poll" where
  "sample_poll = \<lparr>pp_monotonic = 5, pp_time = 100, pp_uptime_time = 100, pp_boot_time = 40,
     pp_vm = \<lparr>us_total = 8, us_used = 4, us_percent = 50\<rparr>, pp_swap_percent = 0,
     pp_net = \<lparr>bytes_recv = 20, bytes_sent = 10\<rparr>, pp_cpu_percent = 30, pp_cpu_per_core = [30],
     pp_partitions = [], pp_usage = (\<lambda>_. Inl IndexError), pp_processes = [], pp_prime = (\<lambda>_. True),
     pp_sample = (\<lambda>_. None), pp_temps = None\<rparr>"

definition sample_daemon :: "unit metrics_task \<times> server" where
  "sample_daemon = omnia_start new_database sample_poll 0"

lemma sample_daemon_start: "sample_daemon = (start_metrics (new_collector sample_poll) 0, new_server quiet_world new_key_store)"
  by (simp add: sample_daemon_def omnia_start_def quiet_world_def)

definition sample_message :: "server \<Rightarrow> server" where
  "sample_message sv = fst (message_turn quiet_env (\<lambda>_. ''0.5'') NoFile 100 (print_msg sample_failure) sv)"

lemma sample_message_step:
  "omnia_step quiet_env f (mt, sv) (mt, sample_message sv)"
  unfolding sample_message_def by (rule omnia_step.message) (rule prod.collapse [symmetric])

text \<open>C3. In every history of the running daemon (metric polls, log messages, client requests, speed tests,
  status refreshes, retention, in any order, raising turns included) the alerts of one key in the
  log are at least the cooldown apart.\<close>

theorem daemon_alerts_spaced:
  assumes "(omnia_step env f)\<^sup>*\<^sup>* st st'" "mono (ae_clock env)" "alert_rows (sv_db (snd st)) = []"
  shows "sorted_wrt (\<lambda>r r'. ar_alert_type r = ar_alert_type r' \<longrightarrow> cooldown_seconds env \<le> ar_ts r' - ar_ts r)
    (alert_rows (sv_db (snd st')))"
  using daemon_spaced [OF omnia_histories [OF assms(1)] assms(2)] assms(3) by (simp add: sv_db_def)

theorem daemon_alerts_spaced_witness:
  "sorted_wrt (\<lambda>r r'. ar_alert_type r = ar_alert_type r' \<longrightarrow> cooldown_seconds quiet_env \<le> ar_ts r' - ar_ts r)
    (alert_rows (sv_db (sample_message (sample_message (snd sample_daemon)))))"
proof -
  let ?f = "the (view_features OmniaConfig)"
  have "(omnia_step quiet_env ?f)\<^sup>*\<^sup>* sample_daemon (fst sample_daemon, sample_message (sample_message (snd sample_daemon)))"
    using sample_message_step by (metis rtranclp.simps surjective_pairing)
  from daemon_alerts_spaced [OF this] show ?thesis
    by (simp add: sample_daemon_start new_server_def sv_db_def) (simp add: mono_def quiet_env_def)
qed

lemma default_features_off:
  "view_features OmniaConfig = Some \<lparr>ft_docker = True, ft_fail2ban = True, ft_smart_health = True, ft_pending_updates = True,
     ft_allow_service_restart = False, ft_allow_reboot = False\<rparr>"
  by code_simp

text \<open>C4. No history of the daemon, whatever its clients send, makes it reboot the machine or restart a
  service unless the configuration has the flag for exactly that action; with the default
  configuration it never does either.\<close>

theorem machine_actions_need_their_flag:
  assumes "(omnia_step env f)\<^sup>*\<^sup>* (omnia_start db pp now) (mt, sv)"
  shows "(\<forall>cmd\<in>set (sv_ran sv). (ft_allow_reboot f \<and> cmd = [''systemctl'', ''reboot''])
      \<or> (ft_allow_service_restart f \<and> (\<exists>unit. cmd = [''systemctl'', ''restart'', unit])))
    \<and> (view_features OmniaConfig = Some f \<longrightarrow> sv_ran sv = [])"
proof (intro conjI impI)
  have ran: "\<forall>cmd\<in>set (sv_ran sv). allowed f cmd"
    using omnia_steps_ran [OF assms] by (auto simp: omnia_start_def new_server_def)
  then show "\<forall>cmd\<in>set (sv_ran sv). (ft_allow_reboot f \<and> cmd = [''systemctl'', ''reboot''])
      \<or> (ft_allow_service_restart f \<and> (\<exists>unit. cmd = [''systemctl'', ''restart'', unit]))"
    by (auto simp: allowed_def reboot_cmd_def restart_cmd_def)
  assume "view_features OmniaConfig = Some f"
  then have "\<not> ft_allow_reboot f \<and> \<not> ft_allow_service_restart f" using default_features_off by auto
  with ran show "sv_ran sv = []" by (cases "sv_ran sv") (auto simp: allowed_def)
qed

definition sample_env :: server_env where
  "sample_env = \<lparr>se_ft = (\<lambda>_. ''0.5''), se_features = the (view_features OmniaConfig), se_users = [], se_now = 100,
     se_file = NoFile, se_exec = (\<lambda>_. Inr (0, []))\<rparr>"

definition reboot_request :: string where
  "reboot_request = ''{'' @ [CHR 0x22] @ ''cmd'' @ [CHR 0x22] @ '': '' @ [CHR 0x22] @ ''reboot_system'' @ [CHR 0x22] @ ''}''"

theorem machine_actions_need_their_flag_witness:
  "sv_ran (fst (handle_input sample_env 1 (Line reboot_request) (accept_client 1 (snd sample_daemon)))) = []"
proof -
  let ?f = "se_features sample_env"
  let ?sv = "accept_client 1 (snd sample_daemon)"
  have "omnia_step quiet_env ?f (fst sample_daemon, snd sample_daemon) (fst sample_daemon, ?sv)"
    by (rule omnia_step.accept)
  moreover have "omnia_step quiet_env ?f (fst sample_daemon, ?sv)
      (fst sample_daemon, fst (handle_input sample_env 1 (Line reboot_request) ?sv))"
    by (rule omnia_step.input [OF refl]) (rule prod.collapse [symmetric])
  ultimately have "(omnia_step quiet_env ?f)\<^sup>*\<^sup>* (omnia_start new_database sample_poll 0)
      (fst sample_daemon, fst (handle_input sample_env 1 (Line reboot_request) ?sv))"
    unfolding sample_daemon_def [symmetric] by (metis prod.collapse rtranclp.simps)
  from machine_actions_need_their_flag [OF this] show ?thesis
    using default_features_off by (simp add: sample_env_def)
qed

text \<open>C2. Whatever the daemon does, in any order, its tables stay well formed, no login event or alert is
  ever given an id that was handed out before (so a client can tell old rows from new ones), and
  no alert is lost.\<close>

theorem tables_stay_valid:
  assumes "(omnia_step env f)\<^sup>*\<^sup>* st st'" "db_inv (sv_db (snd st))"
  shows "db_inv (sv_db (snd st')) \<and> ids_extend (login_events (sv_db (snd st))) (login_events (sv_db (snd st')))
    \<and> ids_extend (alert_log (sv_db (snd st))) (alert_log (sv_db (snd st')))
    \<and> set (tb_rows (alert_log (sv_db (snd st)))) \<subseteq> set (tb_rows (alert_log (sv_db (snd st'))))"
proof -
  have steps: "db_step\<^sup>*\<^sup>* (sv_db (snd st)) (sv_db (snd st'))" using omnia_db_steps [OF assms(1)] .
  show ?thesis using db_inv_steps [OF steps assms(2)] ids_extend_steps [OF steps] alert_log_kept [OF steps] by blast
qed

theorem tables_stay_valid_witness:
  "db_inv (sv_db (sample_message (sample_message (snd sample_daemon))))"
proof -
  let ?f = "the (view_features OmniaConfig)"
  have "(omnia_step quiet_env ?f)\<^sup>*\<^sup>* sample_daemon (fst sample_daemon, sample_message (sample_message (snd sample_daemon)))"
    using sample_message_step by (metis rtranclp.simps surjective_pairing)
  from tables_stay_valid [OF this] show ?thesis
    using db_inv_new by (simp add: sample_daemon_start new_server_def sv_db_def quiet_world_def)
qed

subsection \<open>The collector\<close>

definition sample_run :: "(unit metrics_task \<times> server) \<times> sample list \<times> exn option" where
  "sample_run = metrics_run quiet_env (\<lambda>_. ''0.5'') 60
     [(sample_poll, JNull, 10), (sample_poll, JNull, 70)] sample_daemon"

lemma sample_run_quiet: "snd (snd sample_run) = None"
  by code_simp





text \<open>C19. The loop over the buffer of the GPU monitor ends on every buffer, after at most one iteration per
  character and one more, and leaves nothing undone: what it leaves in the buffer cannot be decoded, so
  that running it again before new bytes arrive changes neither the reading nor the buffer.\<close>

theorem gpu_decoding_ends:
  "decode_loop (Suc (length buffer)) st buffer = Some (decode_buffer st buffer)
    \<and> decode_buffer st' (snd (decode_buffer st buffer)) = (st', snd (decode_buffer st buffer))"
  by (simp add: decode_loop_enough decode_buffer_left del: decode_loop.simps)

end
