(* ===== verification/Server_Properties.thy ===== *)
theory Server_Properties
  imports Daemon_Properties Server_Facts
begin

section \<open>Properties of the local API and of what it reads\<close>

text \<open>
  What a client of the socket may rely on: one reply with the request's id, events exactly for its
  subscriptions, lines that read back as the values written, and no way to disturb another client.
  Then the loader of the configuration, the key file and the two helpers whose output is stored.
\<close>

subsection \<open>Requests\<close>

definition sample_server :: server where
  "sample_server = accept_client 2 (accept_client 1 (snd sample_daemon))"

lemma sample_server_clients: "client_at 1 sample_server = Some new_client" "client_at 2 sample_server = Some new_client"
  by (simp_all add: sample_server_def sample_daemon_start client_at_def accept_client_def new_server_def)

lemma reboot_request_loads: "loads reboot_request = Inr (JObj [(''cmd'', JStr ''reboot_system'')])"
  by code_simp





text \<open>A JSON value that is no object, or an object whose command is a list or an object, ends the
  connection with an exception instead of an error reply: the dispatcher looks the command up
  before its \<open>try\<close>.\<close>

theorem odd_request_ends_the_connection:
  assumes "loads l = Inr request" "\<not> well_formed request" "l \<noteq> []"
  shows "\<exists>e. handle_input env cid (Line l) sv = (close_client cid sv, Some e)"
  using assms by (rule bad_request_closes)

theorem odd_request_ends_the_connection_witness:
  "\<exists>e. handle_input sample_env 1 (Line ''[1]'') sample_server = (close_client 1 sample_server, Some e)"
proof (rule odd_request_ends_the_connection)
  show "loads ''[1]'' = Inr (JArr [JInt 1])" by code_simp
qed (simp_all add: well_formed_def)

subsection \<open>Events and framing\<close>

text \<open>C11. After a client subscribed to some streams and then gave some up, a broadcast writes one line to it
  exactly when the stream is one it has and did not give up, and nothing otherwise.\<close>

theorem events_follow_subscriptions:
  assumes "client_at cid sv = Some c" "\<not> cl_gone c" "list_all hashable on" "list_all hashable off"
    and "sv1 = fst (cmd_subscribe env cid (JObj [(''streams'', JArr on)]) sv)"
    and "sv2 = fst (cmd_unsubscribe env cid (JObj [(''streams'', JArr off)]) sv1)"
  shows "\<exists>c'. client_at cid (broadcast ft event data sv2) = Some c'
    \<and> cl_out c' = cl_out c @ (if (JStr event \<in> set (cl_subs c) \<or> JStr event \<in> set on) \<and> JStr event \<notin> set off
        then [frame ft (event_msg event data)] else [])"
proof -
  have q1: "quiet_step (se_features env) cid sv sv1" using subscribe.quiet [OF prod.collapse [symmetric]] assms(5) by simp
  have q2: "quiet_step (se_features env) cid sv1 sv2" using unsubscribe.quiet [OF prod.collapse [symmetric]] assms(6) by simp
  obtain c1 where c1: "client_at cid sv1 = Some c1"
    "JStr event \<in> set (cl_subs c1) \<longleftrightarrow> JStr event \<in> set (cl_subs c) \<or> JStr event \<in> set on"
    using subscribe_subs [OF assms(1,3)] assms(5) by blast
  obtain c2 where c2: "client_at cid sv2 = Some c2"
    "JStr event \<in> set (cl_subs c2) \<longleftrightarrow> JStr event \<in> set (cl_subs c1) \<and> JStr event \<notin> set off"
    using unsubscribe_subs [OF c1(1) assms(4)] assms(6) by blast
  have "only_subs c c1" "only_subs c1 c2" using q1 q2 c1(1) c2(1) assms(1) by (auto simp: quiet_step_def)
  with c1(2) c2 assms(2) show ?thesis by (auto simp: broadcast_at only_subs_def send_to_out)
qed

theorem events_follow_subscriptions_witness:
  "\<exists>c'. client_at 1 (broadcast (\<lambda>_. ''0.5'') ''metrics'' JNull
        (fst (cmd_unsubscribe sample_env 1 (JObj [(''streams'', JArr [JStr ''status''])])
          (fst (cmd_subscribe sample_env 1 (JObj [(''streams'', JArr [JStr ''metrics'', JStr ''status''])]) sample_server))))) = Some c'
    \<and> cl_out c' = [frame (\<lambda>_. ''0.5'') (event_msg ''metrics'' JNull)]"
  using events_follow_subscriptions [OF sample_server_clients(1) _ _ _ refl refl,
      where on = "[JStr ''metrics'', JStr ''status'']" and off = "[JStr ''status'']" and env = sample_env
      and ft = "\<lambda>_. ''0.5''" and event = "''metrics''" and data = JNull]
  by (simp add: new_client_def)

text \<open>C20. The lines the server writes, however many messages it wrote in a row, are split by a line reader
  into exactly one line per message, and each line parses to the value that was written, strings
  with quotes, newlines and control characters included.\<close>

theorem written_lines_read_back:
  assumes "\<forall>m\<in>set ms. json_ok ft m"
  shows "map loads (stream_lines (concat (map (frame ft) ms))) = map Inr ms"
  using assms by (rule frames_read_back)

theorem written_lines_read_back_witness:
  "map loads (stream_lines (concat (map (frame (\<lambda>_. ''0.5''))
      [JStr [CHR 0x22, CHR 0x0A, CHR 0x5C], JArr [JNull, JInt (-3)], reply (JInt 7) (Inl IndexError)])))
    = map Inr [JStr [CHR 0x22, CHR 0x0A, CHR 0x5C], JArr [JNull, JInt (-3)], reply (JInt 7) (Inl IndexError)]"
  by (rule written_lines_read_back) (simp add: reply_def error_reply_def)

subsection \<open>Configuration\<close>

lemma map_of_table: "map_of raw s = Some v \<Longrightarrow> \<forall>v\<in>snd ` set raw. \<exists>kvs. v = TTable kvs \<Longrightarrow> \<exists>kvs. v = TTable kvs"
  by (drule map_of_SomeD) (metis image_eqI snd_conv)

lemma build_sections_error:
  assumes "build_sections secs raw = Inl e" "\<forall>v\<in>snd ` set raw. \<exists>kvs. v = TTable kvs"
  shows "\<exists>m. e = ValueError m"
  using assms(1)
proof (induction secs)
  case (Cons x secs)
  obtain s c where x: "x = (s, c)" by (cases x)
  have "\<exists>kvs. (case map_of raw s of Some v \<Rightarrow> v | None \<Rightarrow> TTable []) = TTable kvs"
    using assms(2) map_of_table by (cases "map_of raw s") auto
  with Cons x show ?case by (auto simp: build_section_table split: sum.splits if_splits)
qed simp

definition section_table :: "section_values \<Rightarrow> string \<Rightarrow> section_values" where
  \<comment> \<open>the table of a section in the file, empty when the file has none\<close>
  "section_table raw s = (case map_of raw s of Some (TTable kvs) \<Rightarrow> kvs | _ \<Rightarrow> [])"

text \<open>C30. A configuration file whose sections are tables loads exactly when every key of every known section
  is a field of that section; otherwise the load fails with a \<open>ValueError\<close>. Unknown sections are
  not looked at.\<close>

theorem misspelt_keys_are_refused:
  assumes "fs p = Some (Inr raw)" "\<forall>v\<in>snd ` set raw. \<exists>kvs. v = TTable kvs"
  shows "(case load_config fs home (Some p) of
      Inr cfg \<Rightarrow> \<forall>(s, c)\<in>set SECTION_TYPES. fst ` set (section_table raw s) \<subseteq> fst ` set (dc_fields c)
    | Inl e \<Rightarrow> (\<exists>m. e = ValueError m)
        \<and> (\<exists>(s, c)\<in>set SECTION_TYPES. \<exists>k\<in>fst ` set (section_table raw s). k \<notin> fst ` set (dc_fields c)))"
proof -
  have t: "(case map_of raw s of Some v \<Rightarrow> v | None \<Rightarrow> TTable []) = TTable (section_table raw s)" for s
    using map_of_table [OF _ assms(2), of s] by (cases "map_of raw s") (auto simp: section_table_def)
  have l: "load_config fs home (Some p) = build_sections SECTION_TYPES raw" using assms(1) by (simp add: load_config_def)
  have ok: "(\<exists>cfg. build_sections SECTION_TYPES raw = Inr cfg)
      \<longleftrightarrow> (\<forall>(s, c)\<in>set SECTION_TYPES. fst ` set (section_table raw s) \<subseteq> fst ` set (dc_fields c))"
    by (simp only: build_sections_ok t) (auto simp: build_section_table)
  show ?thesis
  proof (cases "build_sections SECTION_TYPES raw")
    case (Inl e)
    then have "\<not> (\<forall>(s, c)\<in>set SECTION_TYPES. fst ` set (section_table raw s) \<subseteq> fst ` set (dc_fields c))" using ok by simp
    then have "\<exists>(s, c)\<in>set SECTION_TYPES. \<exists>k\<in>fst ` set (section_table raw s). k \<notin> fst ` set (dc_fields c)" by blast
    with build_sections_error [OF Inl assms(2)] Inl l show ?thesis by simp
  next
    case (Inr cfg)
    with ok l show ?thesis by simp
  qed
qed

theorem misspelt_keys_are_refused_witness:
  "\<exists>m. load_config (\<lambda>p. if p = ''a'' then Some (Inr [(''smtp'', TTable [(''hots'', TStr ''x'')])]) else None) ''/root'' (Some ''a'')
    = Inl (ValueError m)"
proof -
  let ?fs = "\<lambda>p. if p = ''a'' then Some (Inr [(''smtp'', TTable [(''hots'', TStr ''x'')])]) else None"
  from misspelt_keys_are_refused [of ?fs "''a''" _ "''/root''"] show ?thesis
    by (auto simp: SECTION_TYPES_def section_table_def SmtpConfig_def split: sum.splits)
qed

text \<open>In a configuration that was loaded every field of every known section has the value the file gives
  it, or else the default; nothing else is in it.\<close>

theorem config_field_from_file_or_default:
  assumes "load_config fs home (Some p) = Inr cfg" "fs p = Some (Inr raw)"
  shows "cfg_get cfg s f = (case default_of s f of None \<Rightarrow> None
    | Some d \<Rightarrow> (case table_get (map_of raw s) f of None \<Rightarrow> Some d | Some v \<Rightarrow> Some v))"
  using assms by (rule load_config_get)

definition sample_files :: "string \<Rightarrow> section_values result option" where
  "sample_files p = (if p = ''a'' then Some (Inr [(''alerts'', TTable [(''cooldown_minutes'', TInt 5)])]) else None)"

theorem config_field_from_file_or_default_witness:
  "cfg_get (projr (load_config sample_files ''/root'' (Some ''a''))) ''alerts'' ''cooldown_minutes'' = Some (TInt 5)
    \<and> cfg_get (projr (load_config sample_files ''/root'' (Some ''a''))) ''alerts'' ''failed_login_threshold'' = Some (TInt 5)
    \<and> cfg_get (projr (load_config sample_files ''/root'' (Some ''a''))) ''features'' ''allow_reboot'' = Some (TBool False)"
proof -
  have "load_config sample_files ''/root'' (Some ''a'') = Inr (projr (load_config sample_files ''/root'' (Some ''a'')))"
    by code_simp
  note get = config_field_from_file_or_default [OF this, of "[(''alerts'', TTable [(''cooldown_minutes'', TInt 5)])]"]
  have "default_of ''alerts'' ''cooldown_minutes'' = Some (TInt 30)"
    "default_of ''alerts'' ''failed_login_threshold'' = Some (TInt 5)"
    "default_of ''features'' ''allow_reboot'' = Some (TBool False)" by code_simp+
  then show ?thesis by (simp add: get sample_files_def)
qed

subsection \<open>The key file\<close>

text \<open>C31. A line of \<open>authorized_keys\<close>, with any options before the type and any words after the blob, is read
  as its type, the SHA-256 fingerprint of the blob as OpenSSH prints it, and the comment.\<close>

theorem key_line_roundtrip:
  assumes "words_ok opts" "\<forall>w\<in>set opts. w \<notin> KNOWN_KEY_TYPES" "words_ok comment"
    "ty \<in> KNOWN_KEY_TYPES" "blob \<noteq> []" "opts = [] \<or> hd (hd opts) \<noteq> CHR ''#''"
  shows "parse_key_line (key_line opts ty blob comment) = Some
     \<lparr>ke_type = ty, ke_fingerprint = ''SHA256:'' @ rstrip_chars ''='' (b64encode (sha256 blob)),
      ke_comment = join '' '' comment\<rparr>"
  using assms by (rule parse_key_line_print)

theorem key_line_roundtrip_witness:
  "parse_key_line ''no-pty ssh-ed25519 YWJj ana@home laptop'' = Some \<lparr>ke_type = ''ssh-ed25519'',
     ke_fingerprint = ''SHA256:'' @ rstrip_chars ''='' (b64encode (sha256 [97, 98, 99])), ke_comment = ''ana@home laptop''\<rparr>"
proof -
  have "key_line [''no-pty''] ''ssh-ed25519'' [97, 98, 99] [''ana@home'', ''laptop''] = ''no-pty ssh-ed25519 YWJj ana@home laptop''"
    by code_simp
  with key_line_roundtrip [of "[''no-pty'']" "[''ana@home'', ''laptop'']" "''ssh-ed25519''" "[97, 98, 99]"] show ?thesis
    by (simp add: words_ok_def is_py_space_def KNOWN_KEY_TYPES_def)
qed

text \<open>C17. As long as every write of the key file changes its modification time, the cache of the key store is
  invisible: a sequence of lookups, with the file written, emptied, deleted or unreadable in
  between, answers as if the file were read and parsed on every call.\<close>

theorem key_cache_is_transparent:
  assumes "mtime_faithful (map fst qs)"
  shows "lookups qs new_key_store = map (\<lambda>(fv, fp). fresh_label fv fp) qs"
  using assms by (rule lookups_fresh)

theorem key_cache_is_transparent_witness:
  "lookups [(File 1 (Inr (Some '''')), ''SHA256:x''), (NoFile, ''SHA256:x''), (File 1 (Inr (Some '''')), ''SHA256:x'')] new_key_store
    = [fresh_label (File 1 (Inr (Some ''''))) ''SHA256:x'', fresh_label NoFile ''SHA256:x'', fresh_label (File 1 (Inr (Some ''''))) ''SHA256:x'']"
  using key_cache_is_transparent [of "[(File 1 (Inr (Some '''')), ''SHA256:x''), (NoFile, ''SHA256:x''), (File 1 (Inr (Some '''')), ''SHA256:x'')]"]
  by (simp add: mtime_faithful_def)

subsection \<open>Speed tests and disks\<close>

text \<open>C33. Whatever the speed-test library answers or raises, exactly one row is stored, with the time of the
  call: a complete measurement without an error exactly when the answer has its three numbers, and
  otherwise an error without any measurement.\<close>

theorem speedtest_row_sound:
  "map snd (tb_rows (speedtest_results (fst (run_speedtest lib ts db))))
      = map snd (tb_rows (speedtest_results db)) @ [snd (run_speedtest lib ts db)]
    \<and> outcome_ok (snd (run_speedtest lib ts db)) \<and> st_ts (snd (run_speedtest lib ts db)) = ts
    \<and> (st_success (snd (run_speedtest lib ts db)) \<longleftrightarrow>
        (\<exists>r. lib = Inr r \<and> sd_download r \<noteq> None \<and> sd_upload r \<noteq> None \<and> sd_ping r \<noteq> None))"
  using outcome_always_ok outcome_success_iff
  by (simp add: run_speedtest_def Let_def insert_speedtest_result_def insert_row_def)

text \<open>A partition name loses its number, with the letter p before it if there is one; so does a disk whose
  own name ends in a digit, which is then looked up under a name that does not exist.\<close>

theorem partition_number_is_cut:
  assumes "list_all is_digit d" "d \<noteq> []" "CHR 0x0A \<notin> set b"
  shows "base_device (b @ ''p'' @ d) = b \<and> (b \<noteq> [] \<and> \<not> is_digit (last b) \<and> last b \<noteq> CHR ''p'' \<longrightarrow> base_device (b @ d) = b)"
  using base_device_partition [OF assms] base_device_digits [OF assms] by blast

theorem partition_number_is_cut_witness:
  "base_device ''/dev/nvme0n1p2'' = ''/dev/nvme0n1'' \<and> base_device ''/dev/sda3'' = ''/dev/sda''
    \<and> base_device ''/dev/nvme0n1'' = ''/dev/nvme0n'' \<and> base_device ''/dev/md0'' = ''/dev/md''"
  using partition_number_is_cut [of "''2''" "''/dev/nvme0n1''"] partition_number_is_cut [of "''3''" "''/dev/sda''"]
    partition_number_is_cut [of "''1''" "''/dev/nvme0n''"] partition_number_is_cut [of "''0''" "''/dev/md''"]
  by (simp add: is_digit_def)

end
