(* ===== verification/Task_Properties.thy ===== *)
theory Task_Properties
  imports Daemon_Tasks Tui_Session Server_Properties
begin

section \<open>Properties of the daemon's tasks\<close>

text \<open>
  Which loops survive what, and what the caches hold in every run of the daemon from its start.
\<close>

definition sample_cfg :: run_config where
  "sample_cfg = \<lparr>rc_flush_interval = 300, rc_login_days = 90, rc_snapshot_days = 30,
     rc_features = the (view_features OmniaConfig), rc_speedtest = True, rc_gpu = True, rc_retry_minutes = 10,
     rc_waits = True\<rparr>"

definition broken_poll :: "unit psutil_poll" where
  \<comment> \<open>a sensor raises\<close>
  "broken_poll = sample_poll\<lparr>pp_temps := Some (Inl IndexError)\<rparr>"

definition sample_start :: "unit daemon" where
  "sample_start = start_daemon sample_cfg new_database sample_poll 0 False"

subsection \<open>Caches\<close>

definition caches_ok :: "'h daemon \<Rightarrow> bool" where
  "caches_ok dm \<longleftrightarrow> gpu_reading (gm_latest (dm_gpu dm)) \<and> latest_ok (sv_latest (dm_server dm))
     \<and> is_obj (sv_extra (dm_server dm)) \<and> extra_ok (sv_extra (dm_server dm))"

lemma gpu_reading_unavailable: "gpu_reading (unavailable r)"
  unfolding gpu_reading_def by blast

lemma decode_buffer_reading: "gpu_reading (fst st) \<Longrightarrow> gpu_reading (fst (fst (decode_buffer st buffer)))"
proof (induction st buffer rule: decode_buffer.induct)
  case (1 st buffer)
  show ?case
  proof (cases "lstrip_chars stray_chars buffer = [] \<or> raw_decode (lstrip_chars stray_chars buffer) = None")
    case True
    with "1.prems" show ?thesis by (subst decode_buffer.simps) (auto simp: Let_def)
  next
    case False
    then obtain obj rest where r: "raw_decode (lstrip_chars stray_chars buffer) = Some (obj, rest)" by auto
    have "gpu_reading (fst (if is_obj obj then (extract_engines obj, True) else st))"
      using "1.prems" gpu_reading_extract by simp
    from "1.IH" [OF refl _ r refl this] False r show ?thesis by (subst decode_buffer.simps) (simp add: Let_def)
  qed
qed

lemma read_chunks_reading: "gpu_reading (fst (fst sb)) \<Longrightarrow> gpu_reading (fst (fst (read_chunks sb cs)))"
  by (induction sb cs rule: read_chunks.induct) (auto simp: decode_buffer_reading)

lemma gpu_round_reading:
  assumes "gpu_round proc gm = Inr (gm', wait)" "gpu_reading (gm_latest gm)"
  shows "gpu_reading (gm_latest gm')"
proof (cases proc)
  case (Inl e)
  then show ?thesis using assms by (auto simp: gpu_round_def try_stream_def gpu_reading_unavailable split: if_splits)
next
  case (Inr cs)
  obtain latest got rest where r: "read_chunks ((gm_latest gm, False), []) cs = ((latest, got), rest)" by (metis surj_pair)
  then have "gpu_reading latest" using read_chunks_reading [of "((gm_latest gm, False), [])" cs] assms(2) by simp
  then show ?thesis using assms(1) Inr r by (auto simp: gpu_round_def try_stream_def gpu_reading_unavailable split: if_splits)
qed

lemma status_turn_extra: "sv_extra (extra_status_turn f which exec sv) =
    JObj ((''available'', JBool True) # collect_status (status_sections f which exec (sv_latest sv)))"
  by (simp add: extra_status_turn_def set_extra_status_cache_def)

definition same_caches :: "server \<Rightarrow> server \<Rightarrow> bool" where
  "same_caches sv sv' \<longleftrightarrow> sv_latest sv' = sv_latest sv \<and> sv_extra sv' = sv_extra sv"

lemma same_caches_refl [simp]: "same_caches sv sv"
  by (simp add: same_caches_def)

lemma broadcast_caches [simp]: "same_caches sv (broadcast ft n d sv')  = same_caches sv sv'"
  by (simp add: same_caches_def broadcast_def map_clients_def)

lemma deliver_caches: "same_caches sv (deliver ft st sv)"
proof -
  have "same_caches sv (foldl (\<lambda>s ev. broadcast ft n (event_dict ev) s) sv' evs) = same_caches sv sv'" for n sv' evs
    by (induction evs arbitrary: sv') simp_all
  then show ?thesis by (simp add: deliver_def) (simp add: same_caches_def)
qed


lemma commands_caches:
  assumes "(n, h) \<in> set COMMANDS" "h env cid args sv = (sv', r)"
  shows "same_caches sv sv'"
  using assms unfolding COMMANDS_def
  by (auto simp: same_caches_def cmd_ping_def cmd_subscribe_def cmd_unsubscribe_def change_subs_def Let_def at_client_def
      map_clients_def cmd_get_snapshot_def cmd_get_login_history_def cmd_get_speedtest_history_def cmd_run_speedtest_def
      cmd_get_resource_history_def cmd_get_keys_def cmd_get_extra_status_def cmd_get_alerts_def cmd_restart_service_def
      cmd_reboot_system_def note_run_def split: if_splits sum.splits prod.splits json.splits)

lemma client_caches [simp]:
  "same_caches sv (at_client cid f sv') = same_caches sv sv'" "same_caches sv (close_client cid sv') = same_caches sv sv'"
  "same_caches sv (accept_client cid sv') = same_caches sv sv'"
  by (simp_all add: same_caches_def at_client_def map_clients_def close_client_def accept_client_def)

lemma dispatch_caches: "dispatch env cid request sv = (sv', e) \<Longrightarrow> same_caches sv sv'"
proof -
  assume d: "dispatch env cid request sv = (sv', e)"
  show ?thesis
  proof (cases "find_handler (field request ''cmd'')")
    case None
    with d show ?thesis by (auto simp: dispatch_def Let_def split: if_splits)
  next
    case (Some h)
    then obtain n where n: "(n, h) \<in> set COMMANDS" by (auto simp: find_handler_def split: json.splits dest: map_of_SomeD)
    obtain sv1 r where h: "h env cid (request_args request) sv = (sv1, r)" by fastforce
    from commands_caches [OF n h] d Some h show ?thesis by (auto simp: dispatch_def Let_def split: if_splits)
  qed
qed

lemma input_caches: "same_caches sv (fst (handle_input env cid inp sv))"
  by (auto simp: handle_input_def end_client_def split: client_input.splits if_splits sum.splits exn.splits
      prod.splits option.splits dest: dispatch_caches)

lemma clients_world: "sv_world (fst (handle_input env cid inp sv)) = sv_world sv"
proof (cases "handle_input env cid inp sv")
  case (Pair sv' e)
  from handle_input_ok [OF this] Pair show ?thesis by (simp add: step_ok_def)
qed

lemma metrics_turn_caches:
  assumes "gpu_reading gpu" "latest_ok (sv_latest sv)" "metrics_turn env ft interval pp gpu now (mt, sv) = ((mt', sv'), e)"
  shows "latest_ok (sv_latest sv') \<and> sv_extra sv' = sv_extra sv"
proof (cases "snd (snapshot pp (mt_collector mt))")
  case (Inl x)
  then show ?thesis using assms(2,3) by (auto simp: metrics_turn_def split: prod.splits)
next
  case (Inr s)
  then have "sv_latest sv' = snapshot_json s gpu \<and> sv_extra sv' = sv_extra sv"
    using assms(3) by (auto simp: metrics_turn_def Let_def set_latest_snapshot_def broadcast_def map_clients_def with_sv_db_def
        split: prod.splits sum.splits)
  with assms(1) show ?thesis by (auto simp: latest_ok_def)
qed

lemma test_caches: "sv_latest (run_speedtest_and_broadcast ft lib ts sv) = sv_latest sv" "sv_extra (run_speedtest_and_broadcast ft lib ts sv) = sv_extra sv"
  by (simp_all add: run_speedtest_and_broadcast_def broadcast_def map_clients_def with_sv_db_def split: prod.split)

lemma event_caches: "caches_ok dm \<Longrightarrow> caches_ok (event_turn env ft cfg ev dm)"
proof (cases ev)
  case (Metrics_Turn pp now)
  assume ok: "caches_ok dm"
  obtain mt sv e where m: "metrics_turn env ft (rc_flush_interval cfg) pp (gm_latest (dm_gpu dm)) now (dm_metrics dm, dm_server dm)
      = ((mt, sv), e)" by (metis surj_pair)
  from metrics_turn_caches [OF _ _ m] ok metrics_event_fields [OF m] Metrics_Turn show ?thesis by (auto simp: caches_ok_def)
next
  case (Message_Turn fv ts m)
  assume "caches_ok dm"
  with Message_Turn deliver_caches [of "dm_server dm" ft] show ?thesis
    by (auto simp: caches_ok_def message_turn_def same_caches_def split: prod.split)
next
  case (Status_Turn which exec)
  assume "caches_ok dm"
  with Status_Turn status_cache_ok show ?thesis
    by (auto simp: caches_ok_def status_turn_extra) (simp_all add: extra_status_turn_def set_extra_status_cache_def)
next
  case (Gpu_Turn proc)
  assume "caches_ok dm"
  with Gpu_Turn gpu_round_reading show ?thesis by (auto simp: caches_ok_def gpu_event_def split: sum.split)
next
  case (Client_Turn senv cid inp)
  assume "caches_ok dm"
  with Client_Turn input_caches [of "dm_server dm"] show ?thesis by (simp add: caches_ok_def same_caches_def)
next
  case (Speedtest_Turn lib ts)
  assume "caches_ok dm"
  with Speedtest_Turn test_caches show ?thesis by (simp add: caches_ok_def speedtest_turn_def)
next
  case (Requested_Test lib ts)
  assume "caches_ok dm"
  with Requested_Test test_caches show ?thesis by (simp add: caches_ok_def)
qed (auto simp: caches_ok_def with_sv_db_def retention_turn_def accept_client_def)

lemma run_caches: "caches_ok dm \<Longrightarrow> caches_ok (daemon_run env ft cfg evs dm)"
proof (induction evs arbitrary: dm)
  case (Cons ev evs)
  have "caches_ok (daemon_turn env ft cfg ev dm)"
    using event_caches [OF Cons.prems, of env ft cfg ev] Cons.prems by (simp add: daemon_turn_def caches_ok_def)
  then show ?case using Cons.IH by simp
qed simp

text \<open>C10. In every run of the daemon from its start, whatever its sensors, its tools, the GPU program's bytes and
  its clients do, the snapshot and the status it serves, and the GPU reading that goes into the next
  snapshot, have the shape the client applies without raising.\<close>

theorem caches_always_applicable:
  "caches_ok (daemon_run env ft cfg evs (start_daemon cfg db pp now installed))"
proof (rule run_caches)
  have "extra_ok (JObj [(''available'', JBool False)])" by (simp add: extra_ok_def has_shape_def)
  then show "caches_ok (start_daemon cfg db pp now installed)"
    using gpu_reading_unavailable
    by (auto simp: caches_ok_def start_daemon_def omnia_start_def new_server_def latest_ok_def gpu_start_def start_gpu_def
        new_gpu_monitor_def disable_def)
qed


subsection \<open>Loops that end and loops that do not\<close>

lemma message_rows: "snapshot_rows (fst (message_turn env ft fv ts m sv)) = snapshot_rows sv"
proof -
  have fire: "resource_snapshots (w_db (fst (on_ssh_event env ev w))) = resource_snapshots (w_db w)" for ev w
    using on_ssh_event_cases [of env ev w] maybe_fire_snapshots by (metis fst_conv)
  have ev: "resource_snapshots (ig_db (fst (on_event env ev st))) = resource_snapshots (ig_db st)" for ev st
    using fire [of ev "ig_world st"] by (cases "on_ssh_event env ev (ig_world st)") (auto simp: on_event_def ig_db_def split: sum.split)
  have ins: "resource_snapshots db = resource_snapshots (ig_db st)" if "insert_login_event e (ig_db st) = Inr db" for e db and st :: ingest
    using that by (auto simp: insert_login_event_Inr)
  have "resource_snapshots (ig_db (fst (handle_message env fv ts m st))) = resource_snapshots (ig_db st)" for st
    by (auto simp: handle_message_def Let_def ev split: sum.split option.split prod.split)
      (auto simp: ig_db_def with_db_def dest: ins [unfolded ig_db_def])
  from this [of "ingest_of sv"] show ?thesis
    by (auto simp: message_turn_def snapshot_rows_def sv_db_def ig_db_def ingest_of_def server_simps split: prod.split)
qed

definition frozen :: "'h metrics_task \<Rightarrow> server \<Rightarrow> 'h daemon \<Rightarrow> bool" where
  \<comment> \<open>the collector's loop has ended, and left this behind\<close>
  "frozen mt sv dm \<longleftrightarrow> Metrics_Loop \<notin> set (dm_alive dm) \<and> dm_metrics dm = mt \<and> sv_latest (dm_server dm) = sv_latest sv
     \<and> set (snapshot_rows (dm_server dm)) \<subseteq> set (snapshot_rows sv)"

lemma frozen_server: "frozen mt sv dm \<Longrightarrow> sv_latest (f (dm_server dm)) = sv_latest (dm_server dm) \<Longrightarrow>
    set (snapshot_rows (f (dm_server dm))) \<subseteq> set (snapshot_rows (dm_server dm)) \<Longrightarrow> frozen mt sv (on_server f dm)"
  by (auto simp: frozen_def)

lemma test_rows: "snapshot_rows (run_speedtest_and_broadcast ft lib ts sv) = snapshot_rows sv"
  by (simp add: run_speedtest_and_broadcast_def run_speedtest_def insert_speedtest_result_def broadcast_def map_clients_def
      snapshot_rows_def sv_db_def with_sv_db_def Let_def)

lemma frozen_event:
  assumes "frozen mt sv dm" "task_of ev \<noteq> Some Metrics_Loop"
  shows "frozen mt sv (event_turn env ft cfg ev dm)"
proof (cases ev)
  case (Metrics_Turn pp now)
  then show ?thesis using assms(2) by (simp add: task_of_def)
next
  case (Message_Turn fv ts m)
  have "sv_latest (fst (message_turn env ft fv ts m (dm_server dm))) = sv_latest (dm_server dm)"
    using deliver_caches [of "dm_server dm" ft] by (auto simp: message_turn_def same_caches_def split: prod.split)
  with Message_Turn show ?thesis by (simp add: frozen_server [OF assms(1)] message_rows)
next
  case (Client_Turn senv cid inp)
  let ?env = "senv\<lparr>se_features := rc_features cfg\<rparr>"
  have "sv_latest (fst (handle_input ?env cid inp (dm_server dm))) = sv_latest (dm_server dm)"
    using input_caches [of "dm_server dm"] by (simp add: same_caches_def)
  moreover have "snapshot_rows (fst (handle_input ?env cid inp (dm_server dm))) = snapshot_rows (dm_server dm)"
    using clients_world [of ?env cid inp "dm_server dm"] by (simp add: snapshot_rows_def sv_db_def)
  ultimately show ?thesis unfolding Client_Turn by (simp add: frozen_server [OF assms(1)])
next
  case (Gpu_Turn proc)
  then show ?thesis using assms(1) by (auto simp: frozen_def dest: subsetD [OF gpu_event_fields(3)])
next
  case (Requested_Test lib ts)
  have "frozen mt sv (dm\<lparr>dm_tested := Suc (dm_tested dm)\<rparr>)" using assms(1) by (simp add: frozen_def)
  from frozen_server [OF this, of "run_speedtest_and_broadcast ft lib ts"] show ?thesis
    unfolding Requested_Test by (simp add: test_caches test_rows)
next
  case Signal
  then show ?thesis using assms(1) by (simp add: frozen_def)
qed (auto intro!: frozen_server [OF assms(1)] simp: snapshot_rows_def sv_db_def with_sv_db_def table_simps speedtest_turn_def
    run_speedtest_and_broadcast_def run_speedtest_def insert_speedtest_result_def broadcast_def map_clients_def extra_status_turn_def
    set_extra_status_cache_def retention_turn_def cleanup_retention_def delete_rows_def accept_client_def set_state_def Let_def
    split: prod.split)

lemma frozen_run: "frozen mt sv dm \<Longrightarrow> frozen mt sv (daemon_run env ft cfg evs dm)"
proof (induction evs arbitrary: dm)
  case (Cons ev evs)
  have "frozen mt sv (daemon_turn env ft cfg ev dm)"
  proof (cases "refused ev dm")
    case True
    with Cons.prems show ?thesis by (simp only: daemon_turn_def if_True)
  next
    case False
    moreover from False Cons.prems have "task_of ev \<noteq> Some Metrics_Loop" by (auto simp: frozen_def refused_def)
    ultimately have "frozen mt sv (event_turn env ft cfg ev dm)" using frozen_event [OF Cons.prems] by blast
    with False show ?thesis by (auto simp: daemon_turn_def frozen_def dest: subsetD [OF shut_down_fields(4)])
  qed
  then show ?case using Cons.IH by simp
qed simp

text \<open>C24. One poll of the collector that raises (a sensor, a disk, an alert email whose subject has a line break)
  ends its loop for good, and nothing restarts it: in every continuation the snapshot the clients get stays
  the last one, no further row is ever stored, and what was buffered is never flushed.\<close>

theorem failed_poll_ends_the_collector:
  assumes "metrics_turn env ft (rc_flush_interval cfg) pp (gm_latest (dm_gpu dm)) now (dm_metrics dm, dm_server dm) = ((mt, sv), Some e)"
    "\<not> dm_stopped dm" "Metrics_Loop \<in> set (dm_alive dm)"
  shows "frozen mt sv (daemon_run env ft cfg (Metrics_Turn pp now # evs) dm)"
proof -
  have "daemon_turn env ft cfg (Metrics_Turn pp now) dm = shut_down cfg (metrics_event env ft cfg pp now dm)"
    using assms(2,3) by (simp add: daemon_turn_def refused_def task_of_def)
  then have "frozen mt sv (daemon_turn env ft cfg (Metrics_Turn pp now) dm)"
    using metrics_event_fields [OF assms(1)] by (auto simp: frozen_def dest: subsetD [OF shut_down_fields(4)])
  then show ?thesis by (simp add: frozen_run)
qed

lemma broken_poll_raises: "metrics_turn quiet_env (\<lambda>_. ''0.5'') 300 broken_poll gpu 2 (dm_metrics sample_start, dm_server sample_start)
    = ((fst (fst (metrics_turn quiet_env (\<lambda>_. ''0.5'') 300 broken_poll gpu 2 (dm_metrics sample_start, dm_server sample_start))),
        dm_server sample_start), Some IndexError)"
  by (simp add: metrics_turn_def snapshot_def broken_poll_def sample_poll_def temperatures_of_def Let_def split: prod.split)

theorem failed_poll_ends_the_collector_witness:
  "sv_latest (dm_server (daemon_run quiet_env (\<lambda>_. ''0.5'') sample_cfg [Metrics_Turn broken_poll 2, Metrics_Turn sample_poll 4] sample_start))
    = JObj []"
proof -
  have a: "\<not> dm_stopped sample_start" "Metrics_Loop \<in> set (dm_alive sample_start)" "sv_latest (dm_server sample_start) = JObj []"
    by (simp_all add: sample_start_def start_daemon_def omnia_start_def new_server_def split: prod.split)
  have "rc_flush_interval sample_cfg = 300" by (simp add: sample_cfg_def)
  from failed_poll_ends_the_collector [of quiet_env "\<lambda>_. ''0.5''" sample_cfg broken_poll sample_start 2, unfolded this,
      OF broken_poll_raises a(1,2), of "[Metrics_Turn sample_poll 4]"] a(3)
  show ?thesis by (simp add: frozen_def)
qed

lemma alive_event:
  "t \<notin> {Metrics_Loop, Gpu_Monitor_Loop} \<Longrightarrow> t \<in> set (dm_alive dm) \<Longrightarrow> t \<in> set (dm_alive (event_turn env ft cfg ev dm))"
  by (cases ev) (auto simp: metrics_event_def gpu_event_def Let_def split: prod.split sum.split option.split)

lemma stopped_run: "dm_stopped dm \<Longrightarrow> daemon_run env ft cfg evs dm = dm"
  by (induction evs arbitrary: dm) (simp_all add: daemon_turn_def refused_def)

definition goes_on :: "task \<Rightarrow> run_config \<Rightarrow> 'h daemon \<Rightarrow> bool" where
  \<comment> \<open>the task runs, or the daemon was asked to stop and has no client any more if it waits for them\<close>
  "goes_on t cfg dm \<longleftrightarrow> (t \<in> set (dm_alive dm) \<and> \<not> dm_stopped dm)
     \<or> (dm_stopped dm \<and> dm_closing dm \<and> (rc_waits cfg \<longrightarrow> sv_clients (dm_server dm) = []))"

lemma event_stopped: "dm_stopped (event_turn env ft cfg ev dm) = dm_stopped dm"
  by (cases ev) (auto simp: metrics_event_def gpu_event_def Let_def split: prod.split sum.split option.split)

lemma event_closing: "ev \<noteq> Signal \<Longrightarrow> dm_closing (event_turn env ft cfg ev dm) = dm_closing dm"
  by (cases ev) (auto simp: metrics_event_def gpu_event_def task_ends_def Let_def split: prod.split sum.split option.split)

lemma goes_on_turn:
  assumes "goes_on t cfg dm" "t \<notin> {Metrics_Loop, Gpu_Monitor_Loop}"
  shows "goes_on t cfg (daemon_turn env ft cfg ev dm)"
proof (cases "refused ev dm")
  case True
  with assms(1) show ?thesis by (simp only: daemon_turn_def if_True)
next
  case False
  with assms(1) have a: "t \<in> set (dm_alive dm)" "\<not> dm_stopped dm" by (auto simp: goes_on_def refused_def)
  let ?d = "event_turn env ft cfg ev dm"
  have "t \<in> set (dm_alive ?d)" "\<not> dm_stopped ?d" using alive_event [OF assms(2) a(1)] a(2) event_stopped [of env ft cfg ev dm] by auto
  with False show ?thesis by (simp add: daemon_turn_def shut_down_def goes_on_def)
qed

lemma goes_on_run:
  "goes_on t cfg dm \<Longrightarrow> t \<notin> {Metrics_Loop, Gpu_Monitor_Loop} \<Longrightarrow> goes_on t cfg (daemon_run env ft cfg evs dm)"
  by (induction evs arbitrary: dm) (simp_all add: goes_on_turn)

lemma open_run: "\<not> dm_closing dm \<Longrightarrow> Signal \<notin> set evs \<Longrightarrow> \<not> dm_closing (daemon_run env ft cfg evs dm)"
proof (induction evs arbitrary: dm)
  case (Cons ev evs)
  then have "\<not> dm_closing (daemon_turn env ft cfg ev dm)" using event_closing [of ev env ft cfg dm] by (auto simp: daemon_turn_def)
  with Cons show ?case by simp
qed simp



end
