(* ===== verification/Tui_Surface.thy ===== *)
theory Tui_Surface
  imports Tui_Facts
begin

section \<open>The surface both backends share\<close>

text \<open>
  \<open>backend.py\<close> says it "exposes exactly the same attribute/method surface as \<open>OmniaMockBackend\<close>": the
  record \<open>surface\<close> is that surface, with texts as texts and numbers as numbers. The panels are
  defined over it. \<open>surface_of_backend\<close> reads a payload's value at the type a panel uses it at, which
  is the type the daemon sends.
\<close>

record surface =
  sf_ready :: bool
  sf_connection :: conn_state
  sf_sessions :: "(string, rat) active_session list"
  sf_history :: "(string, rat) tui_login list"
  sf_keys :: "(string, rat) tui_key list"
  sf_fail2ban_available :: bool
  sf_blocked_ips :: "string blocked_ip list"
  sf_cpu_total_pct :: rat
  sf_cpu_per_core :: "rat list"
  sf_mem_used_mb :: rat
  sf_mem_total_mb :: rat
  sf_swap_pct :: rat
  sf_uptime_seconds :: rat
  sf_temps_available :: bool
  sf_temps :: "(string \<times> rat) list"
  sf_disks :: "string tui_disk list"
  sf_net_upload_kbps :: rat
  sf_net_download_kbps :: rat
  sf_net_history_down :: "rat list"
  sf_gpu_available :: bool
  sf_gpu_engines :: "(string \<times> rat) list"
  sf_processes :: "(string, rat) tui_process list"
  sf_speedtest_running :: bool
  sf_speedtest_error :: "string option"
  sf_speedtest_history :: "(string, rat) speed_result list"
  sf_services :: "string tui_service list"
  sf_restarting :: "string option"
  sf_containers_available :: bool
  sf_containers :: "string container_info list"
  sf_updates_count :: int
  sf_updates_manager :: string
  sf_disk_health :: "string disk_health list"
  sf_dangerous :: bool
  sf_alerts :: "(string, rat) tui_alert list"

definition sf_mem_pct :: "surface \<Rightarrow> rat" where
  "sf_mem_pct s = mem_pct_of (sf_mem_used_mb s) (sf_mem_total_mb s)"

definition sf_sorted_processes :: "string \<Rightarrow> surface \<Rightarrow> (string, rat) tui_process list" where
  "sf_sorted_processes by s = sort_desc (if by = ''cpu'' then tp_cpu_pct else tp_mem_pct) (sf_processes s)"

subsection \<open>The simulated backend\<close>

definition surface_of_mock :: "timestamp \<Rightarrow> mock \<Rightarrow> surface" where
  "surface_of_mock now m = \<lparr>sf_ready = mk_ready m, sf_connection = mk_connection m, sf_sessions = mk_sessions m,
     sf_history = mk_login_history m, sf_keys = mk_ssh_keys m, sf_fail2ban_available = mk_fail2ban_available m,
     sf_blocked_ips = mk_blocked_ips m, sf_cpu_total_pct = mock_cpu_total_pct m, sf_cpu_per_core = mk_cpu_per_core m,
     sf_mem_used_mb = mk_mem_used_mb m, sf_mem_total_mb = mk_mem_total_mb m, sf_swap_pct = mk_swap_pct m,
     sf_uptime_seconds = mock_uptime_seconds now m, sf_temps_available = True, sf_temps = mk_temps m,
     sf_disks = mk_disks m, sf_net_upload_kbps = mk_net_upload_kbps m, sf_net_download_kbps = mk_net_download_kbps m,
     sf_net_history_down = mk_net_history_down m, sf_gpu_available = False, sf_gpu_engines = [],
     sf_processes = mk_processes m, sf_speedtest_running = mk_speedtest_running m,
     sf_speedtest_error = mk_speedtest_error m, sf_speedtest_history = mk_speedtest_history m,
     sf_services = mk_services m, sf_restarting = mk_restarting m, sf_containers_available = False, sf_containers = [],
     sf_updates_count = mk_updates_count m, sf_updates_manager = ''apt'',
     sf_disk_health = [\<lparr>dh_device = ''/dev/sda'', dh_status = ''ok''\<rparr>, \<lparr>dh_device = ''/dev/sdb'', dh_status = ''ok''\<rparr>],
     sf_dangerous = True, sf_alerts = mk_alerts m\<rparr>"

subsection \<open>The real backend\<close>

fun obj_items :: "json \<Rightarrow> (string \<times> json) list" where
  "obj_items (JObj kvs) = kvs" | "obj_items _ = []"

definition login_view :: "(json, json) tui_login \<Rightarrow> (string, rat) tui_login" where
  "login_view e = \<lparr>tl_ts = num_of (tl_ts e), tl_user = str_of (tl_user e), tl_ip = str_of (tl_ip e), tl_result = tl_result e,
     tl_key_label = str_of (tl_key_label e), tl_detail = str_of (tl_detail e)\<rparr>"

definition session_view :: "(json, json) active_session \<Rightarrow> (string, rat) active_session" where
  "session_view s = \<lparr>as_user = str_of (as_user s), as_ip = str_of (as_ip s), as_tty = str_of (as_tty s),
     as_key_label = str_of (as_key_label s), as_key_type = str_of (as_key_type s),
     as_connected_since = num_of (as_connected_since s)\<rparr>"

definition key_view :: "(json, json) tui_key \<Rightarrow> (string, rat) tui_key" where
  "key_view k = \<lparr>tk_label = str_of (tk_label k), tk_key_type = str_of (tk_key_type k),
     tk_fingerprint = str_of (tk_fingerprint k), tk_last_used = map_option num_of (tk_last_used k)\<rparr>"

definition test_view :: "(json, json) speed_result \<Rightarrow> (string, rat) speed_result" where
  "test_view r = \<lparr>sp_ts = num_of (sp_ts r), sp_download_mbps = num_of (sp_download_mbps r),
     sp_upload_mbps = num_of (sp_upload_mbps r), sp_ping_ms = num_of (sp_ping_ms r), sp_server_name = str_of (sp_server_name r)\<rparr>"

definition process_view :: "(json, json) tui_process \<Rightarrow> (string, rat) tui_process" where
  "process_view p = \<lparr>tp_pid = num_of (tp_pid p), tp_name = str_of (tp_name p), tp_cpu_pct = num_of (tp_cpu_pct p),
     tp_mem_pct = num_of (tp_mem_pct p)\<rparr>"

definition disk_view :: "json tui_disk \<Rightarrow> string tui_disk" where
  "disk_view d = \<lparr>td_mount = str_of (td_mount d), td_device = str_of (td_device d), td_fstype = str_of (td_fstype d),
     td_used_gb = td_used_gb d, td_total_gb = td_total_gb d\<rparr>"

definition container_view :: "json container_info \<Rightarrow> string container_info" where
  "container_view c = \<lparr>ci_name = str_of (ci_name c), ci_image = str_of (ci_image c), ci_status = str_of (ci_status c),
     ci_state = str_of (ci_state c)\<rparr>"

definition alert_view :: "(json, json) tui_alert \<Rightarrow> (string, rat) tui_alert" where
  "alert_view a = \<lparr>ta_ts = num_of (ta_ts a), ta_kind = str_of (ta_kind a), ta_description = str_of (ta_description a)\<rparr>"

definition surface_of_backend :: "backend \<Rightarrow> surface" where
  "surface_of_backend b = \<lparr>sf_ready = be_ready b, sf_connection = be_connection b,
     sf_sessions = map session_view (be_sessions b), sf_history = map login_view (be_history b),
     sf_keys = map key_view (be_ssh_keys b), sf_fail2ban_available = be_fail2ban_available b,
     sf_blocked_ips = map (\<lambda>x. \<lparr>bi_ip = str_of (bi_ip x), bi_rule = bi_rule x, bi_banned_at = bi_banned_at x\<rparr>) (be_blocked_ips b),
     sf_cpu_total_pct = num_of (be_cpu_total b), sf_cpu_per_core = map num_of (be_cpu_per_core b),
     sf_mem_used_mb = be_mem_used_mb b, sf_mem_total_mb = be_mem_total_mb b, sf_swap_pct = num_of (be_swap_pct b),
     sf_uptime_seconds = num_of (be_uptime b), sf_temps_available = be_temps_available b,
     sf_temps = map (\<lambda>(l, c). (str_of l, num_of c)) (be_temps b), sf_disks = map disk_view (be_disks b),
     sf_net_upload_kbps = be_net_upload_kbps b, sf_net_download_kbps = be_net_download_kbps b,
     sf_net_history_down = be_net_history_down b, sf_gpu_available = be_gpu_available b,
     sf_gpu_engines = map (\<lambda>(e, p). (e, num_of p)) (obj_items (be_gpu_engines b)),
     sf_processes = map process_view (be_processes b), sf_speedtest_running = be_speedtest_running b,
     sf_speedtest_error = (if truthy (be_speedtest_error b) then Some (str_of (be_speedtest_error b)) else None),
     sf_speedtest_history = map test_view (be_speedtest_history b),
     sf_services = map (\<lambda>s. \<lparr>sc_name = str_of (sc_name s), sc_status = sc_status s\<rparr>) (be_services b),
     sf_restarting = be_restarting b, sf_containers_available = be_containers_available b,
     sf_containers = map container_view (be_containers b), sf_updates_count = Py_Text.truncate (num_of (be_updates_count b)),
     sf_updates_manager = str_of (be_updates_manager b),
     sf_disk_health = map (\<lambda>d. \<lparr>dh_device = dh_device d, dh_status = str_of (dh_status d)\<rparr>) (be_disk_health b),
     sf_dangerous = be_dangerous b, sf_alerts = map alert_view (be_alerts b)\<rparr>"

end
