(* ===== verification/Tui_Panels.thy ===== *)
theory Tui_Panels
  imports Tui_Surface
begin

section \<open>The panels\<close>

text \<open>
  \<open>theme.py\<close>, \<open>widgets.py\<close> and the five panels of \<open>screens/\<close>: what \<open>refresh_data\<close> puts in the tables
  and texts, and what the key presses and buttons do to a panel's own state. A coloured text is
  the text with its colour; the block glyphs of a bar and the warning sign are not Latin-1, so a
  bar is a list of \<open>bar_cell\<close>s and a warning a flag. \<open>fmt_dt\<close>, the local date of a timestamp, is a
  parameter. A panel that is not ready shows nothing new (\<open>None\<close>).
\<close>

subsection \<open>theme.py and widgets.py\<close>

definition SUCCESS :: string where "SUCCESS = ''#4ade80''"
definition WARNING :: string where "WARNING = ''#facc15''"
definition ERROR :: string where "ERROR = ''#f87171''"
definition NEUTRAL :: string where "NEUTRAL = ''#8b98a3''"
definition ACCENT :: string where "ACCENT = ''#2dd4c4''"
definition TEXT_MUTED :: string where "TEXT_MUTED = ''#66757f''"

type_synonym coloured = "string \<times> string"

definition lookup_or :: "('k \<times> 'v) list \<Rightarrow> 'k \<Rightarrow> 'v \<Rightarrow> 'v" where
  \<comment> \<open>\<open>d.get(k, default)\<close>\<close>
  "lookup_or d k v = (case map_of d k of Some x \<Rightarrow> x | None \<Rightarrow> v)"

definition STATUS_COLORS :: "(string \<times> string) list" where
  "STATUS_COLORS = [(''ok'', SUCCESS), (''active'', SUCCESS), (''success'', SUCCESS), (''connected'', SUCCESS),
     (''warning'', WARNING), (''attention'', WARNING), (''reconnecting'', WARNING), (''degraded'', WARNING),
     (''error'', ERROR), (''failed'', ERROR), (''failure'', ERROR), (''critical'', ERROR), (''disconnected'', ERROR),
     (''inactive'', TEXT_MUTED), (''unknown'', TEXT_MUTED), (''unavailable'', TEXT_MUTED)]"

definition status_color :: "string \<Rightarrow> string" where
  "status_color status = lookup_or STATUS_COLORS status TEXT_MUTED"

datatype bar_cell = Full | Empty

definition pct_bar :: "rat \<Rightarrow> nat \<Rightarrow> bar_cell list" where
  "pct_bar pct width = (let filled = nat (round_half_even (clamp 0 100 pct / 100 * of_nat width)) in
     replicate filled Full @ replicate (width - filled) Empty)"

definition pct_color :: "rat \<Rightarrow> string" where
  "pct_color pct = (if pct \<ge> 90 then ERROR else if pct \<ge> 75 then WARNING else SUCCESS)"

definition dialog_answer :: "string option \<Rightarrow> bool" where
  \<comment> \<open>what \<open>ConfirmDialog\<close> dismisses with: the id of the pressed button, or escape\<close>
  "dialog_answer pressed = (pressed = Some ''confirm-btn'')"

datatype 'r table_view = Rows "'r list" | Message string

definition table_or :: "'r list \<Rightarrow> string \<Rightarrow> 'r table_view" where
  "table_or rows msg = (if rows = [] then Message msg else Rows rows)"

definition indisponivel :: string where
  "indisponivel = ''N'' @ [CHR 0xE3] @ ''o dispon'' @ [CHR 0xED] @ ''vel neste servidor.''"

definition percent_text :: "rat \<Rightarrow> string" where
  "percent_text x = fmt_fixed 0 x @ ''%''"

subsection \<open>screens/ssh.py\<close>

definition RESULT_LABELS :: "login_result \<Rightarrow> string" where
  "RESULT_LABELS r = (case r of Success \<Rightarrow> ''sucesso'' | Failure \<Rightarrow> ''falha''
     | Invalid_User \<Rightarrow> ''usu'' @ [CHR 0xE1] @ ''rio inv'' @ [CHR 0xE1] @ ''lido'' | Disconnected \<Rightarrow> ''desconectado'')"

definition result_text :: "login_result \<Rightarrow> coloured" where
  "result_text r = (RESULT_LABELS r, case r of Success \<Rightarrow> SUCCESS | Failure \<Rightarrow> ERROR | Invalid_User \<Rightarrow> ERROR
     | Disconnected \<Rightarrow> NEUTRAL)"

definition PAGE_SIZE :: nat where
  "PAGE_SIZE = 20"

record ssh_panel =
  sh_visible_count :: nat
  sh_filter :: string

definition new_ssh_panel :: ssh_panel where
  "new_ssh_panel = \<lparr>sh_visible_count = PAGE_SIZE, sh_filter = []\<rparr>"

definition ssh_button :: "string \<Rightarrow> ssh_panel \<Rightarrow> ssh_panel" where
  "ssh_button bid p = (if bid = ''ssh-history-loadmore'' then p\<lparr>sh_visible_count := sh_visible_count p + PAGE_SIZE\<rparr> else p)"

definition ssh_input :: "string \<Rightarrow> ssh_panel \<Rightarrow> ssh_panel" where
  \<comment> \<open>the filter's text has changed to this\<close>
  "ssh_input txt p = p\<lparr>sh_filter := txt, sh_visible_count := PAGE_SIZE\<rparr>"

definition filter_events :: "string \<Rightarrow> (string, rat) tui_login list \<Rightarrow> (string, rat) tui_login list" where
  "filter_events query events = (if query = [] then events
     else filter (\<lambda>e. occurs_in query (to_lower (tl_user e)) \<or> occurs_in query (to_lower (tl_ip e))) events)"

definition is_flagged :: "(string, rat) tui_login list \<Rightarrow> nat \<Rightarrow> (string, rat) tui_login \<Rightarrow> bool" where
  "is_flagged events i event = (tl_result event = Failure \<and>
     3 \<le> length (filter (\<lambda>e. tl_ip e = tl_ip event \<and> tl_result e = Failure) (take (i + 6) events)))"

record history_row =
  hr_when :: string
  hr_user :: string
  hr_flagged :: bool
  hr_ip :: string
  hr_result :: coloured
  hr_extra :: string

definition history_row_of ::
  "(rat \<Rightarrow> string) \<Rightarrow> (string, rat) tui_login list \<Rightarrow> nat \<times> (string, rat) tui_login \<Rightarrow> history_row" where
  "history_row_of fmt_dt events ie = (case ie of (i, e) \<Rightarrow> \<lparr>hr_when = fmt_dt (tl_ts e), hr_user = tl_user e,
     hr_flagged = is_flagged events i e, hr_ip = tl_ip e, hr_result = result_text (tl_result e),
     hr_extra = (if tl_result e = Success then tl_key_label e else tl_detail e)\<rparr>)"

definition ban_row :: "timestamp \<Rightarrow> string blocked_ip \<Rightarrow> string list" where
  "ban_row now b = [bi_ip b, bi_rule b, fmt_ago now (bi_banned_at b)]"

record ssh_view =
  sh_active :: "string list table_view"
  sh_history :: "history_row list"
  sh_count :: string
  sh_loadmore_disabled :: bool
  sh_key_rows :: "string list list"
  sh_blocked :: "string list table_view"

definition sem_protecao :: string where
  "sem_protecao = ''Recurso n'' @ [CHR 0xE3] @ ''o dispon'' @ [CHR 0xED] @ ''vel neste servidor (sem prote''
     @ [CHR 0xE7, CHR 0xE3] @ ''o contra for'' @ [CHR 0xE7] @ ''a bruta instalada).''"

definition ssh_refresh :: "(rat \<Rightarrow> string) \<Rightarrow> timestamp \<Rightarrow> surface \<Rightarrow> ssh_panel \<Rightarrow> ssh_view option" where
  "ssh_refresh fmt_dt now s p = (if \<not> sf_ready s then None else
     (let events = filter_events (to_lower (strip (sh_filter p))) (sf_history s);
          visible = take (sh_visible_count p) events in
      Some \<lparr>sh_active = table_or (map (\<lambda>x. [as_user x, as_ip x, as_tty x, as_key_label x, as_key_type x,
              fmt_uptime (now - as_connected_since x)]) (sf_sessions s))
              (''Nenhuma sess'' @ [CHR 0xE3] @ ''o SSH ativa no momento.''),
        sh_history = map (history_row_of fmt_dt events) (enumerate 0 visible),
        sh_count = ''mostrando '' @ str_nat (length visible) @ '' de '' @ str_nat (length events),
        sh_loadmore_disabled = (length events \<le> sh_visible_count p),
        sh_key_rows = map (\<lambda>k. [tk_label k, tk_key_type k, tk_fingerprint k, case tk_last_used k of
            Some t \<Rightarrow> if t \<noteq> 0 then fmt_ago now t else ''nunca usada'' | None \<Rightarrow> ''nunca usada'']) (sf_keys s),
        sh_blocked = (if \<not> sf_fail2ban_available s then Message sem_protecao
          else table_or (map (ban_row now) (sf_blocked_ips s)) ''Nenhum IP bloqueado no momento.'')\<rparr>))"

subsection \<open>screens/system.py\<close>

definition system_button :: "string \<Rightarrow> string \<Rightarrow> string" where
  \<comment> \<open>the new \<open>sort_by\<close>\<close>
  "system_button bid sort_by = (if bid = ''sort-cpu-btn'' then ''cpu''
     else if bid = ''sort-mem-btn'' then ''mem'' else sort_by)"

type_synonym bar_text = "bar_cell list \<times> string"

definition bar_text_of :: "nat \<Rightarrow> rat \<Rightarrow> bar_text" where
  "bar_text_of width pct = (pct_bar pct width, percent_text pct)"

record system_view =
  yv_cpu :: string
  yv_mem :: string
  yv_swap :: string
  yv_uptime :: string
  yv_cores :: "(string \<times> bar_text) list"
  yv_temps :: "(string \<times> string) table_view"
  yv_disks :: "(string list \<times> bar_text) list"
  yv_net :: "string \<times> string"
  yv_sparkline :: "rat list"
  yv_gpu :: "(string \<times> bar_text) table_view"
  yv_processes :: "string list list"

definition process_row :: "(string, rat) tui_process \<Rightarrow> string list" where
  "process_row p = [str_int (Py_Text.truncate (tp_pid p)), tp_name p, fmt_fixed 1 (tp_cpu_pct p), fmt_fixed 1 (tp_mem_pct p)]"

definition disk_row :: "string tui_disk \<Rightarrow> string list \<times> bar_text" where
  "disk_row d = ([td_mount d, td_device d, td_fstype d,
     fmt_fixed 0 (td_used_gb d) @ ''/'' @ fmt_fixed 0 (td_total_gb d) @ '' GB''], bar_text_of 18 (disk_pct d))"

definition system_refresh :: "surface \<Rightarrow> string \<Rightarrow> system_view option" where
  "system_refresh s sort_by = (if \<not> sf_ready s then None else
     Some \<lparr>yv_cpu = percent_text (sf_cpu_total_pct s),
       yv_mem = fmt_bytes (sf_mem_used_mb s) @ ''/'' @ fmt_bytes (sf_mem_total_mb s) @ '' ('' @ percent_text (sf_mem_pct s) @ '')'',
       yv_swap = percent_text (sf_swap_pct s), yv_uptime = fmt_uptime (sf_uptime_seconds s),
       yv_cores = map (\<lambda>(i, pct). (CHR ''#'' # str_nat i, bar_text_of 20 pct)) (enumerate 0 (sf_cpu_per_core s)),
       yv_temps = (if sf_temps_available s then table_or (map (\<lambda>(l, c). (l, fmt_fixed 0 c @ [CHR 0xB0] @ ''C'')) (sf_temps s))
          indisponivel else Message indisponivel),
       yv_disks = map disk_row (sf_disks s),
       yv_net = (fmt_fixed 0 (sf_net_download_kbps s) @ '' KB/s'', fmt_fixed 0 (sf_net_upload_kbps s) @ '' KB/s''),
       yv_sparkline = sf_net_history_down s,
       yv_gpu = (if sf_gpu_available s then table_or (map (\<lambda>(e, p). (e, bar_text_of 16 p)) (sf_gpu_engines s)) indisponivel
          else Message indisponivel),
       yv_processes = map process_row (take 12 (sf_sorted_processes sort_by s))\<rparr>)"

subsection \<open>screens/speedtest.py\<close>

definition test_cards :: "(rat \<Rightarrow> string) \<Rightarrow> (string, rat) speed_result \<Rightarrow> string list" where
  "test_cards fmt_dt r = [fmt_fixed 0 (sp_download_mbps r) @ '' Mbps'', fmt_fixed 0 (sp_upload_mbps r) @ '' Mbps'',
     fmt_fixed 0 (sp_ping_ms r) @ '' ms'', sp_server_name r, fmt_dt (sp_ts r)]"

definition test_row :: "(rat \<Rightarrow> string) \<Rightarrow> (string, rat) speed_result \<Rightarrow> string list" where
  "test_row fmt_dt r = [fmt_dt (sp_ts r), fmt_fixed 0 (sp_download_mbps r) @ '' Mbps'',
     fmt_fixed 0 (sp_upload_mbps r) @ '' Mbps'', fmt_fixed 0 (sp_ping_ms r) @ '' ms'', sp_server_name r]"

record speedtest_view =
  tv_run_disabled :: bool
  tv_progress :: bool
  tv_status :: string
  tv_cards :: "string list"
  tv_table :: "string list table_view"
  tv_sparklines :: "(rat list \<times> rat list) option"

definition test_status :: "surface \<Rightarrow> string" where
  "test_status s = (if sf_speedtest_running s
       then ''Testando conex'' @ [CHR 0xE3] @ ''o... isso pode levar at'' @ [CHR 0xE9] @ '' 30 segundos.''
     else (case sf_speedtest_error s of Some e \<Rightarrow> ''[b]Falha no teste:[/b] '' @ e
       | None \<Rightarrow> if sf_speedtest_history s \<noteq> [] then ''Pronto para rodar um novo teste.'' else ''Nenhum teste rodado ainda.''))"

definition speedtest_refresh :: "(rat \<Rightarrow> string) \<Rightarrow> surface \<Rightarrow> speedtest_view option" where
  "speedtest_refresh fmt_dt s = (if \<not> sf_ready s then None else
     (let history = sf_speedtest_history s in
      Some \<lparr>tv_run_disabled = sf_speedtest_running s, tv_progress = sf_speedtest_running s, tv_status = test_status s,
        tv_cards = (if history \<noteq> [] then test_cards fmt_dt (last history) else replicate 5 ''-''),
        tv_table = table_or (map (test_row fmt_dt) (rev (take_last 30 history)))
          (''Nenhum teste rodado ainda. Use '' @ [CHR 0x22] @ ''Rodar teste agora'' @ [CHR 0x22] @ '' para come'' @ [CHR 0xE7] @ ''ar.''),
        tv_sparklines = (if history \<noteq> [] then Some (map sp_download_mbps (take_last 20 history),
            map sp_upload_mbps (take_last 20 history)) else None)\<rparr>))"

subsection \<open>screens/alerts.py\<close>

definition KIND_LABELS :: "(string \<times> string) list" where
  "KIND_LABELS = [(''login_bruteforce'', ''for'' @ [CHR 0xE7] @ ''a bruta''), (''new_key'', ''chave nova''),
     (''disk_almost_full'', ''disco cheio''), (''service_failed'', ''servi'' @ [CHR 0xE7] @ ''o falhou''),
     (''reboot'', ''rein'' @ [CHR 0xED] @ ''cio'')]"

definition KIND_COLORS :: "(string \<times> string) list" where
  "KIND_COLORS = [(''login_bruteforce'', ERROR), (''new_key'', WARNING), (''disk_almost_full'', WARNING),
     (''service_failed'', ERROR), (''reboot'', ACCENT)]"

definition kind_text :: "string \<Rightarrow> coloured" where
  "kind_text kind = (lookup_or KIND_LABELS kind kind, lookup_or KIND_COLORS kind NEUTRAL)"

definition shown_alerts :: "(string, rat) tui_alert list \<Rightarrow> (string, rat) tui_alert list" where
  "shown_alerts alerts = take 100 (sort_desc ta_ts alerts)"

definition alerts_refresh :: "(rat \<Rightarrow> string) \<Rightarrow> surface \<Rightarrow> (string \<times> coloured \<times> string) table_view option" where
  "alerts_refresh fmt_dt s = (if \<not> sf_ready s then None else Some (table_or
     (map (\<lambda>a. (fmt_dt (ta_ts a), kind_text (ta_kind a), ta_description a)) (shown_alerts (sf_alerts s)))
     ''Nenhum alerta registrado ainda.''))"

end
