(* ===== verification/Tui_App.thy ===== *)
theory Tui_App
  imports Tui_Panels
begin

section \<open>The tools panel and the application\<close>

text \<open>
  \<open>screens/tools.py\<close>, the \<open>ConfirmDialog\<close> of \<open>widgets.py\<close> and \<open>app.py\<close>. A \<open>ui_event\<close> is one message the
  user's input posts; while a dialog is on the screen stack it gets the keys, and a disabled
  button posts nothing (both are Textual's). \<open>tools_turn\<close> also gives the backend calls it makes. The
  locale \<open>live_backend\<close> is what the application relies on in either backend.
\<close>

subsection \<open>screens/tools.py\<close>

datatype backend_call = Call_Restart string | Call_Reboot

datatype ui_event = Highlight string | Press string | Dialog_Press string | Dialog_Escape

record tools_panel =
  to_selected :: "string option"
  to_note :: string
  to_restart_disabled :: bool
  to_reboot_disabled :: bool
  to_dialogs :: "backend_call list" \<comment> \<open>the screen stack above the panel, each with what confirming it does\<close>

definition new_tools_panel :: tools_panel where
  "new_tools_panel = \<lparr>to_selected = None, to_note = [], to_restart_disabled = False, to_reboot_disabled = False, to_dialogs = []\<rparr>"

definition SELECT_FIRST :: string where
  "SELECT_FIRST = ''Selecione um servi'' @ [CHR 0xE7] @ ''o na tabela acima primeiro.''"

definition tools_button :: "string \<Rightarrow> tools_panel \<Rightarrow> tools_panel" where
  "tools_button bid p = (if bid = ''restart-service-btn'' then (case to_selected p of
        None \<Rightarrow> p\<lparr>to_note := SELECT_FIRST\<rparr>
      | Some name \<Rightarrow> if name = [] then p\<lparr>to_note := SELECT_FIRST\<rparr> else p\<lparr>to_dialogs := Call_Restart name # to_dialogs p\<rparr>)
     else if bid = ''reboot-btn'' then p\<lparr>to_dialogs := Call_Reboot # to_dialogs p\<rparr> else p)"

definition is_disabled :: "string \<Rightarrow> tools_panel \<Rightarrow> bool" where
  "is_disabled bid p = (bid = ''restart-service-btn'' \<and> to_restart_disabled p \<or> bid = ''reboot-btn'' \<and> to_reboot_disabled p)"

definition note_of :: "backend_call \<Rightarrow> string" where
  "note_of c = (case c of Call_Restart name \<Rightarrow> ''Reiniciando '' @ [CHR 0x22] @ name @ [CHR 0x22] @ ''...''
     | Call_Reboot \<Rightarrow> ''Servidor reiniciado.'')"

definition on_confirmed :: "bool \<Rightarrow> backend_call \<Rightarrow> tools_panel \<Rightarrow> tools_panel \<times> backend_call list" where
  "on_confirmed confirmed c p = (if confirmed then (p\<lparr>to_note := note_of c\<rparr>, [c]) else (p, []))"

definition close_dialog :: "string option \<Rightarrow> tools_panel \<Rightarrow> tools_panel \<times> backend_call list" where
  "close_dialog pressed p = (case to_dialogs p of [] \<Rightarrow> (p, [])
     | c # cs \<Rightarrow> on_confirmed (dialog_answer pressed) c (p\<lparr>to_dialogs := cs\<rparr>))"

fun tools_turn :: "ui_event \<Rightarrow> tools_panel \<Rightarrow> tools_panel \<times> backend_call list" where
  "tools_turn (Highlight key) p = (p\<lparr>to_selected := Some key\<rparr>, [])"
| "tools_turn (Press bid) p = (if to_dialogs p \<noteq> [] \<or> is_disabled bid p then p else tools_button bid p, [])"
| "tools_turn (Dialog_Press bid) p = close_dialog (Some bid) p"
| "tools_turn Dialog_Escape p = close_dialog None p"

record tools_view =
  ov_services :: "(string \<times> coloured) list"
  ov_containers :: "string list table_view"
  ov_updates :: coloured
  ov_disks :: "(string \<times> coloured) list"

definition service_row :: "string option \<Rightarrow> string tui_service \<Rightarrow> string \<times> coloured" where
  "service_row restarting svc = (let label = (if Some (sc_name svc) = restarting then ''reiniciando...'' else sc_status svc) in
     (sc_name svc, label, status_color (if label = ''active'' then ''active''
        else if label = ''reiniciando...'' then ''warning'' else ''error'')))"

definition DISABLED_NOTE :: string where
  "DISABLED_NOTE = ''A'' @ [CHR 0xE7, CHR 0xF5] @ ''es sens'' @ [CHR 0xED] @ ''veis est'' @ [CHR 0xE3]
     @ ''o desabilitadas nas configura'' @ [CHR 0xE7, CHR 0xF5] @ ''es do servidor.''"

definition tools_refresh :: "surface \<Rightarrow> tools_panel \<Rightarrow> tools_panel \<times> tools_view option" where
  "tools_refresh s p = (if \<not> sf_ready s then (p, None) else
     (if sf_dangerous s then p else p\<lparr>to_restart_disabled := True, to_reboot_disabled := True, to_note := DISABLED_NOTE\<rparr>,
      Some \<lparr>ov_services = map (service_row (sf_restarting s)) (sf_services s),
        ov_containers = (if \<not> sf_containers_available s then Message (''N'' @ [CHR 0xE3] @ ''o instalado neste servidor.'')
          else table_or (map (\<lambda>c. [ci_name c, ci_image c, ci_status c, ci_state c]) (sf_containers s))
            (''Nenhum cont'' @ [CHR 0xEA] @ ''iner em execu'' @ [CHR 0xE7, CHR 0xE3] @ ''o.'')),
        ov_updates = (str_int (sf_updates_count s) @ '' ('' @ sf_updates_manager s @ '')'',
          if sf_updates_count s > 0 then ''warning'' else ''success''),
        ov_disks = map (\<lambda>d. (dh_device d, dh_status d, status_color (dh_status d))) (sf_disk_health s)\<rparr>))"

subsection \<open>app.py\<close>

record app =
  ap_last_update :: timestamp
  ap_loading_shown :: bool
  ap_tabs_shown :: bool
  ap_tab :: string
  ap_header :: "coloured \<times> string"
  ap_tools :: tools_panel

definition new_app :: "timestamp \<Rightarrow> app" where
  \<comment> \<open>after \<open>on_mount\<close>\<close>
  "new_app now = \<lparr>ap_last_update = now, ap_loading_shown = True, ap_tabs_shown = False, ap_tab = ''ssh'',
     ap_header = (([], []), []), ap_tools = new_tools_panel\<rparr>"

fun conn_name :: "conn_state \<Rightarrow> string" where
  "conn_name Connected = ''connected''" | "conn_name Reconnecting = ''reconnecting''" | "conn_name Offline = ''disconnected''"

fun conn_label :: "conn_state \<Rightarrow> string" where
  "conn_label Connected = ''conectado''" | "conn_label Reconnecting = ''reconectando''" | "conn_label Offline = ''desconectado''"

definition header_content :: "conn_state \<Rightarrow> string \<Rightarrow> coloured \<times> string" where
  \<comment> \<open>the state's label in its colour, and the age; host name and clock left out\<close>
  "header_content st ago = ((conn_label st, status_color (conn_name st)), ago)"

definition app_tick :: "timestamp \<Rightarrow> ('b \<Rightarrow> surface) \<Rightarrow> ('b \<Rightarrow> 'b) \<Rightarrow> 'b \<times> app \<Rightarrow> 'b \<times> app" where
  "app_tick now view tick st = (case st of (b, a) \<Rightarrow>
     (let was_ready = sf_ready (view b); b' = tick b; s = view b';
          a1 = (if sf_ready s then a\<lparr>ap_last_update := now\<rparr> else a);
          a2 = (if sf_ready s \<and> \<not> was_ready then a1\<lparr>ap_loading_shown := False, ap_tabs_shown := True\<rparr> else a1);
          ago = str_int (Py_Text.truncate (now - ap_last_update a2)) @ ''s'' in
      (b', a2\<lparr>ap_header := header_content (sf_connection s) ago, ap_tools := fst (tools_refresh s (ap_tools a2))\<rparr>)))"

definition goto_tab :: "string \<Rightarrow> app \<Rightarrow> app" where
  "goto_tab tab_id a = a\<lparr>ap_tab := tab_id\<rparr>"

subsection \<open>What the application relies on\<close>

locale live_backend =
  fixes view :: "'b \<Rightarrow> surface" and turn :: "'i \<Rightarrow> 'b \<Rightarrow> 'b" and valid :: "'b \<Rightarrow> bool"
  assumes valid_turn: "valid b \<Longrightarrow> valid (turn i b)"
    and stays_ready: "valid b \<Longrightarrow> sf_ready (view b) \<Longrightarrow> sf_ready (view (turn i b))"
    and full_history: "valid b \<Longrightarrow> length (sf_net_history_down (view b)) = 40"
begin

lemma valid_run: "valid b \<Longrightarrow> valid (foldl (\<lambda>b i. turn i b) b is)"
  by (induction "is" arbitrary: b) (simp_all add: valid_turn)

lemma ready_run: "valid b \<Longrightarrow> sf_ready (view b) \<Longrightarrow> sf_ready (view (foldl (\<lambda>b i. turn i b) b is))"
  by (induction "is" arbitrary: b) (simp_all add: valid_turn stays_ready)

lemma sparkline_full:
  "valid b \<Longrightarrow> system_refresh (view (foldl (\<lambda>b i. turn i b) b is)) k = Some v \<Longrightarrow> length (yv_sparkline v) = 40"
  using full_history [OF valid_run] by (auto simp: system_refresh_def split: if_splits)

end

interpretation mock_live: live_backend "surface_of_mock now" mock_tick mock_ok
proof
  fix b i
  assume ok: "mock_ok b"
  show "mock_ok (mock_tick i b)" using ok by (rule mock_ok_tick)
  show "length (sf_net_history_down (surface_of_mock now b)) = 40" using ok by (simp add: surface_of_mock_def mock_ok_def)
  assume "sf_ready (surface_of_mock now b)"
  then show "sf_ready (surface_of_mock now (mock_tick i b))"
    using mock_tick_test_state [of b i] by (simp add: surface_of_mock_def test_state_def)
qed

subsection \<open>The real backend\<close>

definition steady :: "bool \<Rightarrow> backend \<Rightarrow> bool" where
  "steady r b \<longleftrightarrow> length (be_net_history_down b) = 40 \<and> length (be_net_history_up b) = 40 \<and> (r \<longrightarrow> be_ready b)"

definition keeps :: "(backend \<Rightarrow> bool) \<Rightarrow> step \<Rightarrow> bool" where
  "keeps P s \<longleftrightarrow> (\<forall>b. P b \<longrightarrow> P (fst (s b)))"

named_theorems keep_intros "steps that keep a property of the state"

lemma keeps_assign [keep_intros]: "(\<And>v b. P b \<Longrightarrow> P (put v b)) \<Longrightarrow> keeps P (assign put rhs)"
  by (auto simp: keeps_def assign_def split: sum.split)

lemma keeps_pure [keep_intros]: "(\<And>b. P b \<Longrightarrow> P (f b)) \<Longrightarrow> keeps P (\<lambda>b. (f b, g b))"
  by (simp add: keeps_def)

lemma keeps_run: "(\<And>s. s \<in> set ss \<Longrightarrow> keeps P s) \<Longrightarrow> keeps P (run_steps ss)"
proof (induction ss)
  case (Cons s ss)
  then have s: "P b \<Longrightarrow> P (fst (s b))" and ss: "P b \<Longrightarrow> P (fst (run_steps ss b))" for b
    by (auto simp: keeps_def)
  have "P (fst (run_steps (s # ss) b))" if "P b" for b
    using s [OF that] ss by (auto split: prod.split option.split)
  then show ?case by (simp add: keeps_def)
qed (simp add: keeps_def)

lemma keeps_from_field: "(\<And>v. keeps P (f v)) \<Longrightarrow> keeps P (from_field data k d f)"
  by (auto simp: keeps_def from_field_def split: sum.split)

lemma keeps_metrics: "keeps (steady r) (apply_metrics data)"
proof -
  have "keeps (steady r) s" if "s \<in> set (metrics_steps data)" for s
    using that unfolding metrics_steps_def by (auto simp: steady_def push_history_length intro!: keep_intros)
  from keeps_run [OF this] show ?thesis by (simp add: keeps_def apply_metrics_def)
qed

lemma keeps_fail2ban: "keeps (steady r) (fail2ban_step now data)"
  by (auto simp: keeps_def fail2ban_step_def steady_def split: sum.split prod.split option.split)

lemma keeps_updates: "keeps (steady r) (updates_step data)"
proof -
  have "keeps (steady r) (run_steps [assign (\<lambda>v b. b\<lparr>be_updates_count := v\<rparr>) f, assign (\<lambda>v b. b\<lparr>be_updates_manager := v\<rparr>) g])" for f g
    by (rule keeps_run) (auto simp: steady_def intro!: keeps_assign)
  then show ?thesis by (auto simp: keeps_def updates_step_def split: sum.split)
qed

lemma keeps_extra: "keeps (steady r) (apply_extra_status now data)"
proof -
  have "keeps (steady r) s" if "s \<in> set (extra_status_steps now data)" for s
    using that keeps_fail2ban keeps_updates unfolding extra_status_steps_def by (auto simp: steady_def intro!: keep_intros)
  from keeps_run [OF this] show ?thesis by (simp add: keeps_def apply_extra_status_def)
qed

lemma keeps_rebuild: "keeps (steady r) rebuild_keys"
  unfolding rebuild_keys_def by (rule keeps_assign) (simp add: steady_def)

lemma keeps_small:
  "keeps (steady r) (apply_active_sessions now j)" "keeps (steady r) (apply_login_history j)"
  "keeps (steady r) (apply_new_login_event j)" "keeps (steady r) (apply_keys j)"
  "keeps (steady r) (apply_speedtest_history j)" "keeps (steady r) (apply_new_speedtest_result j)"
  "keeps (steady r) (apply_alerts j)"
  unfolding apply_active_sessions_def apply_login_history_def apply_new_login_event_def apply_keys_def
    apply_speedtest_history_def apply_new_speedtest_result_def apply_alerts_def
  using keeps_rebuild by (auto simp: steady_def split: json.split list.split intro!: keeps_run keep_intros)

lemma keeps_event: "keeps (steady r) (handle_event ev data)"
  using keeps_metrics keeps_small by (simp add: handle_event_def keeps_def)

lemma steady_send: "steady r b \<Longrightarrow> steady r (fst (send_request env cmd args w b))"
  by (cases "be_writer b") (auto simp: send_request_def steady_def Let_def)

lemma steady_field: "(\<And>v. keeps (steady r) (f v)) \<Longrightarrow> steady r b \<Longrightarrow> steady r (fst (from_field data k d f b))"
  using keeps_from_field [of "steady r" f] by (simp add: keeps_def)

lemma steady_load: "steady r b \<Longrightarrow> steady r (fst (load_step env w data b))"
proof -
  assume b: "steady r b"
  have ready: "steady r (fst (c\<lparr>be_ready := True, be_phase := Running\<rparr>, None :: exn option))" if "steady r c" for c
    using that by (simp add: steady_def)
  have extra: "steady r (fst (apply_extra_status (te_now env) data b))" using keeps_extra b by (simp add: keeps_def)
  note chain = and_then_keeps [where P = "steady r"]
  show ?thesis
  proof (cases w)
    case Load_Snapshot
    then show ?thesis
      using chain [OF steady_send chain [OF steady_field [OF keeps_small(1)] steady_field [OF keeps_metrics b]]] by simp
  next
    case Load_Alerts
    then show ?thesis using chain [OF ready steady_field [OF keeps_small(7) b]] by simp
  qed (use b steady_send [OF b] chain [OF steady_send extra] chain [OF steady_send steady_field [OF _ b]] keeps_small in simp_all)
qed

lemma steady_resume: "steady r b \<Longrightarrow> steady r (fst (resume env w x b))"
proof (cases w)
  case Refresh
  assume b: "steady r b"
  let ?b = "case x of Inl e \<Rightarrow> b
    | Inr data \<Rightarrow> fst (from_field data ''active_sessions'' (JArr []) (apply_active_sessions (te_now env)) b)"
  have "steady r ?b" using steady_field [OF keeps_small(1) b] b by (auto split: sum.split)
  then have "steady r (?b\<lparr>be_inflight := False\<rparr>)" by (simp add: steady_def)
  then show ?thesis using Refresh by (simp add: resume_def is_load_def swallow_def)
next
  case Restart_Cmd
  assume "steady r b"
  then have "steady r (b\<lparr>be_restarting := None\<rparr>)" by (simp add: steady_def)
  from steady_send [OF this] Restart_Cmd show ?thesis by (simp add: resume_def is_load_def swallow_def)
next
  case Restart_Status
  assume "steady r b"
  then show ?thesis
    using Restart_Status keeps_extra by (auto simp: resume_def is_load_def swallow_def keeps_def split: sum.split)
next
  case Start_Test
  assume "steady r b"
  then show ?thesis using Start_Test by (auto simp: resume_def is_load_def steady_def split: sum.split)
qed (auto simp: resume_def is_load_def steady_load split: sum.split simp del: load_step.simps)

lemma steady_fail: "steady r b \<Longrightarrow> steady r (fail_waiters env ws b)"
  by (induction env ws b rule: fail_waiters.induct) (simp_all add: steady_resume)

lemma steady_drop: "steady r b \<Longrightarrow> steady r (drop_connection env b)"
  unfolding drop_connection_def by (rule steady_fail) (simp add: steady_def)

lemma steady_continue: "steady r b \<Longrightarrow> steady r (continue env w x b)"
  using steady_resume [of r b env w x] steady_drop by (auto simp: continue_def split: prod.split option.split)

lemma steady_reader_failed: "steady r b \<Longrightarrow> steady r (reader_failed env b)"
  using steady_drop by (auto simp: reader_failed_def steady_def)

lemma steady_read_line: "steady r b \<Longrightarrow> steady r (fst (read_line env l b))"
proof -
  assume b: "steady r b"
  have take: "steady r (take_pending n b)" for n using b by (simp add: steady_def take_pending_def)
  have "steady r (fst (handle_reply env m i b))" for m i
    using b take steady_continue by (auto simp: handle_reply_def split: option.split)
  moreover have "steady r (fst (handle_event ev d b))" for ev d using keeps_event b by (simp add: keeps_def)
  ultimately have "steady r (fst (handle_message_json env m b))" for m
    using b by (auto simp: handle_message_json_def split: sum.split bool.split prod.split)
  then show ?thesis using b by (auto simp: read_line_def split: sum.split exn.split)
qed

lemma steady_start: "steady r b \<Longrightarrow> steady r (start_task env cmd args w b)"
  using steady_send [of r b env cmd args w] steady_resume by (auto simp: start_task_def split: prod.split option.split)

lemma steady_turn: "steady r b \<Longrightarrow> steady r (backend_turn env ev b)"
proof (cases ev)
  case (Attempt k)
  assume b: "steady r b"
  let ?b = "b\<lparr>be_writer := Some True, be_connection := Connected, be_phase := Loading, be_reading := True\<rparr>"
  have "steady r ?b" using b by (simp add: steady_def)
  from steady_send [OF this] b Attempt show ?thesis
    using steady_drop by (auto simp: connect_def split: prod.split option.split) (metis fst_conv)+
next
  case (Receive l)
  assume b: "steady r b"
  from steady_read_line [OF this, of env l] steady_reader_failed b Receive show ?thesis
    by (auto split: prod.split option.split)
next
  case (Timeout n)
  assume b: "steady r b"
  then have "steady r (b\<lparr>be_pending := p\<rparr>)" for p by (simp add: steady_def)
  with b Timeout steady_continue show ?thesis by (auto simp: expire_def split: option.split)
qed (auto simp: steady_reader_failed be_tick_def be_start_speed_test_def be_restart_service_def be_reboot_server_def Let_def
    steady_def [of r "_\<lparr>be_writer := _\<rparr>"] intro!: steady_start, auto simp: steady_def)

interpretation backend_live: live_backend surface_of_backend "\<lambda>(env, ev). backend_turn env ev" "steady False"
proof
  fix b :: backend and i :: "tui_env \<times> backend_event"
  assume b: "steady False b"
  obtain env ev where i: "i = (env, ev)" by (cases i)
  show "steady False ((\<lambda>(env, ev). backend_turn env ev) i b)" using steady_turn [OF b] by (simp add: i)
  show "length (sf_net_history_down (surface_of_backend b)) = 40" using b by (simp add: surface_of_backend_def steady_def)
  assume "sf_ready (surface_of_backend b)"
  then have "steady True b" using b by (simp add: steady_def surface_of_backend_def)
  from steady_turn [OF this, of env ev] show "sf_ready (surface_of_backend ((\<lambda>(env, ev). backend_turn env ev) i b))"
    by (simp add: i steady_def surface_of_backend_def)
qed

subsection \<open>The first screen\<close>

datatype app_event = Backend_Turn tui_env backend_event | Clock tui_env timestamp | Tab string | Tools_Input ui_event

fun app_turn :: "app_event \<Rightarrow> backend \<times> app \<Rightarrow> backend \<times> app" where
  \<comment> \<open>the application over the real backend: the event loop runs its tasks between two ticks\<close>
  "app_turn (Backend_Turn env ev) (b, a) = (backend_turn env ev b, a)"
| "app_turn (Clock env now) (b, a) = app_tick now surface_of_backend (be_tick env) (b, a)"
| "app_turn (Tab t) (b, a) = (b, goto_tab t a)"
| "app_turn (Tools_Input ev) (b, a) = (case tools_turn ev (ap_tools a) of
     (p, _) \<Rightarrow> (b, a\<lparr>ap_tools := p\<rparr>))"

lemma tick_ready: "be_ready (be_tick env b) = be_ready b"
proof -
  have "be_ready (start_task env cmd args Refresh c) = be_ready c" for cmd args c
    by (cases "be_writer c") (auto simp: start_task_def send_request_def resume_def is_load_def swallow_def Let_def)
  then show ?thesis by (simp add: be_tick_def Let_def)
qed

lemma tabs_after_turn: "ap_tabs_shown (snd (app_turn ev (b, a))) = ap_tabs_shown a"
  by (cases ev) (auto simp: app_tick_def Let_def surface_of_backend_def tick_ready goto_tab_def split: prod.split)

lemma tabs_after_run: "ap_tabs_shown (snd (foldl (\<lambda>st ev. app_turn ev st) st evs)) = ap_tabs_shown (snd st)"
proof (induction evs arbitrary: st)
  case (Cons ev evs)
  obtain b a where "st = (b, a)" by (cases st)
  with Cons.IH tabs_after_turn show ?case by simp
qed simp

lemma mock_tabs: "mk_ready m = False \<Longrightarrow> ap_tabs_shown (snd (app_tick now (surface_of_mock now) (mock_tick d) (m, a)))"
  by (simp add: app_tick_def Let_def surface_of_mock_def mock_tick_def)

end
