(* ===== verification/Tui_Properties.thy ===== *)
theory Tui_Properties
  imports Server_Properties Tui_Session Tui_App
begin

section \<open>Properties of the client\<close>

text \<open>
  What the client shows of what the daemon has and sends, over the lines of the socket, and what
  its bookkeeping keeps in every history of connections, replies, timeouts and key presses.
\<close>

definition sample_tui :: tui_env where
  "sample_tui = \<lparr>te_ft = (\<lambda>_. ''0.5''), te_now = 100\<rparr>"

subsection \<open>The link\<close>


subsection \<open>Loading\<close>



subsection \<open>Events on the screen\<close>

lemma receive_event:
  assumes "be_reading b" "json_ok ft (event_msg ev d)" "truthy d" "handle_event (JStr ev) d b = (b', None)"
  shows "backend_turn env (Receive (frame ft (event_msg ev d))) b = b'"
proof -
  have "frame ft (event_msg ev d) \<noteq> []" by (simp add: frame_def)
  then show ?thesis
    using assms loads_frame [OF assms(2)]
    by (simp add: read_line_def handle_message_json_def event_msg_def bind_def get_or_def get_of_def field_def or_default_def)
qed



lemma half_ok: "float_ok (\<lambda>_. ''0.5'') (1 / 2)"
proof -
  have "scan_number (''0.5'' @ r) = Some (JFloat (1 / 2), r)" if "delim r" for r
  proof -
    have "takeWhile is_digit r = []" "scan_exp r = None" "dropWhile is_digit r = r"
      using that by (cases r; auto simp: delim_def is_digit_def scan_exp_def is_json_space_def)+
    then show ?thesis by (simp add: scan_number_def scan_int_def scan_frac_def is_digit_def digits_val_def digit_val_def Let_def)
  qed
  then show ?thesis by (simp add: float_ok_def num_start_def is_digit_def)
qed

definition sample_subscriber :: server where
  "sample_subscriber = fst (cmd_subscribe sample_env 1 (JObj [(''streams'', JArr [JStr ''login_event''])]) sample_server)"



definition half_snapshot :: metrics_snapshot where
  "half_snapshot = \<lparr>sn_ts = 1 / 2, sn_cpu_percent = 1 / 2, sn_cpu_per_core = [1 / 2], sn_ram_percent = 1 / 2,
     sn_ram_used_bytes = 4000000, sn_ram_total_bytes = 8000000, sn_swap_percent = 1 / 2, sn_net_rx = 1 / 2, sn_net_tx = 1 / 2,
     sn_disks = [], sn_top_processes = [], sn_uptime_seconds = 1 / 2, sn_temperatures = [(''cpu'', [(''core'', 1 / 2)])]\<rparr>"


subsection \<open>Status\<close>

text \<open>C22. Whatever the tools of the machine print, time out or fail with, the status the daemon collects from them
  is one that the client applies without raising: every section is present in the shape the client
  reads, and the client takes over whether restarting or rebooting is allowed.\<close>

theorem status_is_always_applied:
  assumes "text_keys (be_blocked_since b)"
  shows "\<exists>data b'. cmd_get_extra_status env cid args (extra_status_turn f which exec sv) = (extra_status_turn f which exec sv, Inr data)
    \<and> apply_extra_status now data b = (b', None) \<and> text_keys (be_blocked_since b')
    \<and> be_dangerous b' = (ft_allow_service_restart (se_features env) \<or> ft_allow_reboot (se_features env))"
proof -
  let ?kvs = "(''available'', JBool True) # collect_status (status_sections f which exec (sv_latest sv))"
  let ?v = "JBool (ft_allow_service_restart (se_features env) \<or> ft_allow_reboot (se_features env))"
  let ?data = "JObj (AList.update ''dangerous_actions_enabled'' ?v ?kvs)"
  have x: "sv_extra (extra_status_turn f which exec sv) = JObj ?kvs"
    by (simp add: extra_status_turn_def set_extra_status_cache_def)
  then have c: "cmd_get_extra_status env cid args (extra_status_turn f which exec sv) = (extra_status_turn f which exec sv, Inr ?data)"
    by (simp add: cmd_get_extra_status_def)
  have "extra_ok ?data" using status_cache_ok by (rule extra_ok_flag)
  moreover have "truthy ?data" by simp
  ultimately obtain b' where b': "apply_extra_status now ?data b = (b', None)" "text_keys (be_blocked_since b')"
    "be_dangerous b' = truthy (field ?data ''dangerous_actions_enabled'')"
    using extra_applied [OF _ _ assms] by blast
  have "field ?data ''dangerous_actions_enabled'' = ?v" by (simp add: field_def update_conv')
  with b' c show ?thesis by auto
qed

theorem status_is_always_applied_witness:
  "\<exists>data b'. cmd_get_extra_status sample_env 1 (JObj []) (extra_status_turn (se_features sample_env) (\<lambda>_. True)
        (\<lambda>_. Inl (TimeoutExpired ''x'')) sample_server)
      = (extra_status_turn (se_features sample_env) (\<lambda>_. True) (\<lambda>_. Inl (TimeoutExpired ''x'')) sample_server, Inr data)
    \<and> apply_extra_status 0 data new_backend = (b', None) \<and> \<not> be_dangerous b'"
  using status_is_always_applied [of new_backend sample_env 1 "JObj []" "se_features sample_env" "\<lambda>_. True"
      "\<lambda>_. Inl (TimeoutExpired ''x'')" sample_server 0] default_features_off
  by (auto simp: new_backend_def text_keys_def sample_env_def)

text \<open>C34. A client that is told the banned addresses shows each ban of each jail, in order, with the time it first
  saw that address banned, and forgets the time of every address that is banned no more.\<close>

theorem bans_keep_their_first_time:
  assumes "text_keys (be_blocked_since b)" "get_or data ''fail2ban'' unavailable_dict = Inr (fail2ban_json jails)"
  shows "\<exists>since. fail2ban_step now data b = (b\<lparr>be_blocked_since := since,
      be_blocked_ips := map (shown_ban now (be_blocked_since b)) (bans jails)\<rparr>, None)
    \<and> tracks now (be_blocked_since b) jails since"
  using assms by (rule bans_shown)

theorem bans_keep_their_first_time_witness:
  "\<exists>since. fail2ban_step 9 (JObj [(''fail2ban'', fail2ban_json [(''sshd'', [''1.1.1.1'', ''2.2.2.2''])])])
      (new_backend\<lparr>be_blocked_since := [(JStr ''1.1.1.1'', 3), (JStr ''3.3.3.3'', 4)]\<rparr>) =
    (new_backend\<lparr>be_blocked_since := since, be_blocked_ips := [\<lparr>bi_ip = JStr ''1.1.1.1'', bi_rule = ''sshd'', bi_banned_at = 3\<rparr>,
      \<lparr>bi_ip = JStr ''2.2.2.2'', bi_rule = ''sshd'', bi_banned_at = 9\<rparr>]\<rparr>, None)"
proof -
  let ?b = "new_backend\<lparr>be_blocked_since := [(JStr ''1.1.1.1'', 3), (JStr ''3.3.3.3'', 4)]\<rparr>"
  have "text_keys (be_blocked_since ?b)" by (simp add: text_keys_def)
  moreover have "get_or (JObj [(''fail2ban'', fail2ban_json [(''sshd'', [''1.1.1.1'', ''2.2.2.2''])])]) ''fail2ban'' unavailable_dict
      = Inr (fail2ban_json [(''sshd'', [''1.1.1.1'', ''2.2.2.2''])])"
    by (simp add: get_or_def get_of_def field_def or_default_def fail2ban_json_def)
  ultimately show ?thesis
    using bans_keep_their_first_time [of ?b _ "[(''sshd'', [''1.1.1.1'', ''2.2.2.2''])]" 9]
    by (auto simp: bans_def shown_ban_def ban_start_def dict_get_def)
qed

end
