(* ===== verification/Screen_Properties.thy ===== *)
theory Screen_Properties
  imports Server_Properties Tui_App "HOL-Library.Sublist"
begin

section \<open>Properties of the screens\<close>

text \<open>
  What the panels show and what the user's input makes the client do. A history of the tools panel
  is a list of \<open>tools_event\<close>s: messages of the user and refreshes with what the backend has then.
\<close>

subsection \<open>The tools panel\<close>

datatype tools_event = User ui_event | Refreshed surface

fun tools_step :: "tools_event \<Rightarrow> tools_panel \<Rightarrow> tools_panel \<times> backend_call list" where
  "tools_step (User ev) p = tools_turn ev p"
| "tools_step (Refreshed s) p = (fst (tools_refresh s p), [])"

fun tools_run :: "tools_event list \<Rightarrow> tools_panel \<Rightarrow> tools_panel \<times> backend_call list" where
  \<comment> \<open>the panel at the end, and every call made on the backend\<close>
  "tools_run [] p = (p, [])"
| "tools_run (e # es) p = (case tools_step e p of (p1, cs) \<Rightarrow> case tools_run es p1 of (p2, ds) \<Rightarrow> (p2, cs @ ds))"

lemma tools_run_append:
  "tools_run (es @ es') p = (case tools_run es p of (p1, cs) \<Rightarrow> case tools_run es' p1 of (p2, ds) \<Rightarrow> (p2, cs @ ds))"
  by (induction es arbitrary: p) (simp_all split: prod.split)

fun asked :: "backend_call \<Rightarrow> tools_event list" where
  \<comment> \<open>what opens the dialog of a call\<close>
  "asked (Call_Restart name) = [User (Highlight name), User (Press ''restart-service-btn'')]"
| "asked Call_Reboot = [User (Press ''reboot-btn'')]"

definition confirm :: tools_event where
  "confirm = User (Dialog_Press ''confirm-btn'')"

definition asked_so :: "tools_event list \<Rightarrow> tools_panel \<Rightarrow> bool" where
  "asked_so es p \<longleftrightarrow> (\<forall>c\<in>set (to_dialogs p). subseq (asked c) es)
     \<and> (\<forall>name. to_selected p = Some name \<longrightarrow> subseq [User (Highlight name)] es)"

lemma subseq_snoc: "subseq xs es \<Longrightarrow> subseq (xs @ [e]) (es @ [e])"
  by simp

lemma subseq_butlast: "subseq (xs @ [e]) es \<Longrightarrow> subseq xs es"
  by (meson prefixI prefix_imp_subseq subseq_order.order_trans)

lemma subseq_more: "subseq xs es \<Longrightarrow> subseq xs (es @ [e])"
  by (meson prefixI prefix_imp_subseq subseq_order.order_trans)

lemma refresh_frame:
  "to_dialogs (fst (tools_refresh s p)) = to_dialogs p" "to_selected (fst (tools_refresh s p)) = to_selected p"
  by (simp_all add: tools_refresh_def)

lemma asked_step:
  assumes "asked_so es p" "tools_step e p = (p', cs)"
  shows "asked_so (es @ [e]) p'"
proof -
  have keep: "asked_so (es @ [e']) q" if "set (to_dialogs q) \<subseteq> set (to_dialogs p)" "to_selected q = to_selected p" for q e'
   
    using assms(1) that subseq_more by (auto simp: asked_so_def)
  show ?thesis
  proof (cases e)
    case (Refreshed s)
    then have "p' = fst (tools_refresh s p)" using assms(2) by simp
    then show ?thesis by (simp add: keep refresh_frame)
  next
    case (User ev)
    show ?thesis
    proof (cases ev)
      case (Highlight name)
      have "subseq [User (Highlight name)] (es @ [e])" using User Highlight by (simp add: list_emb_append2)
      then show ?thesis using assms User Highlight subseq_more by (auto simp: asked_so_def)
    next
      case (Press bid)
      have new: "asked_so (es @ [e]) (p\<lparr>to_dialogs := c # to_dialogs p\<rparr>)" if "subseq (asked c) (es @ [e])" for c
        using assms(1) that subseq_more by (auto simp: asked_so_def)
      have restart: "subseq (asked (Call_Restart name)) (es @ [e])"
        if "bid = ''restart-service-btn''" "to_selected p = Some name" for name
        using subseq_snoc [of "[User (Highlight name)]" es e] assms(1) that User Press by (simp add: asked_so_def)
      have reboot: "subseq (asked Call_Reboot) (es @ [e])" if "bid = ''reboot-btn''"
        using that User Press by (simp add: list_emb_append2)
      show ?thesis
      proof (cases "to_dialogs p' = to_dialogs p \<and> to_selected p' = to_selected p")
        case True
        then show ?thesis by (intro keep) simp_all
      next
        case False
        then have "p' = tools_button bid p" using assms(2) User Press by (auto split: if_splits)
        with False consider "bid = ''reboot-btn''" "p' = p\<lparr>to_dialogs := Call_Reboot # to_dialogs p\<rparr>"
          | name where "bid = ''restart-service-btn''" "to_selected p = Some name" "p' = p\<lparr>to_dialogs := Call_Restart name # to_dialogs p\<rparr>"
          by (auto simp: tools_button_def split: if_splits option.splits)
        then show ?thesis by cases (use new restart reboot in \<open>simp_all only:\<close>)
      qed
    next
      case (Dialog_Press bid)
      then show ?thesis using assms(2) User
        by (auto simp: close_dialog_def on_confirmed_def split: list.splits if_splits intro!: keep)
    next
      case Dialog_Escape
      then show ?thesis using assms(2) User
        by (auto simp: close_dialog_def on_confirmed_def split: list.splits if_splits intro!: keep)
    qed
  qed
qed

lemma step_calls:
  "tools_step e p = (p', cs) \<Longrightarrow> cs = [] \<or> e = confirm \<and> (\<exists>c. cs = [c] \<and> c \<in> set (to_dialogs p))"
  by (cases "(e, p)" rule: tools_step.cases)
    (auto simp: close_dialog_def on_confirmed_def dialog_answer_def confirm_def split: list.splits if_splits elim!: tools_turn.elims)

lemma run_asked:
  "asked_so [] p \<Longrightarrow> tools_run es p = (p', cs) \<Longrightarrow> asked_so es p' \<and> (\<forall>c\<in>set cs. subseq (asked c @ [confirm]) es)
     \<and> length cs \<le> length (filter (\<lambda>e. e = confirm) es)"
proof (induction es arbitrary: p' cs rule: rev_induct)
  case (snoc e es)
  obtain p1 cs1 where r: "tools_run es p = (p1, cs1)" by fastforce
  obtain p2 cs2 where s: "tools_step e p1 = (p2, cs2)" by fastforce
  have out: "p' = p2" "cs = cs1 @ cs2" using snoc.prems(2) r s by (simp_all add: tools_run_append)
  note ih = snoc.IH [OF snoc.prems(1) r]
  have "subseq (asked c @ [confirm]) (es @ [e])" if "c \<in> set cs2" for c
    using that ih step_calls [OF s] by (auto simp: asked_so_def)
  with ih asked_step [OF _ s] step_calls [OF s] show ?case
    by (auto simp: out intro: subseq_more dest: subseq_butlast)
qed simp



definition locked :: "tools_panel \<Rightarrow> bool" where
  "locked p \<longleftrightarrow> to_restart_disabled p \<and> to_reboot_disabled p \<and> to_dialogs p = []"

lemma locked_run: "locked p \<Longrightarrow> locked (fst (tools_run es p)) \<and> snd (tools_run es p) = []"
proof (induction es arbitrary: p)
  case (Cons e es)
  obtain p1 cs where s: "tools_step e p = (p1, cs)" by fastforce
  have "locked p1 \<and> cs = []"
  proof (cases e)
    case (User ev)
    then show ?thesis using s Cons.prems
      by (cases ev) (auto simp: locked_def close_dialog_def is_disabled_def tools_button_def)
  next
    case (Refreshed v)
    then show ?thesis using s Cons.prems by (auto simp: locked_def tools_refresh_def)
  qed
  with Cons.IH [of p1] s show ?case by (simp split: prod.split)
qed simp

text \<open>Once a ready client has seen, with no dialog open, that the server does not allow dangerous actions, no
  input makes it call one; and it stays so even after the server comes to allow them, because the
  buttons are never enabled again.\<close>

theorem disabled_buttons_stay_disabled:
  assumes "sf_ready s" "\<not> sf_dangerous s" "to_dialogs p = []"
  shows "snd (tools_run es (fst (tools_refresh s p))) = []
    \<and> to_restart_disabled (fst (tools_run es (fst (tools_refresh s p))))
    \<and> to_reboot_disabled (fst (tools_run es (fst (tools_refresh s p))))"
proof -
  have "locked (fst (tools_refresh s p))" using assms by (simp add: locked_def tools_refresh_def)
  from locked_run [OF this] show ?thesis by (simp add: locked_def)
qed

theorem disabled_buttons_stay_disabled_witness:
  "snd (tools_run [Refreshed (surface_of_backend (new_backend\<lparr>be_ready := True, be_dangerous := True\<rparr>)),
      User (Press ''reboot-btn''), confirm]
    (fst (tools_refresh (surface_of_backend (new_backend\<lparr>be_ready := True\<rparr>)) new_tools_panel))) = []"
  using disabled_buttons_stay_disabled [of "surface_of_backend (new_backend\<lparr>be_ready := True\<rparr>)" new_tools_panel]
  by (simp add: surface_of_backend_def new_backend_def new_tools_panel_def del: tools_run.simps)

subsection \<open>Alerts\<close>

definition rule_kind :: "string \<Rightarrow> bool" where
  "rule_kind k \<longleftrightarrow> (\<exists>x. k \<in> {''failed_login:'' @ x, ''new_key:'' @ x, ''disk_usage:'' @ x})"

lemma fire_kinds:
  "rule_kind k \<Longrightarrow> r \<in> set (alert_rows (w_db (fst (maybe_fire env k sub body w)))) \<Longrightarrow>
     r \<in> set (alert_rows (w_db w)) \<or> rule_kind (ar_alert_type r)"
  using db_insert_alert_steps [of env k sub body w] by (auto simp: alert_rows_insert)

lemma check_disks_kinds:
  "r \<in> set (alert_rows (w_db (fst (check_disks env ds w)))) \<Longrightarrow> r \<in> set (alert_rows (w_db w)) \<or> rule_kind (ar_alert_type r)"
proof (induction ds arbitrary: w)
  case (Cons d ds)
  let ?m = "maybe_fire env (''disk_usage:'' @ dk_mountpoint d)"
  have k: "rule_kind (''disk_usage:'' @ dk_mountpoint d)" by (auto simp: rule_kind_def)
  have "r \<in> set (alert_rows (w_db w)) \<or> rule_kind (ar_alert_type r)"
    if "?m sub body w = (w', x)" "r \<in> set (alert_rows (w_db w')) \<or> rule_kind (ar_alert_type r)" for sub body w' x
    using that fire_kinds [OF k, of r env sub body w] by auto
  with Cons show ?case by (auto split: if_splits prod.splits sum.splits)
qed simp

lemma daemon_kinds:
  "daemon_step env w w' \<Longrightarrow> r \<in> set (alert_rows (w_db w')) \<Longrightarrow> r \<in> set (alert_rows (w_db w)) \<or> rule_kind (ar_alert_type r)"
proof (induction rule: daemon_step.induct)
  case (ssh w ev)
  have "rule_kind (''failed_login:'' @ x)" "rule_kind (''new_key:'' @ x)" for x by (auto simp: rule_kind_def)
  with ssh show ?case
    by (auto simp: on_ssh_event_def check_failed_login_def check_new_key_def Let_def dest: fire_kinds split: if_splits option.splits)
next
  case (metrics w disks)
  then show ?case using check_disks_kinds by (auto simp: on_metrics_snapshot_def split: if_splits)
qed (auto simp: alert_rows_def)

lemma daemon_run_kinds:
  "(daemon_step env)\<^sup>*\<^sup>* w w' \<Longrightarrow> \<forall>r\<in>set (alert_rows (w_db w)). rule_kind (ar_alert_type r) \<Longrightarrow>
     \<forall>r\<in>set (alert_rows (w_db w')). rule_kind (ar_alert_type r)"
  by (induction rule: rtranclp_induct) (auto dest: daemon_kinds)

text \<open>C39. No alert the daemon can ever raise has one of the kinds the alert panel knows: in every history of the
  daemon each alert is shown under its raw type in the neutral colour, never with the Portuguese
  label and the colour that were written for it.\<close>

theorem alert_labels_never_apply:
  assumes "(omnia_step env f)\<^sup>*\<^sup>* st st'" "alert_rows (sv_db (snd st)) = []"
  shows "\<forall>r\<in>set (alert_rows (sv_db (snd st'))). kind_text (ar_alert_type r) = (ar_alert_type r, NEUTRAL)"
proof -
  have "\<forall>r\<in>set (alert_rows (sv_db (snd st'))). rule_kind (ar_alert_type r)"
    using daemon_run_kinds [OF omnia_histories [OF assms(1)]] assms(2) by (simp add: sv_db_def)
  moreover have "kind_text k = (k, NEUTRAL)" if "rule_kind k" for k
    using that by (auto simp: rule_kind_def kind_text_def lookup_or_def KIND_LABELS_def KIND_COLORS_def)
  ultimately show ?thesis by blast
qed

theorem alert_labels_never_apply_witness:
  "list_all (\<lambda>r. kind_text (ar_alert_type r) = (ar_alert_type r, NEUTRAL)) (alert_rows (sv_db (sample_message (sample_message (snd sample_daemon)))))"
proof -
  let ?f = "the (view_features OmniaConfig)"
  have "(omnia_step quiet_env ?f)\<^sup>*\<^sup>* sample_daemon (fst sample_daemon, sample_message (sample_message (snd sample_daemon)))"
    using sample_message_step by (metis rtranclp.simps surjective_pairing)
  from alert_labels_never_apply [OF this] show ?thesis
    by (simp add: list_all_iff sample_daemon_start new_server_def sv_db_def quiet_world_def alert_rows_def select_rows_def new_database_def empty_table_def)
qed

subsection \<open>Login history\<close>

text \<open>C35. After typing a filter and pressing the button for more \<open>n\<close> times, the panel shows the first
  \<open>20 * (n + 1)\<close> logins whose user or address contains the filter, all of them once there are no more, and
  exactly then the button is disabled.\<close>

theorem history_pages:
  assumes "sf_ready s" "events = filter_events (to_lower (strip q)) (sf_history s)"
  shows "\<exists>v. ssh_refresh fmt_dt now s ((ssh_button ''ssh-history-loadmore'' ^^ n) (ssh_input q p)) = Some v
    \<and> map hr_user (sh_history v) = map tl_user (take (20 * (n + 1)) events)
    \<and> map hr_ip (sh_history v) = map tl_ip (take (20 * (n + 1)) events)
    \<and> (sh_loadmore_disabled v \<longleftrightarrow> length (sh_history v) = length events)
    \<and> (length events \<le> 20 * (n + 1) \<longrightarrow> map hr_user (sh_history v) = map tl_user events)"
proof -
  have panel: "sh_visible_count ((ssh_button ''ssh-history-loadmore'' ^^ n) (ssh_input q p)) = 20 * (n + 1)
      \<and> sh_filter ((ssh_button ''ssh-history-loadmore'' ^^ n) (ssh_input q p)) = q"
    by (induction n) (simp_all add: ssh_input_def ssh_button_def PAGE_SIZE_def)
  have rows: "map g (map (history_row_of fmt_dt es) (enumerate k xs)) = map h xs"
    if "\<And>i e. g (history_row_of fmt_dt es (i, e)) = h e" for g h es k and xs :: "(string, rat) tui_login list"
    using that by (induction xs arbitrary: k) simp_all
  have u: "map hr_user (map (history_row_of fmt_dt es) (enumerate k xs)) = map tl_user xs"
    "map hr_ip (map (history_row_of fmt_dt es) (enumerate k xs)) = map tl_ip xs" for es k xs
    by (rule rows, simp add: history_row_of_def)+
  show ?thesis using assms panel by (auto simp: ssh_refresh_def Let_def u simp del: map_map)
qed

theorem history_pages_witness:
  "\<exists>v. ssh_refresh (\<lambda>_. []) 0 (surface_of_backend (new_backend\<lparr>be_ready := True\<rparr>))
      ((ssh_button ''ssh-history-loadmore'' ^^ 2) (ssh_input [] new_ssh_panel)) = Some v \<and> sh_loadmore_disabled v"
proof -
  have "sf_ready (surface_of_backend (new_backend\<lparr>be_ready := True\<rparr>))" "sf_history (surface_of_backend (new_backend\<lparr>be_ready := True\<rparr>)) = []"
    by (simp_all add: surface_of_backend_def new_backend_def)
  from history_pages [OF this(1) refl, of "\<lambda>_. []" 0 2 "[]" new_ssh_panel] this(2) show ?thesis
    by (auto simp: filter_events_def split: if_splits)
qed

subsection \<open>Bars and the first screen\<close>

lemma round_half_even_mono: "x \<le> y \<Longrightarrow> round_half_even x \<le> round_half_even y"
proof (cases "x = y")
  case False
  moreover assume "x \<le> y"
  ultimately have "of_int (round_half_even x) - of_int (round_half_even y) < (1 :: rat)"
    using round_half_even_error [of x] round_half_even_error [of y] by linarith
  then have "of_int (round_half_even x - round_half_even y) < (of_int 1 :: rat)" by simp
  then show ?thesis by (simp only: of_int_less_iff)
qed simp

text \<open>C36. A bar always has its full width, whatever the percentage, a larger percentage never fills fewer cells,
  and up to a hundred per cent the filled part is the exact share to within half a cell.\<close>

theorem bars_are_faithful:
  "length (pct_bar x w) = w
    \<and> (x \<le> y \<longrightarrow> length (filter (\<lambda>c. c = Full) (pct_bar x w)) \<le> length (filter (\<lambda>c. c = Full) (pct_bar y w)))
    \<and> (0 \<le> x \<and> x \<le> 100 \<longrightarrow> \<bar>of_nat (length (filter (\<lambda>c. c = Full) (pct_bar x w))) - x / 100 * of_nat w\<bar> \<le> 1 / 2)"
proof -
  let ?n = "\<lambda>x. round_half_even (clamp 0 100 x / 100 * of_nat w)"
  have c: "0 \<le> clamp 0 100 z" "clamp 0 100 z \<le> 100" for z by (simp_all add: clamp_def)
  have upto: "?n z \<le> int w" "0 \<le> ?n z" for z
  proof -
    have "clamp 0 100 z / 100 * of_nat w \<le> 1 * of_nat w" using c [of z] by (intro mult_right_mono) simp_all
    then have "round_half_even (clamp 0 100 z / 100 * of_nat w) \<le> round_half_even (of_int (int w))"
      by (intro round_half_even_mono) simp
    then show "?n z \<le> int w" by (simp only: round_half_even_of_int)
    have "round_half_even (of_int 0) \<le> ?n z" using c [of z] by (intro round_half_even_mono) simp
    then show "0 \<le> ?n z" by (simp only: round_half_even_of_int)
  qed
  have full: "length (filter (\<lambda>c. c = Full) (pct_bar z w)) = nat (?n z)" for z
    by (simp add: pct_bar_def Let_def)
  have len: "length (pct_bar x w) = w" using upto [of x] by (simp add: pct_bar_def Let_def nat_le_iff)
  have "?n x \<le> ?n y" if "x \<le> y"
    by (intro round_half_even_mono mult_right_mono divide_right_mono) (use that in \<open>auto simp: clamp_def\<close>)
  moreover have "\<bar>of_int (?n x) - x / 100 * of_nat w\<bar> \<le> 1 / 2" if "0 \<le> x" "x \<le> 100"
  proof -
    have "clamp 0 100 x = x" using that by (simp add: clamp_def)
    then show ?thesis using round_half_even_error [of "x / 100 * of_nat w"] by simp
  qed
  ultimately show ?thesis using upto [of x] len by (simp add: full nat_mono)
qed

theorem bars_are_faithful_witness:
  "length (filter (\<lambda>c. c = Full) (pct_bar 40 20)) \<le> length (filter (\<lambda>c. c = Full) (pct_bar 90 20))
    \<and> \<bar>rat_of_nat (length (filter (\<lambda>c. c = Full) (pct_bar 40 20))) - 8\<bar> \<le> 1 / 2"
  using bars_are_faithful [of 40 20 90] by simp

text \<open>C37. Over the real backend the application never leaves its loading screen: in no history of ticks,
  replies, connections and key presses are the tabs ever shown, because the backend becomes ready
  between two ticks and the tick only looks for a change during itself. Over the simulated backend
  the first tick shows them.\<close>

theorem tabs_never_shown:
  "\<not> ap_tabs_shown (snd (foldl (\<lambda>st ev. app_turn ev st) (new_backend, new_app now) evs))
    \<and> ap_tabs_shown (snd (app_tick now (surface_of_mock now) (mock_tick d) (m\<lparr>mk_ready := False\<rparr>, new_app now)))"
  using tabs_after_run [of "(new_backend, new_app now)" evs] mock_tabs [of "m\<lparr>mk_ready := False\<rparr>" now d "new_app now"]
  by (simp add: new_app_def)

end
