(* ===== verification/Tui_Layout.thy ===== *)
theory Tui_Layout
  imports Tui_App
begin

section \<open>The widget trees\<close>

text \<open>
  What \<open>compose\<close> yields in \<open>app.py\<close>, \<open>widgets.py\<close> and the panels, what \<open>on_mount\<close> gives the tables as
  columns, and which widgets the methods look up with \<open>query_one\<close>. A widget is its class, its id
  (empty for none), its CSS classes, its text and its children; the arrow and warning glyphs of two
  texts and the widgets' own options (cursor, stripes, initial data) are left out.
\<close>

datatype widget = Widget (wg_kind: string) (wg_id: string) (wg_classes: "string list") (wg_text: string) (wg_children: "widget list")

type_synonym table_columns = "(string \<times> (string \<times> nat) list) list"

subsection \<open>Looking a widget up\<close>

fun widget_all :: "widget \<Rightarrow> widget list" where
  \<comment> \<open>the widget and everything below it, in document order\<close>
  "widget_all (Widget k i cl t ws) = Widget k i cl t ws # concat (map widget_all ws)"

definition query_one :: "string \<Rightarrow> string \<Rightarrow> widget \<Rightarrow> widget result" where
  \<comment> \<open>\<open>query_one("#i", Kind)\<close> below a widget\<close>
  "query_one i kind w = (case filter (\<lambda>x. wg_id x = i) (widget_all w) of
      [] \<Rightarrow> Inl (KeyError (''No nodes match #'' @ i))
    | x # _ \<Rightarrow> if wg_kind x = kind then Inr x else Inl (TypeError (''Node matching #'' @ i @ '' is the wrong type'')))"

definition widget_ids :: "widget \<Rightarrow> string list" where
  "widget_ids w = filter (\<lambda>i. i \<noteq> []) (map wg_id (widget_all w))"

subsection \<open>widgets.py\<close>

definition stat_card :: "string \<Rightarrow> string \<Rightarrow> string \<Rightarrow> widget" where
  "stat_card label initial wid = Widget ''StatCard'' [] [''stat-card''] []
     [Widget ''Static'' [] [''stat-label''] label [],
      Widget ''Static'' (wid @ ''-value'') [''stat-value''] initial []]"

definition update_value :: "string \<Rightarrow> string \<Rightarrow> widget \<Rightarrow> widget" where
  \<comment> \<open>on the card's value\<close>
  "update_value value kind w = (case w of Widget k i cl t ws \<Rightarrow>
     (let cl1 = filter (\<lambda>c. c \<notin> {''warning'', ''error'', ''success''}) cl in
      Widget k i (if kind = [] then cl1 else cl1 @ [kind]) value ws))"

definition confirm_dialog :: "string \<Rightarrow> string \<Rightarrow> string \<Rightarrow> bool \<Rightarrow> widget" where
  "confirm_dialog title message confirm_label danger = Widget ''ConfirmDialog'' [] [] [] [
     Widget ''Vertical'' ''confirm-box'' [] [] [
       Widget ''Static'' ''confirm-title'' [] title [],
       Widget ''Static'' ''confirm-message'' [] message [],
       Widget ''Horizontal'' ''confirm-buttons'' [] [] [
         Widget ''Button'' ''cancel-btn'' [] ''Cancelar'' [],
         Widget ''Button'' ''confirm-btn'' (if danger then [''-danger''] else []) confirm_label []]]]"

subsection \<open>screens/ssh.py\<close>

definition ssh_compose :: "widget list" where
  "ssh_compose = [
    Widget ''Vertical'' ''ssh-active-panel'' [''panel''] [] [
      Widget ''Static'' [] [''panel-title''] (''SESS'' @ [CHR 0xD5] @ ''ES SSH ATIVAS AGORA'') [],
      Widget ''DataTable'' ''ssh-active-table'' [] [] [],
      Widget ''Static'' ''ssh-active-empty'' [''empty-state''] [] []],
    Widget ''Vertical'' ''ssh-history-panel'' [''panel''] [] [
      Widget ''Static'' [] [''panel-title''] ''LOGINS RECENTES'' [],
      Widget ''Horizontal'' ''ssh-history-toolbar'' [] [] [
        Widget ''Input'' ''ssh-history-filter'' [] (''Buscar por usu'' @ [CHR 0xE1] @ ''rio ou IP...'') [],
        Widget ''Button'' ''ssh-history-loadmore'' [] ''Carregar mais'' [],
        Widget ''Static'' ''ssh-history-count'' [] [] []],
      Widget ''DataTable'' ''ssh-history-table'' [] [] []],
    Widget ''Horizontal'' ''ssh-lower-row'' [] [] [
      Widget ''Vertical'' ''ssh-keys-panel'' [''panel''] [] [
        Widget ''Static'' [] [''panel-title''] ''CHAVES CADASTRADAS'' [],
        Widget ''DataTable'' ''ssh-keys-table'' [] [] []],
      Widget ''Vertical'' ''ssh-blocked-panel'' [''panel''] [] [
        Widget ''Static'' [] [''panel-title''] ''IPS BLOQUEADOS'' [],
        Widget ''DataTable'' ''ssh-blocked-table'' [] [] [],
        Widget ''Static'' ''ssh-blocked-empty'' [''unavailable-state''] [] []]]]"

definition ssh_columns :: table_columns where
  "ssh_columns =
    [(''ssh-active-table'',
      [(''Usu'' @ [CHR 0xE1] @ ''rio'', 10), (''IP de origem'', 16), (''Terminal'', 8), (''Chave'', 16),
       (''Tipo'', 9), (''Conectado h'' @ [CHR 0xE1], 14)]),
     (''ssh-history-table'',
      [(''Data/Hora'', 16), (''Usu'' @ [CHR 0xE1] @ ''rio'', 10), (''IP'', 16), (''Resultado'', 16),
       (''Chave/Detalhe'', 22)]),
     (''ssh-keys-table'',
      [(''R'' @ [CHR 0xF3] @ ''tulo'', 16), (''Tipo'', 9), (''Fingerprint'', 16), ([CHR 0xDA] @ ''ltimo uso'', 14)]),
     (''ssh-blocked-table'',
      [(''IP'', 16), (''Regra/Servi'' @ [CHR 0xE7] @ ''o'', 14), (''Banido h'' @ [CHR 0xE1], 14)])]"

definition ssh_queries :: "(string \<times> string) list" where
  "ssh_queries =
    [(''ssh-active-table'', ''DataTable''), (''ssh-history-table'', ''DataTable''),
     (''ssh-keys-table'', ''DataTable''), (''ssh-blocked-table'', ''DataTable''),
     (''ssh-active-empty'', ''Static''), (''ssh-history-filter'', ''Input''), (''ssh-history-count'', ''Static''),
     (''ssh-history-loadmore'', ''Button''), (''ssh-blocked-empty'', ''Static'')]"

subsection \<open>screens/system.py\<close>

definition system_compose :: "widget list" where
  "system_compose = [
    Widget ''Horizontal'' ''sys-stats-row'' [] [] [
      stat_card ''CPU TOTAL'' ''-'' ''cpu-total'',
      stat_card (''MEM'' @ [CHR 0xD3] @ ''RIA'') ''-'' ''mem'',
      stat_card ''SWAP'' ''-'' ''swap'',
      stat_card ''UPTIME'' ''-'' ''uptime''],
    Widget ''Horizontal'' ''sys-cores-row'' [] [] [
      Widget ''Vertical'' ''sys-cores-panel'' [''panel''] [] [
        Widget ''Static'' [] [''panel-title''] (''USO POR N'' @ [CHR 0xDA] @ ''CLEO'') [],
        Widget ''DataTable'' ''sys-cores-table'' [] [] []],
      Widget ''Vertical'' ''sys-temps-panel'' [''panel''] [] [
        Widget ''Static'' [] [''panel-title''] ''TEMPERATURA'' [],
        Widget ''DataTable'' ''sys-temps-table'' [] [] [],
        Widget ''Static'' ''sys-temps-empty'' [''unavailable-state''] [] []]],
    Widget ''Vertical'' ''sys-disks-panel'' [''panel''] [] [
      Widget ''Static'' [] [''panel-title''] ''DISCOS'' [],
      Widget ''DataTable'' ''sys-disks-table'' [] [] []],
    Widget ''Horizontal'' ''sys-net-gpu-row'' [] [] [
      Widget ''Vertical'' ''sys-net-panel'' [''panel''] [] [
        Widget ''Static'' [] [''panel-title''] ''REDE'' [],
        Widget ''Static'' ''sys-net-speeds'' [] [] [],
        Widget ''Sparkline'' ''sys-net-sparkline'' [] [] []],
      Widget ''Vertical'' ''sys-gpu-panel'' [''panel''] [] [
        Widget ''Static'' [] [''panel-title''] ''GPU'' [],
        Widget ''DataTable'' ''sys-gpu-table'' [] [] [],
        Widget ''Static'' ''sys-gpu-empty'' [''unavailable-state''] [] []]],
    Widget ''Vertical'' ''sys-processes-panel'' [''panel''] [] [
      Widget ''Static'' [] [''panel-title''] ''PROCESSOS'' [],
      Widget ''Horizontal'' ''sys-processes-toolbar'' [] [] [
        Widget ''Button'' ''sort-cpu-btn'' [] ''Ordenar por CPU'' [],
        Widget ''Button'' ''sort-mem-btn'' [] (''Ordenar por mem'' @ [CHR 0xF3] @ ''ria'') []],
      Widget ''DataTable'' ''sys-processes-table'' [] [] []]]"

definition system_columns :: table_columns where
  "system_columns =
    [(''sys-cores-table'',
      [(''N'' @ [CHR 0xFA] @ ''cleo'', 8), (''Uso'', 32)]),
     (''sys-temps-table'',
      [(''Sensor'', 10), (''Temp.'', 10)]),
     (''sys-disks-table'',
      [(''Ponto de montagem'', 16), (''Dispositivo'', 12), (''FS'', 6), (''Usado/Total'', 18), (''Uso'', 26)]),
     (''sys-gpu-table'',
      [(''Engine'', 14), (''Uso'', 22)]),
     (''sys-processes-table'',
      [(''PID'', 8), (''Processo'', 20), (''CPU %'', 10), (''MEM %'', 10)])]"

definition system_queries :: "(string \<times> string) list" where
  "system_queries =
    [(''sys-cores-table'', ''DataTable''), (''sys-temps-table'', ''DataTable''),
     (''sys-disks-table'', ''DataTable''), (''sys-gpu-table'', ''DataTable''),
     (''sys-processes-table'', ''DataTable''), (''cpu-total-value'', ''Static''), (''mem-value'', ''Static''),
     (''swap-value'', ''Static''), (''uptime-value'', ''Static''), (''sys-temps-empty'', ''Static''),
     (''sys-net-speeds'', ''Static''), (''sys-net-sparkline'', ''Sparkline''), (''sys-gpu-empty'', ''Static'')]"

subsection \<open>screens/speedtest.py\<close>

definition speedtest_compose :: "widget list" where
  "speedtest_compose = [
    Widget ''Vertical'' ''st-action-row'' [''panel''] [] [
      Widget ''Horizontal'' [] [] [] [
        Widget ''Button'' ''st-run-btn'' [] ''Rodar teste agora'' [],
        Widget ''Static'' ''st-status'' [] [] []],
      Widget ''ProgressBar'' ''st-progress'' [] [] []],
    Widget ''Horizontal'' ''st-result-row'' [''panel''] [] [
      stat_card ''DOWNLOAD'' ''-'' ''st-download'',
      stat_card ''UPLOAD'' ''-'' ''st-upload'',
      stat_card ''PING'' ''-'' ''st-ping'',
      stat_card ''SERVIDOR'' ''-'' ''st-server'',
      stat_card ''QUANDO'' ''-'' ''st-when''],
    Widget ''Vertical'' ''st-history-panel'' [''panel''] [] [
      Widget ''Static'' [] [''panel-title''] (''HIST'' @ [CHR 0xD3] @ ''RICO DE TESTES'') [],
      Widget ''Horizontal'' ''st-history-row'' [] [] [
        Widget ''Vertical'' ''st-history-table-container'' [] [] [
          Widget ''DataTable'' ''st-history-table'' [] [] [],
          Widget ''Static'' ''st-history-empty'' [''empty-state''] [] []],
        Widget ''Vertical'' ''st-history-chart-container'' [] [] [
          Widget ''Static'' [] [''muted''] ''Download (Mbps)'' [],
          Widget ''Sparkline'' ''st-sparkline-down'' [] [] [],
          Widget ''Static'' [] [''muted''] ''Upload (Mbps)'' [],
          Widget ''Sparkline'' ''st-sparkline-up'' [] [] []]]]]"

definition speedtest_columns :: table_columns where
  "speedtest_columns =
    [(''st-history-table'',
      [(''Data/Hora'', 16), (''Download'', 12), (''Upload'', 12), (''Ping'', 8), (''Servidor'', 22)])]"

definition speedtest_queries :: "(string \<times> string) list" where
  "speedtest_queries =
    [(''st-history-table'', ''DataTable''), (''st-run-btn'', ''Button''), (''st-progress'', ''ProgressBar''),
     (''st-status'', ''Static''), (''st-download-value'', ''Static''), (''st-upload-value'', ''Static''),
     (''st-ping-value'', ''Static''), (''st-server-value'', ''Static''), (''st-when-value'', ''Static''),
     (''st-history-empty'', ''Static''), (''st-sparkline-down'', ''Sparkline''),
     (''st-sparkline-up'', ''Sparkline'')]"

subsection \<open>screens/tools.py\<close>

definition tools_compose :: "widget list" where
  "tools_compose = [
    Widget ''Horizontal'' ''tools-top-row'' [] [] [
      Widget ''Vertical'' ''tools-services-panel'' [''panel''] [] [
        Widget ''Static'' [] [''panel-title''] (''SERVI'' @ [CHR 0xC7] @ ''OS DO SISTEMA'') [],
        Widget ''DataTable'' ''tools-services-table'' [] [] []],
      Widget ''Vertical'' ''tools-containers-panel'' [''panel''] [] [
        Widget ''Static'' [] [''panel-title''] (''CONT'' @ [CHR 0xCA] @ ''INERES'') [],
        Widget ''DataTable'' ''tools-containers-table'' [] [] [],
        Widget ''Static'' ''tools-containers-empty'' [''unavailable-state''] [] []]],
    Widget ''Horizontal'' ''tools-mid-row'' [] [] [
      stat_card (''ATUALIZA'' @ [CHR 0xC7, CHR 0xD5] @ ''ES PENDENTES'') ''-'' ''updates'',
      Widget ''Vertical'' ''tools-diskhealth-panel'' [''panel''] [] [
        Widget ''Static'' [] [''panel-title''] (''SA'' @ [CHR 0xDA] @ ''DE DOS DISCOS'') [],
        Widget ''DataTable'' ''tools-diskhealth-table'' [] [] []]],
    Widget ''Vertical'' ''tools-danger-panel'' [''panel''] [] [
      Widget ''Static'' [] [''panel-title''] (''A'' @ [CHR 0xC7, CHR 0xD5] @ ''ES SENS'' @ [CHR 0xCD] @ ''VEIS'') [],
      Widget ''Static'' ''tools-danger-selected'' [''muted''] [] [],
      Widget ''Horizontal'' ''tools-danger-row'' [] [] [
        Widget ''Button'' ''restart-service-btn'' [''-danger''] (''Reiniciar servi'' @ [CHR 0xE7] @ ''o selecionado'') [],
        Widget ''Button'' ''reboot-btn'' [''-danger''] ''Reiniciar servidor'' []],
      Widget ''Static'' ''tools-danger-note'' [] [] []]]"

definition tools_columns :: table_columns where
  "tools_columns =
    [(''tools-services-table'',
      [(''Servi'' @ [CHR 0xE7] @ ''o'', 18), (''Status'', 12)]),
     (''tools-containers-table'',
      [(''Nome'', 16), (''Imagem'', 20), (''Status'', 10), (''Estado'', 12)]),
     (''tools-diskhealth-table'',
      [(''Dispositivo'', 14), (''Status'', 14)])]"

definition tools_queries :: "(string \<times> string) list" where
  "tools_queries =
    [(''tools-services-table'', ''DataTable''), (''tools-containers-table'', ''DataTable''),
     (''tools-diskhealth-table'', ''DataTable''), (''tools-danger-selected'', ''Static''),
     (''tools-danger-note'', ''Static''), (''tools-containers-empty'', ''Static''), (''updates-value'', ''Static''),
     (''restart-service-btn'', ''Button''), (''reboot-btn'', ''Button'')]"

subsection \<open>screens/alerts.py\<close>

definition alerts_compose :: "widget list" where
  "alerts_compose = [
    Widget ''Static'' [] [''panel-title''] (''HIST'' @ [CHR 0xD3] @ ''RICO DE ALERTAS'') [],
    Widget ''DataTable'' ''alerts-table'' [] [] [],
    Widget ''Static'' ''alerts-empty'' [''empty-state''] [] []]"

definition alerts_columns :: table_columns where
  "alerts_columns =
    [(''alerts-table'',
      [(''Data/Hora'', 18), (''Tipo'', 16), (''Descri'' @ [CHR 0xE7, CHR 0xE3] @ ''o'', 60)])]"

definition alerts_queries :: "(string \<times> string) list" where
  "alerts_queries =
    [(''alerts-table'', ''DataTable''), (''alerts-empty'', ''Static'')]"

subsection \<open>app.py\<close>

definition tab_pane :: "string \<Rightarrow> string \<Rightarrow> string \<Rightarrow> widget list \<Rightarrow> widget" where
  "tab_pane title tab_id panel ws = Widget ''TabPane'' tab_id [] title [Widget panel [] [] [] ws]"

definition app_compose :: widget where
  "app_compose = Widget ''OmniaApp'' [] [] [] [
     Widget ''OmniaHeader'' ''omnia-header'' [] [] [],
     Widget ''Static'' ''omnia-loading'' [''loading-state''] ''Carregando ..'' [],
     Widget ''TabbedContent'' ''omnia-tabs'' [] [] [
       tab_pane ''1 SSH'' ''ssh'' ''SSHPanel'' ssh_compose,
       tab_pane ''2 Sistema'' ''system'' ''SystemPanel'' system_compose,
       tab_pane ''3 Speed Test'' ''speedtest'' ''SpeedTestPanel'' speedtest_compose,
       tab_pane ''4 Ferramentas'' ''tools'' ''ToolsPanel'' tools_compose,
       tab_pane ''5 Alertas'' ''alerts'' ''AlertsPanel'' alerts_compose],
     Widget ''Footer'' [] [] [] []]"

definition app_queries :: "(string \<times> string) list" where
  "app_queries = [(''omnia-tabs'', ''TabbedContent''), (''omnia-loading'', ''Static'')]"

definition BINDINGS :: "(string \<times> string) list" where
  "BINDINGS = [(''q'', ''quit''), (''ctrl+c'', ''quit''), (''1'', ''goto_ssh''), (''2'', ''goto_system''),
     (''3'', ''goto_speedtest''), (''4'', ''goto_tools''), (''5'', ''goto_alerts'')]"

definition action_goto :: "string \<Rightarrow> string option" where
  \<comment> \<open>the tab each \<open>action_\<close> method goes to\<close>
  "action_goto name = map_of [(''goto_ssh'', ''ssh''), (''goto_system'', ''system''), (''goto_speedtest'', ''speedtest''),
     (''goto_tools'', ''tools''), (''goto_alerts'', ''alerts'')] name"

definition press_key :: "string \<Rightarrow> app \<Rightarrow> app" where
  "press_key key a = (case Option.bind (map_of BINDINGS key) action_goto of None \<Rightarrow> a | Some t \<Rightarrow> goto_tab t a)"

end
