(* ===== verification/Tui_Styles.thy ===== *)
theory Tui_Styles
  imports Tui_Layout
begin

section \<open>The style sheets\<close>

text \<open>
  The palette and \<open>BASE_CSS\<close> of \<open>theme.py\<close> and the \<open>DEFAULT_CSS\<close> of \<open>app.py\<close>, \<open>widgets.py\<close> and the panels. A sheet
  is the list of its rules: a selector with its declarations.
\<close>

type_synonym css = "(string \<times> (string \<times> string) list) list"

definition BG :: string where "BG = ''#0a0e12''"
definition PANEL_BG :: string where "PANEL_BG = ''#111820''"
definition PANEL_BG_ALT :: string where "PANEL_BG_ALT = ''#0c1116''"
definition ACCENT_DIM :: string where "ACCENT_DIM = ''#1c6d64''"
definition TEXT :: string where "TEXT = ''#d8e2e8''"

definition BASE_CSS :: css where
  "BASE_CSS = 
    [(''Screen'', [(''background'', BG)]),
     (''.panel'', [(''border'', ''solid '' @ ACCENT_DIM), (''background'', PANEL_BG), (''padding'', ''0 1'')]),
     (''.panel-title'', [(''color'', ACCENT), (''text-style'', ''bold''), (''height'', ''1'')]),
     (''.muted'', [(''color'', TEXT_MUTED)]),
     (''.updated-at'', [(''color'', TEXT_MUTED), (''text-style'', ''italic''), (''height'', ''1'')]),
     (''.empty-state'', [(''color'', TEXT_MUTED), (''text-style'', ''italic''), (''width'', ''100%''),
        (''content-align'', ''center middle'')]),
     (''.unavailable-state'', [(''color'', TEXT_MUTED), (''width'', ''100%''), (''content-align'', ''center middle'')]),
     (''.loading-state'', [(''color'', ACCENT), (''width'', ''100%''), (''content-align'', ''center middle'')]),
     (''.stat-card'', [(''border'', ''solid '' @ ACCENT_DIM), (''background'', PANEL_BG), (''width'', ''1fr''),
        (''height'', ''100%''), (''align-horizontal'', ''center''), (''padding'', ''0 1''), (''margin-right'', ''1'')]),
     (''.stat-label'', [(''color'', TEXT_MUTED), (''width'', ''100%''), (''text-align'', ''center''), (''height'', ''1'')]),
     (''.stat-value'', [(''color'', ACCENT), (''text-style'', ''bold''), (''width'', ''100%''), (''text-align'', ''center''),
        (''height'', ''1'')]),
     (''.stat-value.warning'', [(''color'', WARNING)]),
     (''.stat-value.error'', [(''color'', ERROR)]),
     (''.stat-value.success'', [(''color'', SUCCESS)]),
     (''DataTable'', [(''background'', PANEL_BG), (''height'', ''1fr'')]),
     (''DataTable > .datatable--header'', [(''background'', PANEL_BG_ALT), (''color'', ACCENT), (''text-style'', ''bold'')]),
     (''Button'', [(''border'', ''none''), (''background'', ACCENT_DIM), (''color'', BG), (''text-style'', ''bold''),
        (''min-width'', ''10'')]),
     (''Button:focus'', [(''background'', ACCENT), (''border'', ''none'')]),
     (''Button.-danger'', [(''background'', ERROR), (''color'', BG), (''border'', ''none'')]),
     (''Button.-danger:focus'', [(''background'', ERROR), (''text-style'', ''bold underline''), (''border'', ''none'')]),
     (''Button:disabled'', [(''background'', PANEL_BG_ALT), (''color'', TEXT_MUTED)]),
     (''Input'', [(''border'', ''solid '' @ ACCENT_DIM), (''background'', BG), (''color'', TEXT)]),
     (''Input:focus'', [(''border'', ''solid '' @ ACCENT)]),
     (''Select'', [(''border'', ''solid '' @ ACCENT_DIM), (''background'', BG)]),
     (''Select > SelectCurrent'', [(''border'', ''none'')]),
     (''Select:focus > SelectCurrent'', [(''border'', ''none'')]),
     (''SelectOverlay'', [(''border'', ''solid '' @ ACCENT), (''background'', PANEL_BG)]),
     (''Tabs'', [(''background'', PANEL_BG_ALT)]),
     (''Tab'', [(''color'', TEXT_MUTED)]),
     (''Tab.-active'', [(''color'', ACCENT), (''text-style'', ''bold'')]),
     (''Underline > .underline--bar'', [(''color'', ACCENT), (''background'', ACCENT_DIM)]),
     (''ProgressBar > .bar--indeterminate'', [(''color'', ACCENT)]),
     (''ProgressBar > .bar--bar'', [(''color'', ACCENT)]),
     (''Sparkline > .sparkline--max-color'', [(''color'', ACCENT)]),
     (''Sparkline > .sparkline--min-color'', [(''color'', ACCENT_DIM)])]"

definition dialog_css :: css where
  "dialog_css = 
    [(''ConfirmDialog'', [(''align'', ''center middle'')]),
     (''#confirm-box'', [(''width'', ''64''), (''height'', ''auto''), (''border'', ''solid $accent''), (''background'', ''$panel''),
        (''padding'', ''1 2'')]),
     (''#confirm-title'', [(''text-style'', ''bold''), (''height'', ''1''), (''margin-bottom'', ''1'')]),
     (''#confirm-message'', [(''width'', ''100%''), (''padding-bottom'', ''1'')]),
     (''#confirm-buttons'', [(''width'', ''100%''), (''height'', ''auto''), (''align-horizontal'', ''right'')]),
     (''#confirm-buttons Button'', [(''margin-left'', ''1'')])]"

definition ssh_css :: css where
  "ssh_css = 
    [(''SSHPanel'', [(''height'', ''1fr'')]),
     (''#ssh-active-panel'', [(''height'', ''8''), (''margin-bottom'', ''1'')]),
     (''#ssh-history-panel'', [(''height'', ''1fr''), (''margin-bottom'', ''1'')]),
     (''#ssh-history-toolbar'', [(''height'', ''3'')]),
     (''#ssh-history-filter'', [(''width'', ''40''), (''margin-right'', ''1'')]),
     (''#ssh-history-loadmore'', [(''width'', ''auto'')]),
     (''#ssh-history-count'', [(''width'', ''1fr''), (''content-align'', ''right middle''), (''color'', ''$text-muted'')]),
     (''#ssh-lower-row'', [(''height'', ''12'')]),
     (''#ssh-keys-panel'', [(''width'', ''1fr''), (''margin-right'', ''1'')]),
     (''#ssh-blocked-panel'', [(''width'', ''1fr'')])]"

definition system_css :: css where
  "system_css = 
    [(''SystemPanel'', [(''height'', ''1fr'')]),
     (''#sys-stats-row'', [(''height'', ''4''), (''margin-bottom'', ''1'')]),
     (''#sys-cores-row'', [(''height'', ''8''), (''margin-bottom'', ''1'')]),
     (''#sys-cores-panel'', [(''width'', ''2fr''), (''margin-right'', ''1'')]),
     (''#sys-temps-panel'', [(''width'', ''1fr'')]),
     (''#sys-disks-panel'', [(''height'', ''6''), (''margin-bottom'', ''1'')]),
     (''#sys-net-gpu-row'', [(''height'', ''8''), (''margin-bottom'', ''1'')]),
     (''#sys-net-panel'', [(''width'', ''1fr''), (''margin-right'', ''1'')]),
     (''#sys-gpu-panel'', [(''width'', ''1fr'')]),
     (''#sys-net-sparkline'', [(''height'', ''3'')]),
     (''#sys-processes-panel'', [(''height'', ''1fr'')]),
     (''#sys-processes-toolbar'', [(''height'', ''3'')]),
     (''#sys-processes-toolbar Button'', [(''margin-right'', ''1'')])]"

definition speedtest_css :: css where
  "speedtest_css = 
    [(''SpeedTestPanel'', [(''height'', ''1fr'')]),
     (''#st-action-row'', [(''height'', ''5''), (''margin-bottom'', ''1'')]),
     (''#st-run-btn'', [(''width'', ''auto''), (''margin-right'', ''2'')]),
     (''#st-status'', [(''width'', ''1fr''), (''content-align'', ''left middle'')]),
     (''#st-progress'', [(''margin-top'', ''1''), (''display'', ''none'')]),
     (''#st-result-row'', [(''height'', ''6''), (''margin-bottom'', ''1'')]),
     (''#st-history-panel'', [(''height'', ''1fr'')]),
     (''#st-history-row'', [(''height'', ''1fr'')]),
     (''#st-history-table-container'', [(''width'', ''2fr''), (''margin-right'', ''1''), (''height'', ''100%'')]),
     (''#st-history-chart-container'', [(''width'', ''1fr''), (''height'', ''100%'')]),
     (''#st-sparkline-down'', [(''height'', ''4'')]),
     (''#st-sparkline-up'', [(''height'', ''4'')])]"

definition tools_css :: css where
  "tools_css = 
    [(''ToolsPanel'', [(''height'', ''1fr'')]),
     (''#tools-top-row'', [(''height'', ''12''), (''margin-bottom'', ''1'')]),
     (''#tools-services-panel'', [(''width'', ''1fr''), (''margin-right'', ''1'')]),
     (''#tools-containers-panel'', [(''width'', ''1fr'')]),
     (''#tools-mid-row'', [(''height'', ''9''), (''margin-bottom'', ''1'')]),
     (''#tools-updates-panel'', [(''width'', ''1fr''), (''margin-right'', ''1'')]),
     (''#tools-diskhealth-panel'', [(''width'', ''2fr'')]),
     (''#tools-danger-panel'', [(''height'', ''1fr''), (''border'', ''solid #f87171'')]),
     (''#tools-danger-panel .panel-title'', [(''color'', ''#f87171'')]),
     (''#tools-danger-row'', [(''height'', ''auto''), (''margin-top'', ''1'')]),
     (''#tools-danger-row Button'', [(''margin-right'', ''2'')]),
     (''#tools-danger-note'', [(''margin-top'', ''1''), (''color'', ''$text-muted'')])]"

definition alerts_css :: css where
  "alerts_css = 
    [(''AlertsPanel'', [(''height'', ''1fr'')]),
     (''#alerts-table'', [(''height'', ''1fr'')])]"

definition header_css :: css where
  "header_css = 
    [(''OmniaHeader'', [(''height'', ''1''), (''background'', ''$panel''), (''color'', ''$text''), (''padding'', ''0 1'')])]"

definition app_css :: css where
  "app_css = BASE_CSS @
    [(''TabbedContent'', [(''height'', ''1fr'')]),
     (''TabPane'', [(''height'', ''1fr''), (''padding'', ''1'')]),
     (''#omnia-loading'', [(''height'', ''1fr''), (''content-align'', ''center middle'')])]"

end
