(* ===== verification/Layout_Properties.thy ===== *)
theory Layout_Properties
  imports Tui_Styles "HOL-Library.Sublist"
begin

section \<open>Properties of the widget trees\<close>

text \<open>
  That what the methods of the client look up, fill and style is there: ids, kinds, columns, rules.
\<close>

subsection \<open>Look-ups\<close>

definition finds :: "widget \<Rightarrow> string \<times> string \<Rightarrow> bool" where
  "finds w q = (case query_one (fst q) (snd q) w of Inr x \<Rightarrow> wg_id x = fst q \<and> wg_kind x = snd q | Inl e \<Rightarrow> False)"

definition panel :: "string \<Rightarrow> widget list \<Rightarrow> widget" where
  "panel name ws = Widget name [] [] [] ws"

lemma app_ids_distinct: "distinct (widget_ids app_compose)"
  by code_simp

lemma panels_find:
  "list_all (finds (panel ''SSHPanel'' ssh_compose)) ssh_queries"
  "list_all (finds (panel ''SystemPanel'' system_compose)) system_queries"
  "list_all (finds (panel ''SpeedTestPanel'' speedtest_compose)) speedtest_queries"
  "list_all (finds (panel ''ToolsPanel'' tools_compose)) tools_queries"
  "list_all (finds (panel ''AlertsPanel'' alerts_compose)) alerts_queries"
  "list_all (finds app_compose) app_queries"
  by code_simp+

lemma panes_found: "list_all (\<lambda>b. case action_goto (snd b) of None \<Rightarrow> snd b = ''quit''
    | Some t \<Rightarrow> finds app_compose (t, ''TabPane'')) BINDINGS"
  by code_simp

lemma dialog_ids: "widget_ids (confirm_dialog t m l d) = [''confirm-box'', ''confirm-title'', ''confirm-message'', ''confirm-buttons'', ''cancel-btn'', ''confirm-btn'']"
  by (simp add: widget_ids_def confirm_dialog_def)

text \<open>No look-up of a widget can fail: in every panel each \<open>query_one\<close> of its methods finds, below that panel, a
  widget of the kind it expects; every key goes to a tab that exists; and no id occurs twice in the
  application, also while a confirmation, of whatever title and text, is open over it.\<close>

theorem look_ups_always_match:
  "list_all (\<lambda>(w, qs). list_all (finds w) qs)
      [(panel ''SSHPanel'' ssh_compose, ssh_queries), (panel ''SystemPanel'' system_compose, system_queries),
       (panel ''SpeedTestPanel'' speedtest_compose, speedtest_queries), (panel ''ToolsPanel'' tools_compose, tools_queries),
       (panel ''AlertsPanel'' alerts_compose, alerts_queries), (app_compose, app_queries)]
    \<and> list_all (\<lambda>b. case action_goto (snd b) of None \<Rightarrow> snd b = ''quit'' | Some t \<Rightarrow> finds app_compose (t, ''TabPane'')) BINDINGS
    \<and> distinct (widget_ids app_compose @ widget_ids (confirm_dialog title message confirm_label danger))"
proof (intro conjI)
  have "list_all (\<lambda>i. i \<notin> set (widget_ids app_compose))
      [''confirm-box'', ''confirm-title'', ''confirm-message'', ''confirm-buttons'', ''cancel-btn'', ''confirm-btn'']"
    by code_simp
  then show "distinct (widget_ids app_compose @ widget_ids (confirm_dialog title message confirm_label danger))"
    using app_ids_distinct by (simp add: dialog_ids)
qed (simp add: panels_find, rule panes_found)

subsection \<open>Rows and columns\<close>

definition column_count :: "table_columns \<Rightarrow> string \<Rightarrow> nat" where
  "column_count cs t = (case map_of cs t of Some xs \<Rightarrow> length xs | None \<Rightarrow> 0)"

lemma column_counts [simp]:
  "column_count ssh_columns ''ssh-active-table'' = 6" "column_count ssh_columns ''ssh-history-table'' = 5"
  "column_count ssh_columns ''ssh-keys-table'' = 4" "column_count ssh_columns ''ssh-blocked-table'' = 3"
  "column_count system_columns ''sys-disks-table'' = 5" "column_count system_columns ''sys-processes-table'' = 4"
  "column_count speedtest_columns ''st-history-table'' = 5" "column_count tools_columns ''tools-containers-table'' = 4"
  by code_simp+

definition rows_of :: "'r table_view \<Rightarrow> 'r list" where
  "rows_of v = (case v of Rows rs \<Rightarrow> rs | Message m \<Rightarrow> [])"

lemma rows_table_or: "rows_of (table_or rs m) = rs" "rows_of (Message m) = []"
  by (simp_all add: rows_of_def table_or_def)

definition fits :: "table_columns \<Rightarrow> string \<Rightarrow> nat list \<Rightarrow> bool" where
  "fits cs t lens \<longleftrightarrow> set lens \<subseteq> {column_count cs t}"

text \<open>Whatever the backend holds, every row a panel adds to a table has as many cells as \<open>on_mount\<close> gave the
  table columns (a bar is one cell, the coloured kind and status of a row are one each).\<close>

theorem rows_fit_their_columns:
  assumes "ssh_refresh fmt_dt now s p = Some v" "system_refresh s sort_by = Some y" "speedtest_refresh fmt_dt s = Some t"
    "snd (tools_refresh s tp) = Some o'"
  shows "fits ssh_columns ''ssh-active-table'' (map length (rows_of (sh_active v)))
    \<and> fits ssh_columns ''ssh-keys-table'' (map length (sh_key_rows v))
    \<and> fits ssh_columns ''ssh-blocked-table'' (map length (rows_of (sh_blocked v)))
    \<and> fits system_columns ''sys-disks-table'' (map (\<lambda>r. length (fst r) + 1) (yv_disks y))
    \<and> fits system_columns ''sys-processes-table'' (map length (yv_processes y))
    \<and> fits speedtest_columns ''st-history-table'' (map length (rows_of (tv_table t)))
    \<and> fits tools_columns ''tools-containers-table'' (map length (rows_of (ov_containers o')))"
proof -
  have ready: "sf_ready s" using assms(1) by (auto simp: ssh_refresh_def split: if_splits)
  have v: "v = the (ssh_refresh fmt_dt now s p)" and y: "y = the (system_refresh s sort_by)"
    and t: "t = the (speedtest_refresh fmt_dt s)" and o': "o' = the (snd (tools_refresh s tp))"
    using assms by simp_all
  have "fits ssh_columns ''ssh-active-table'' (map length (rows_of (sh_active v)))"
    "fits ssh_columns ''ssh-keys-table'' (map length (sh_key_rows v))"
    "fits ssh_columns ''ssh-blocked-table'' (map length (rows_of (sh_blocked v)))"
    unfolding v using ready by (auto simp: ssh_refresh_def Let_def fits_def rows_table_or ban_row_def)
  moreover have "fits system_columns ''sys-disks-table'' (map (\<lambda>r. length (fst r) + 1) (yv_disks y))"
    "fits system_columns ''sys-processes-table'' (map length (yv_processes y))"
    unfolding y using ready by (auto simp: system_refresh_def fits_def disk_row_def process_row_def)
  moreover have "fits speedtest_columns ''st-history-table'' (map length (rows_of (tv_table t)))"
    unfolding t using ready by (auto simp: speedtest_refresh_def Let_def fits_def rows_table_or test_row_def)
  moreover have "fits tools_columns ''tools-containers-table'' (map length (rows_of (ov_containers o')))"
    unfolding o' using ready by (auto simp: tools_refresh_def fits_def rows_table_or)
  ultimately show ?thesis by blast
qed

definition banned_backend :: backend where
  "banned_backend = new_backend\<lparr>be_ready := True, be_fail2ban_available := True,
     be_blocked_ips := [\<lparr>bi_ip = JStr ''1.1.1.1'', bi_rule = ''sshd'', bi_banned_at = 3\<rparr>]\<rparr>"

theorem rows_fit_their_columns_witness:
  "\<exists>v. ssh_refresh (\<lambda>_. []) 9 (surface_of_backend banned_backend) new_ssh_panel = Some v
    \<and> fits ssh_columns ''ssh-blocked-table'' (map length (rows_of (sh_blocked v))) \<and> length (rows_of (sh_blocked v)) = 1"
proof -
  let ?s = "surface_of_backend banned_backend"
  have r: "sf_ready ?s" "sf_fail2ban_available ?s" "length (sf_blocked_ips ?s) = 1"
    by (simp_all add: surface_of_backend_def banned_backend_def)
  obtain v where v: "ssh_refresh (\<lambda>_. []) 9 ?s new_ssh_panel = Some v" using r(1) by (simp add: ssh_refresh_def Let_def)
  moreover obtain y t o' where "system_refresh ?s ''cpu'' = Some y" "speedtest_refresh (\<lambda>_. []) ?s = Some t"
    "snd (tools_refresh ?s new_tools_panel) = Some o'"
    using r(1) by (simp add: system_refresh_def speedtest_refresh_def tools_refresh_def Let_def)
  ultimately have "fits ssh_columns ''ssh-blocked-table'' (map length (rows_of (sh_blocked v)))"
    using rows_fit_their_columns by blast
  moreover have "length (rows_of (sh_blocked v)) = 1" using v r by (auto simp: ssh_refresh_def Let_def rows_table_or)
  ultimately show ?thesis using v by blast
qed

subsection \<open>Styles\<close>

definition styles_class :: "string \<Rightarrow> string \<Rightarrow> bool" where
  "styles_class c sel = suffix (CHR ''.'' # c) sel"

definition all_css :: css where
  "all_css = app_css @ header_css @ dialog_css @ ssh_css @ system_css @ speedtest_css @ tools_css @ alerts_css"

definition selector_ids :: "css \<Rightarrow> string list" where
  "selector_ids css = map (\<lambda>r. takeWhile (\<lambda>c. c \<noteq> CHR '' '') (drop 1 (fst r))) (filter (\<lambda>r. take 1 (fst r) = ''#'') css)"

definition tree_classes :: "widget \<Rightarrow> string list" where
  "tree_classes w = remdups (concat (map wg_classes (widget_all w)))"

text \<open>Every CSS class of a widget, also the ones \<open>update_value\<close> puts on a card, has a rule, and every rule for
  an id has its widget, except one: \<open>#tools-updates-panel\<close>, meant for the updates card, which has no id.\<close>

theorem every_class_is_styled:
  "list_all (\<lambda>c. list_ex (\<lambda>r. styles_class c (fst r)) all_css) (tree_classes app_compose @ tree_classes (confirm_dialog title message label danger)
      @ wg_classes (update_value x ''warning'' (Widget k i [''stat-value''] y []))
      @ wg_classes (update_value x ''success'' (Widget k i [''stat-value'', ''warning''] y [])))
    \<and> filter (\<lambda>i. i \<notin> set (widget_ids app_compose @ widget_ids (confirm_dialog title message label danger))) (selector_ids all_css)
      = [''tools-updates-panel'']"
proof -
  have d: "tree_classes (confirm_dialog title message label danger) = (if danger then [''-danger''] else [])"
    by (simp add: tree_classes_def confirm_dialog_def)
  have "list_all (\<lambda>c. list_ex (\<lambda>r. styles_class c (fst r)) all_css)
      (tree_classes app_compose @ [''-danger'', ''stat-value'', ''warning'', ''success''])"
    by code_simp
  moreover have "filter (\<lambda>i. i \<notin> set (widget_ids app_compose @ [''confirm-box'', ''confirm-title'', ''confirm-message'',
      ''confirm-buttons'', ''cancel-btn'', ''confirm-btn''])) (selector_ids all_css) = [''tools-updates-panel'']"
    by code_simp
  ultimately show ?thesis by (auto simp: d dialog_ids update_value_def)
qed

end
