(* ===== verification/Spec2Isabelle.thy ===== *)
theory Spec2Isabelle
  imports Task_Properties Tui_Properties Screen_Properties Layout_Properties
begin

text \<open>
  A verification library for Omnia, a monitor of one server: the daemon \<open>omnia_daemon\<close>
  (\<open>src/daemon/src/omnia_daemon/\<close>) reads the SSH log and the sensors, stores what it saw, alerts by email and
  serves a Unix socket; the client \<open>omnia_tui\<close> (\<open>src/tui/omnia_tui/\<close>) is a Textual application over that socket.

  How the parts interact. \<open>main.py\<close> creates the database, the key store, the collector, the alert manager and
  the server, and starts one task per loop of \<open>scheduler.py\<close>. The ingestion (\<open>ssh_ingest.py\<close>) turns a line of
  journald or of a log file into an event with \<open>ssh_log_parser.py\<close>, labels its key with \<open>key_fingerprint.py\<close>,
  stores it with \<open>db.py\<close>, gives it to the rules of \<open>alerts.py\<close> and broadcasts it. The metrics loop does the same
  with the snapshots of \<open>metrics_collector.py\<close> and \<open>gpu_intel.py\<close>; other loops run \<open>extra_tools.py\<close>,
  \<open>speedtest_runner.py\<close> and the retention. \<open>socket_server.py\<close> answers requests and writes the broadcasts; the
  client's \<open>backend.py\<close> sends requests, applies replies and events to its attributes, and the panels of
  \<open>screens/\<close> show these.

  Python. \<open>Omnia_Prelude\<close> has the collections, the exceptions as values (\<open>exn\<close>, \<open>result\<close> = \<open>exn + 'a\<close>) and the
  generic lemmas; \<open>Py_Strings\<close>, \<open>Py_Numbers\<close>, \<open>Py_Text\<close>, \<open>Py_Regex\<close>, \<open>Py_Datetime\<close>, \<open>Py_Json\<close> and \<open>Sha256\<close> model what the
  program uses of the language and the standard library, executably; \<open>Json_Facts\<close> (what \<open>dumps\<close> writes \<open>loads\<close> reads)
  and \<open>Json_Stream\<close> (decoding a growing buffer) are about it. An \<open>int\<close> is unbounded except where SQLite stores
  it (\<open>sql_int\<close>, 64 bits) and where \<open>int()\<close> refuses more than 4300 digits; a \<open>float\<close> is a rational, whose
  printed form is the parameter \<open>ft\<close>; the parser of JSON takes fuel from the length of its text, which covers
  every nesting that text can have.

  The daemon, one theory per module of the same name: \<open>Config\<close>, \<open>Db\<close> (a table is its rows with ids in insertion order
  and the sequence; with \<open>Db_Facts\<close>), \<open>Alerts\<close> (effects on the record \<open>world\<close>; with \<open>Alert_Facts\<close>),
  \<open>Ssh_Log_Parser\<close> (with \<open>Ssh_Log_Facts\<close>, \<open>Syslog_Facts\<close>), \<open>Ssh_Ingest\<close> (with \<open>Delivery\<close>, \<open>Ingest_Facts\<close>), \<open>Key_Fingerprint\<close>,
  \<open>Metrics\<close> (\<open>metrics_collector.py\<close>), \<open>Gpu_Intel\<close>, \<open>Extra_Tools\<close>, \<open>Speedtest_Runner\<close>, \<open>Socket_Server\<close> (the record \<open>server\<close>; with
  \<open>Server_Facts\<close>), \<open>Scheduler\<close> (one turn of each loop). \<open>Daemon\<close> is the relation \<open>omnia_step\<close> of all turns and
  inputs in any order, \<open>Daemon_Tasks\<close> the run of \<open>main.py\<close>'s tasks with those that have ended and the shutdown.
  What \<open>psutil\<close>, the tools, the speed-test library, SMTP, journalctl, the clocks and the file system answer is
  an argument of the turn that uses it.

  The client: \<open>Tui_Data\<close> (\<open>data.py\<close> with the simulated backend), \<open>Tui_Backend\<close> (attributes and payloads of
  \<open>backend.py\<close>; with \<open>Tui_Apply\<close>, \<open>Tui_Status\<close>, \<open>Tui_Facts\<close>), \<open>Tui_Protocol\<close> (its connection, requests and timers), \<open>Tui_Surface\<close>
  (what both backends offer), \<open>Tui_Panels\<close> (\<open>theme.py\<close>, \<open>widgets.py\<close>, \<open>screens/\<close>), \<open>Tui_App\<close> (\<open>screens/tools.py\<close>'s dialogs and
  \<open>app.py\<close>), \<open>Tui_Layout\<close> (the widget trees, columns, look-ups and keys), \<open>Tui_Styles\<close> (the palette and the style
  sheets as rules), \<open>Tui_Session\<close> (client and server over the lines of the socket).

  The properties. \<open>Ingest_Properties\<close>: lines of sshd are classified exactly, a tailed file yields every whole line once and
  follows a rotation, a journald session resumes where it stopped, retry delays are bounded. \<open>Alert_Properties\<close>: what each
  rule decides, cooldown, the SMTP conversation. \<open>Server_Properties\<close>: replies, isolation of clients, subscriptions, framing,
  configuration, key file and its cache, speed-test rows, device names. \<open>Daemon_Properties\<close>: invariants of every history
  (tables, alert spacing, machine actions), the collector's rows, the GPU stream. \<open>Task_Properties\<close>: the caches in every run,
  which loops end. \<open>Tui_Properties\<close>: from the daemon's data to the client's attributes. \<open>Screen_Properties\<close> and
  \<open>Layout_Properties\<close>: what the panels show, confirmations, look-ups. This theory: from the log to the alert, and forged lines.
  The interfaces are locales interpreted on the model: the key/value store and the alert history of the database, the
  contract of a command handler, the live network histories of the client.

  Not modelled: imports, docstrings and log lines; argument parsing, the registration of the signal handler and
  Textual's start; preparing the socket file (\<open>OmniaServer.start\<close>); asyncio's transports (a connection is the sequence
  of its lines and its end) and the interleaving inside one turn; SQLite's locking and errors other than
  overflow; rounding of floating-point sums; options of single widgets (borders, zebra stripes, cursors), and how Textual lays
  widgets out; the documents and example configuration.
\<close>

section \<open>Across the components\<close>





text \<open>The same forged line with a port outside SQLite's 64 bits makes the insertion raise: no row,
  no alert and no broadcast, and the error ends the log source although the position behind the
  line is already stored.\<close>

theorem forged_port_stops_the_source:
  assumes "token u" "ip_text ip" "2 ^ 63 \<le> port" "length (str_nat port) \<le> max_str_digits" "key_ok key" "readable fv"
  shows "\<exists>ks e. handle_message env fv ts (''Invalid user '' @ accepted_line ''publickey'' u ip port key
      (attacker_tail ip' port')) st = (st\<lparr>ig_keys := ks\<rparr>, Inl e)"
proof -
  let ?m = "''Invalid user '' @ accepted_line ''publickey'' u ip port key (attacker_tail ip' port')"
  from parse_forged [OF _ assms(1,2,4,5), of "''publickey''" ip' port']
  have p: "parse_sshd_message ?m = Inr (Some (event_of ''accepted_publickey'' u ip (Some port) key ?m))"
    by (simp add: auth_methods_def outcome_def)
  have "pl_source_port (event_of ''accepted_publickey'' u ip (Some port) key ?m) = Some (int port)" "\<not> sql_int (int port)"
    using assms(3) by (simp_all add: event_of_def sql_int_def)
  from handle_message_overflow [OF p assms(6) this] show ?thesis .
qed

theorem forged_port_stops_the_source_witness:
  "\<exists>ks e. handle_message quiet_env NoFile 0 (''Invalid user '' @ accepted_line ''publickey'' ''root'' ''8.8.8.8''
      9999999999999999999 None (attacker_tail ''6.6.6.6'' 4242)) empty_ingest = (empty_ingest\<lparr>ig_keys := ks\<rparr>, Inl e)"
proof (rule forged_port_stops_the_source)
  show "length (str_nat 9999999999999999999) \<le> max_str_digits"
    using length_str_nat [of 9999999999999999999 19] by (simp add: max_str_digits_def)
qed (simp_all add: readable_def key_ok_def token_def non_space_def is_py_space_def ip_text_def is_ip_char_def)

end
